(* ===== verification/Prelude.thy ===== *)
theory Prelude
  imports
    Main
    "HOL-Library.Word"
    "HOL-Library.Char_ord"
    "HOL-Library.List_Lexorder"
    "HOL-Library.Product_Lexorder"
begin

text \<open>
  What every component of the development shares.

  \<^item> the machine integers of the Go code: \<open>uint8\<close>, \<open>uint32\<close> and \<open>uint64\<close> are words (\<open>+\<close>,
    \<open>-\<close> and \<open>*\<close> wrap), \<open>int64\<close> is an \<open>int\<close> whose arithmetic goes through \<open>wrap64\<close>, the two's
    complement truncation at 64 bits;
  \<^item> the outcome of a Go function that returns an error or panics: \<open>error + 'a\<close>, with \<open>rbind\<close> for
    "return if err is not nil, else go on" and \<open>rfold\<close> for a loop whose body may fail;
  \<^item> the key-value stores of the keepers: a store is the ascending list of its entries, so that
    an iterator is the list itself and a reverse iterator its reversal;
  \<^item> the hexadecimal text of a byte string, which the code uses as a map key.
\<close>

named_theorems store_simps \<open>equations of the key-value stores\<close>
named_theorems res_simps \<open>equations and inversions of fallible computations\<close>

section \<open>Machine integers\<close>

type_synonym byte = "8 word"
type_synonym bytes = "byte list"
type_synonym u32 = "32 word"
type_synonym u64 = "64 word"
type_synonym i64 = int

definition wrap64 :: "int \<Rightarrow> i64" where
  "wrap64 x = sint (word_of_int x :: u64)"

definition to_u64 :: "i64 \<Rightarrow> u64" where
  "to_u64 x = word_of_int x"

definition to_i64 :: "u64 \<Rightarrow> i64" where
  "to_i64 w = sint w"

definition is_i64 :: "int \<Rightarrow> bool" where
  "is_i64 x \<longleftrightarrow> - (2 ^ 63) \<le> x \<and> x < 2 ^ 63"

lemma wrap64_id: "is_i64 x \<Longrightarrow> wrap64 x = x"
  by (simp add: wrap64_def is_i64_def int_word_sint)

lemma wrap64_range: "is_i64 (wrap64 x)"
  using sint_range_size [of "word_of_int x :: u64"]
  by (simp add: wrap64_def is_i64_def word_size)

lemma to_i64_range: "is_i64 (to_i64 w)"
  using sint_range_size [of w] by (simp add: to_i64_def is_i64_def word_size)

lemma to_i64_small: "uint w < 2 ^ 63 \<Longrightarrow> to_i64 w = uint w"
  using wrap64_id [of "uint w"] uint_ge_0 [of w] by (simp add: to_i64_def wrap64_def is_i64_def)

lemma to_u64_to_i64 [simp]: "to_u64 (to_i64 w) = w"
  by (simp add: to_u64_def to_i64_def)

lemma unat_to_u64: "0 \<le> x \<Longrightarrow> x < 2 ^ 64 \<Longrightarrow> unat (to_u64 x) = nat x"
  by (simp add: to_u64_def unat_eq_nat_uint uint_word_of_int)

text \<open>The values a Go loop \<open>for i := lo; i <= hi; i++\<close> over \<open>uint64\<close> visits.  (With
  \<open>hi = MaxUint64\<close> the Go loop would never leave; the bounds that occur are block heights.)\<close>

definition range_u64 :: "u64 \<Rightarrow> u64 \<Rightarrow> u64 list" where
  "range_u64 lo hi = map of_nat [unat lo ..< Suc (unat hi)]"

definition range_u32 :: "u32 \<Rightarrow> u32 \<Rightarrow> u32 list" where
  "range_u32 lo hi = map of_nat [unat lo ..< Suc (unat hi)]"

lemma set_range_u64: "set (range_u64 lo hi) = {i. lo \<le> i \<and> i \<le> hi}"
proof -
  have lt: "unat hi < 2 ^ 64" using unsigned_less [of hi] by simp
  have "of_nat ` {unat lo ..< Suc (unat hi)} \<subseteq> {i :: u64. lo \<le> i \<and> i \<le> hi}"
  proof (rule image_subsetI)
    fix n assume n: "n \<in> {unat lo ..< Suc (unat hi)}"
    with lt have "unat (of_nat n :: u64) = n" by (simp add: unat_of_nat)
    with n show "(of_nat n :: u64) \<in> {i. lo \<le> i \<and> i \<le> hi}"
      by (simp add: word_le_nat_alt)
  qed
  moreover have "{i :: u64. lo \<le> i \<and> i \<le> hi} \<subseteq> of_nat ` {unat lo ..< Suc (unat hi)}"
  proof (rule subsetI)
    fix i :: u64 assume "i \<in> {i. lo \<le> i \<and> i \<le> hi}"
    then have "unat i \<in> {unat lo ..< Suc (unat hi)}" by (simp add: word_le_nat_alt)
    then show "i \<in> of_nat ` {unat lo ..< Suc (unat hi)}"
      by (rule rev_image_eqI) simp
  qed
  ultimately have "of_nat ` {unat lo ..< Suc (unat hi)} = {i :: u64. lo \<le> i \<and> i \<le> hi}"
    by (rule equalityI)
  then show ?thesis by (simp only: range_u64_def set_map set_upt)
qed

lemma range_u64_empty: "hi < lo \<Longrightarrow> range_u64 lo hi = []"
  by (simp add: range_u64_def word_less_nat_alt)

lemma takeWhile_upt: "\<exists>k. takeWhile P [i ..< j] = [i ..< k] \<and> k \<le> max i j"
proof (cases "i < j")
  case True
  let ?n = "length (takeWhile P [i ..< j])"
  have "?n \<le> j - i" using length_takeWhile_le [of P "[i ..< j]"] by simp
  with True have n: "i + ?n \<le> j" by simp
  have "takeWhile P [i ..< j] = take ?n [i ..< j]" by (rule takeWhile_eq_take)
  also have "\<dots> = [i ..< i + ?n]" using n by (rule take_upt)
  finally show ?thesis using n by (intro exI [of _ "i + ?n"]) simp
qed (auto intro: exI [of _ i])

lemma takeWhile_range_u64:
  fixes lo hi :: u64
  assumes "takeWhile P (range_u64 lo hi) \<noteq> []"
  shows "set (takeWhile P (range_u64 lo hi)) = {h. lo \<le> h \<and> h \<le> last (takeWhile P (range_u64 lo hi))}"
    and "lo \<le> last (takeWhile P (range_u64 lo hi))" and "last (takeWhile P (range_u64 lo hi)) \<le> hi"
proof -
  obtain k where k: "takeWhile P (range_u64 lo hi) = map of_nat [unat lo ..< k]" "k \<le> max (unat lo) (Suc (unat hi))"
    using takeWhile_upt [of "P \<circ> of_nat" "unat lo" "Suc (unat hi)"]
    by (auto simp: range_u64_def takeWhile_map)
  with assms have "unat lo < k" by (cases "unat lo < k") auto
  then obtain m where m: "k = Suc m" "unat lo \<le> m" by (cases k) auto
  have "unat hi < 2 ^ 64" using unsigned_less [of hi] by simp
  with k(2) m have le: "m \<le> unat hi" "m < 2 ^ 64" by simp_all
  then have u: "unat (of_nat m :: u64) = m" by (simp add: unat_of_nat)
  have tw: "takeWhile P (range_u64 lo hi) = range_u64 lo (of_nat m)"
    using k(1) m by (simp add: range_u64_def u del: upt_Suc)
  have last: "last (range_u64 lo (of_nat m)) = of_nat m"
    using m(2) by (simp add: range_u64_def u)
  show "lo \<le> last (takeWhile P (range_u64 lo hi))" "last (takeWhile P (range_u64 lo hi)) \<le> hi"
    using m le by (simp_all add: tw last word_le_nat_alt u)
  show "set (takeWhile P (range_u64 lo hi)) = {h. lo \<le> h \<and> h \<le> last (takeWhile P (range_u64 lo hi))}"
    by (simp only: tw last set_range_u64)
qed

lemma hd_range_u64: "range_u64 lo hi = [] \<or> hd (range_u64 lo hi) = lo"
  by (cases "unat lo < Suc (unat hi)") (simp_all add: range_u64_def upt_conv_Cons del: upt_Suc)

lemma distinct_range_u64 [simp]: "distinct (range_u64 lo hi)"
proof -
  have "inj_on (of_nat :: nat \<Rightarrow> u64) {unat lo ..< Suc (unat hi)}"
  proof (rule inj_onI)
    fix x y :: nat
    assume "x \<in> {unat lo ..< Suc (unat hi)}" "y \<in> {unat lo ..< Suc (unat hi)}" "(of_nat x :: u64) = of_nat y"
    moreover have "unat hi < 2 ^ 64" using unsigned_less [of hi] by simp
    ultimately have "x < 2 ^ 64" "y < 2 ^ 64" "unat (of_nat x :: u64) = unat (of_nat y :: u64)" by simp_all
    then show "x = y" by (simp add: unat_of_nat)
  qed
  then show ?thesis by (simp add: range_u64_def distinct_map del: upt_Suc)
qed

lemma less_Suc_u64:
  fixes x h :: u64
  assumes "unat x < 2 ^ 63"
  shows "h < x + 1 \<longleftrightarrow> h \<le> x"
  using assms by (auto simp: word_less_nat_alt word_le_nat_alt unat_word_ariths)

lemma no_wrap_u64:
  fixes a b :: u64
  assumes "a < a + b"
  shows "unat a + unat b < 2 ^ 64"
proof (rule ccontr)
  assume over: "\<not> unat a + unat b < 2 ^ 64"
  have b: "unat b < 2 ^ 64" "unat a < 2 ^ 64" using unsigned_less [of b] unsigned_less [of a] by simp_all
  with over have "(unat a + unat b) mod 2 ^ 64 = unat a + unat b - 2 ^ 64" by (simp add: le_mod_geq)
  with assms b over show False by (simp add: word_less_nat_alt unat_word_ariths(1))
qed

section \<open>Errors\<close>

text \<open>
  The errors the modelled functions return. The constructors are the registered errors of the
  modules' \<open>errors.go\<close>; \<open>Errorf\<close> stands for an error built in place with \<open>fmt.Errorf\<close> (its text
  is the argument) and \<open>Panic\<close> for a Go panic.
\<close>

datatype error =
    Panic string
  | Errorf string
  | ErrNotFound
  | ErrInvalidSigner
  | ErrInvalidProposalMsg
  | ErrInvalidAddress
  | ErrFpRegistered
  | ErrFpNotFound
  | ErrFpAlreadySlashed
  | ErrFpAlreadyJailed
  | ErrFpNotJailed
  | ErrBTCDelegationNotFound
  | ErrCommissionLTMinRate
  | ErrCommissionGTMaxRate
  | ErrCommissionNegative
  | ErrCommissionHuge
  | ErrCommissionChangeRateNegative
  | ErrCommissionChangeRateGTMaxRate
  | ErrCommissionUpdateTime
  | ErrCommissionGTMaxChangeRate
  | ErrEmptyCommissionRates
  | ErrFinalityProviderIsDeleted
  | ErrInvalidStakingTx
  | ErrBlockNotFound
  | ErrVoteNotFound
  | ErrHeightTooHigh
  | ErrPubRandNotFound
  | ErrNoPubRandYet
  | ErrTooFewPubRand
  | ErrInvalidPubRand
  | ErrEvidenceNotFound
  | ErrInvalidFinalitySig
  | ErrDuplicatedFinalitySig
  | ErrBTCStakingNotActivated
  | ErrFinalityNotActivated
  | ErrSigHeightOutdated
  | ErrPubRandCommitNotBTCTimestamped
  | ErrInvalidPubRandCommit
  | ErrJailingPeriodNotPassed
  | ErrOverflowInBlockHeight
  | ErrInvalidResumeFinality
  | ErrInvalidSats
  | ErrRewardGaugeNotFound
  | ErrNoWithdrawableCoins
  | ErrFPCurrentRewardsNotFound
  | ErrFPHistoricalRewardsNotFound
  | ErrBTCDelegationRewardsTrackerNotFound
  | ErrBTCDelegationRewardsTrackerNegativeAmount
  | ErrFPCurrentRewardsTrackerNegativeAmount
  | ErrUnauthorized
  | ErrInvalidAmount
  | ErrInvalidPeriod
  | ErrNegativeRewards
  | ErrInvalidCostakerRwdTracker
  | ErrInvalidScoreRatioBtcByNtk
  | ErrScoreRatioTooLow
  | ErrPercentageTooHigh
  | ErrInvalidPercentage
  | ErrUnknownEpochNumber
  | ErrInvalidHeight
  | ErrInvalidEpoch

type_synonym 'a res = "error + 'a"

definition rbind :: "'a res \<Rightarrow> ('a \<Rightarrow> 'b res) \<Rightarrow> 'b res" where
  "rbind m f = (case m of Inl e \<Rightarrow> Inl e | Inr x \<Rightarrow> f x)"

lemma rbind_simps [simp, res_simps]:
  "rbind (Inl e) f = Inl e"
  "rbind (Inr x) f = f x"
  by (simp_all add: rbind_def)

lemma rbind_eq_Inr [res_simps]: "rbind m f = Inr y \<longleftrightarrow> (\<exists>x. m = Inr x \<and> f x = Inr y)"
  by (cases m) simp_all

lemma case_Inl_eq_Inr: "(case r of Inl e \<Rightarrow> Inl (g e) | Inr x \<Rightarrow> h x) = Inr y \<longleftrightarrow> (\<exists>x. r = Inr x \<and> h x = Inr y)"
  by (cases r) auto

lemma rbind_eq_Inl [res_simps]:
  "rbind m f = Inl e \<longleftrightarrow> m = Inl e \<or> (\<exists>x. m = Inr x \<and> f x = Inl e)"
  by (cases m) simp_all

lemma rbind_InrE [elim?]:
  assumes "rbind m f = Inr y"
  obtains x where "m = Inr x" and "f x = Inr y"
  using assms by (auto simp: rbind_eq_Inr)

text \<open>An error condition that is checked before going on.\<close>

definition ensure :: "bool \<Rightarrow> error \<Rightarrow> unit res" where
  "ensure b e = (if b then Inr () else Inl e)"

lemma ensure_simps [simp, res_simps]:
  "ensure b e = Inr u \<longleftrightarrow> b"
  "ensure b e = Inl e' \<longleftrightarrow> \<not> b \<and> e' = e"
  "ensure True e = Inr ()"
  "ensure False e = Inl e"
  by (auto simp: ensure_def)

text \<open>A loop over a list whose body may fail: it stops at the first error.\<close>

fun rfold :: "('a \<Rightarrow> 's \<Rightarrow> 's res) \<Rightarrow> 'a list \<Rightarrow> 's \<Rightarrow> 's res" where
  "rfold f [] s = Inr s"
| "rfold f (x # xs) s = rbind (f x s) (rfold f xs)"

lemma rfold_append: "rfold f (xs @ ys) s = rbind (rfold f xs s) (rfold f ys)"
  by (induction xs arbitrary: s) (auto simp: rbind_def split: sum.splits)

lemma rfold_concat: "rfold (\<lambda>x. rfold f (g x)) xs s = rfold f (concat (map g xs)) s"
proof (induction xs arbitrary: s)
  case (Cons x xs)
  have "rfold (\<lambda>x. rfold f (g x)) xs = rfold f (concat (map g xs))" using Cons by (rule ext)
  then show ?case by (simp add: rfold_append)
qed simp

text \<open>An invariant that every iteration keeps holds at the end of the loop.\<close>

lemma rfold_invariant:
  assumes "rfold f xs s = Inr t" and "P s"
    and "\<And>x s t. x \<in> set xs \<Longrightarrow> P s \<Longrightarrow> f x s = Inr t \<Longrightarrow> P t"
  shows "P t"
  using assms
proof (induction xs arbitrary: s)
  case Nil
  then show ?case by simp
next
  case (Cons x xs)
  from Cons.prems(1) obtain s' where step: "f x s = Inr s'" and rest: "rfold f xs s' = Inr t"
    by (auto simp: rbind_eq_Inr)
  have "P s'" using Cons.prems(3) [OF _ Cons.prems(2) step] by simp
  moreover have "P u" if "y \<in> set xs" "P r" "f y r = Inr u" for y r u
    using Cons.prems(3) [of y r u] that by simp
  ultimately show ?case using Cons.IH [OF rest] by blast
qed

section \<open>Computations whose writes survive an error\<close>

text \<open>
  A keeper function that is called from a place where its error is only logged leaves behind what
  it wrote before failing.  Such functions return the state together with the result, so that the
  writes before an error are part of the model.
\<close>

named_theorems act_simps \<open>equations of computations that keep their writes\<close>

type_synonym ('s, 'a) act = "'s \<Rightarrow> 'a res \<times> 's"

definition act_return :: "'a \<Rightarrow> ('s, 'a) act" where
  "act_return x s = (Inr x, s)"

definition act_fail :: "error \<Rightarrow> ('s, 'a) act" where
  "act_fail e s = (Inl e, s)"

definition act_bind :: "('s, 'a) act \<Rightarrow> ('a \<Rightarrow> ('s, 'b) act) \<Rightarrow> ('s, 'b) act" where
  "act_bind m f s = (case m s of (Inl e, s1) \<Rightarrow> (Inl e, s1) | (Inr x, s1) \<Rightarrow> f x s1)"

definition act_get :: "('s \<Rightarrow> 'a) \<Rightarrow> ('s, 'a) act" where
  "act_get f s = (Inr (f s), s)"

definition act_modify :: "('s \<Rightarrow> 's) \<Rightarrow> ('s, unit) act" where
  "act_modify f s = (Inr (), f s)"

definition act_res :: "'a res \<Rightarrow> ('s, 'a) act" where
  "act_res r s = (r, s)"

fun act_iter :: "('a \<Rightarrow> ('s, unit) act) \<Rightarrow> 'a list \<Rightarrow> ('s, unit) act" where
  "act_iter f [] = act_return ()"
| "act_iter f (x # xs) = act_bind (f x) (\<lambda>_. act_iter f xs)"

lemma act_apply [simp, act_simps]:
  "act_return x s = (Inr x, s)"
  "act_fail e s = (Inl e, s)"
  "act_get g s = (Inr (g s), s)"
  "act_modify h s = (Inr (), h s)"
  "act_res r s = (r, s)"
  by (simp_all add: act_return_def act_fail_def act_get_def act_modify_def act_res_def)

lemma act_bind_Inr [act_simps]:
  "act_bind m f s = (Inr y, t) \<longleftrightarrow> (\<exists>x u. m s = (Inr x, u) \<and> f x u = (Inr y, t))"
  by (auto simp: act_bind_def split: prod.splits sum.splits)

lemma act_bind_step [simp]: "m s = (Inr x, u) \<Longrightarrow> act_bind m f s = f x u"
  by (simp add: act_bind_def)

lemma act_bind_stop [simp]: "m s = (Inl e, u) \<Longrightarrow> act_bind m f s = (Inl e, u)"
  by (simp add: act_bind_def)

text \<open>An invariant of every step of a computation, whether it fails or not.\<close>

definition act_keeps :: "('s \<Rightarrow> bool) \<Rightarrow> ('s, 'a) act \<Rightarrow> bool" where
  "act_keeps P m \<longleftrightarrow> (\<forall>s. P s \<longrightarrow> P (snd (m s)))"

lemma act_keepsI [intro?]: "(\<And>s. P s \<Longrightarrow> P (snd (m s))) \<Longrightarrow> act_keeps P m"
  by (simp add: act_keeps_def)

lemma act_keepsD: "act_keeps P m \<Longrightarrow> P s \<Longrightarrow> m s = (r, t) \<Longrightarrow> P t"
  by (metis act_keeps_def snd_conv)

lemma act_keeps_basic [simp, intro]:
  "act_keeps P (act_return x)" "act_keeps P (act_fail e)" "act_keeps P (act_get g)"
  "act_keeps P (act_res r)"
  by (simp_all add: act_keeps_def)

lemma act_keeps_bind [intro]:
  assumes "act_keeps P m" and "\<And>x. act_keeps P (f x)"
  shows "act_keeps P (act_bind m f)"
  using assms by (auto simp: act_keeps_def act_bind_def split: prod.splits sum.splits) 
lemma act_keeps_iter [intro]:
  assumes "\<And>x. x \<in> set xs \<Longrightarrow> act_keeps P (f x)"
  shows "act_keeps P (act_iter f xs)"
  using assms
proof (induction xs)
  case Nil
  show ?case by (simp only: act_iter.simps act_keeps_basic)
next
  case (Cons x xs)
  have "act_keeps P (act_bind (f x) (\<lambda>_. act_iter f xs))"
  proof (rule act_keeps_bind)
    show "act_keeps P (f x)" by (rule Cons.prems) simp
    show "act_keeps P (act_iter f xs)" by (rule Cons.IH) (simp add: Cons.prems)
  qed
  then show ?case by simp
qed

end
