(* ===== verification/Stores.thy ===== *)
theory Stores
  imports Prelude
begin

text \<open>
  The key-value stores behind the keepers, and the interface the keepers rely on.

  A store is the list of its entries in strictly ascending key order (\<open>kv_ok\<close>).  Big-endian keys
  order like the numbers they encode, composite keys like pairs, so words, byte strings and pairs
  of them serve as keys directly.  \<open>Iterator(nil, nil)\<close> is the list itself, \<open>ReverseIterator\<close>
  its reversal, and the store below a prefix is \<open>kv_prefix\<close>.

  The locale \<open>ordered_store\<close> states what a keeper expects of a store; its lemmas are proved once
  from the laws, and the interpretation \<open>kv\<close> discharges the laws for the lists.
\<close>

type_synonym ('k, 'v) store = "('k \<times> 'v) list"

definition kv_ok :: "('k::linorder, 'v) store \<Rightarrow> bool" where
  "kv_ok s \<longleftrightarrow> sorted_wrt (<) (map fst s)"

definition kv_get :: "('k, 'v) store \<Rightarrow> 'k \<Rightarrow> 'v option" where
  "kv_get s k = map_of s k"

definition kv_has :: "('k, 'v) store \<Rightarrow> 'k \<Rightarrow> bool" where
  "kv_has s k \<longleftrightarrow> kv_get s k \<noteq> None"

fun kv_set :: "'k::linorder \<Rightarrow> 'v \<Rightarrow> ('k, 'v) store \<Rightarrow> ('k, 'v) store" where
  "kv_set k v [] = [(k, v)]"
| "kv_set k v (e # s) =
     (if fst e < k then e # kv_set k v s
      else if fst e = k then (k, v) # s
      else (k, v) # e # s)"

definition kv_del :: "'k \<Rightarrow> ('k, 'v) store \<Rightarrow> ('k, 'v) store" where
  "kv_del k s = filter (\<lambda>e. fst e \<noteq> k) s"

text \<open>The first entry of an iterator, and of a reverse iterator.\<close>

definition kv_first :: "('k, 'v) store \<Rightarrow> ('k \<times> 'v) option" where
  "kv_first s = (case s of [] \<Rightarrow> None | e # _ \<Rightarrow> Some e)"

definition kv_last :: "('k, 'v) store \<Rightarrow> ('k \<times> 'v) option" where
  "kv_last s = kv_first (rev s)"

text \<open>The store below the key prefix \<open>p\<close>, and its removal.\<close>

definition kv_prefix :: "'p \<Rightarrow> ('p \<times> 'k, 'v) store \<Rightarrow> ('k, 'v) store" where
  "kv_prefix p s = map (\<lambda>e. (snd (fst e), snd e)) (filter (\<lambda>e. fst (fst e) = p) s)"

definition kv_clear_prefix :: "'p \<Rightarrow> ('p \<times> 'k, 'v) store \<Rightarrow> ('p \<times> 'k, 'v) store" where
  "kv_clear_prefix p s = filter (\<lambda>e. fst (fst e) \<noteq> p) s"

section \<open>The interface of an ordered store\<close>

locale ordered_store =
  fixes get :: "'s \<Rightarrow> 'k::linorder \<Rightarrow> 'v option"
    and set_key :: "'k \<Rightarrow> 'v \<Rightarrow> 's \<Rightarrow> 's"
    and del_key :: "'k \<Rightarrow> 's \<Rightarrow> 's"
    and entries :: "'s \<Rightarrow> ('k \<times> 'v) list"
    and ok :: "'s \<Rightarrow> bool"
  assumes get_set: "get (set_key k v s) k' = (if k' = k then Some v else get s k')"
    and get_del: "get (del_key k s) k' = (if k' = k then None else get s k')"
    and get_entries: "ok s \<Longrightarrow> get s k = Some v \<longleftrightarrow> (k, v) \<in> set (entries s)"
    and ascending: "ok s \<Longrightarrow> sorted_wrt (<) (map fst (entries s))"
    and ok_set: "ok s \<Longrightarrow> ok (set_key k v s)"
    and ok_del: "ok s \<Longrightarrow> ok (del_key k s)"
begin

lemma keys_distinct: "ok s \<Longrightarrow> distinct (map fst (entries s))"
  using ascending [of s] strict_sorted_iff [of "map fst (entries s)"] by simp

lemma entries_functional:
  "ok s \<Longrightarrow> (k, v) \<in> set (entries s) \<Longrightarrow> (k, v') \<in> set (entries s) \<Longrightarrow> v = v'"
  using get_entries [of s k v] get_entries [of s k v'] by simp

lemma entries_set:
  assumes "ok s"
  shows "set (entries (set_key k v s)) = insert (k, v) {e \<in> set (entries s). fst e \<noteq> k}"
proof -
  have "(k', v') \<in> set (entries (set_key k v s)) \<longleftrightarrow>
      (k', v') \<in> insert (k, v) {e \<in> set (entries s). fst e \<noteq> k}" for k' v'
    using get_entries [OF ok_set [OF assms], of k v k' v'] get_entries [OF assms, of k' v']
    by (auto simp: get_set split: if_splits)
  then show ?thesis by (simp only: set_eq_iff split_paired_All) simp
qed

lemma first_is_least:
  assumes "ok s" and "entries s = e # es" and "get s k \<noteq> None"
  shows "fst e \<le> k"
proof -
  from assms(3) obtain v where "(k, v) \<in> set (e # es)"
    using get_entries [OF assms(1)] assms(2) by fastforce
  moreover have "sorted_wrt (<) (map fst (e # es))"
    using ascending [OF assms(1)] assms(2) by simp
  ultimately show ?thesis by fastforce
qed

lemma last_is_greatest:
  assumes "ok s" and "rev (entries s) = e # es" and "get s k \<noteq> None"
  shows "k \<le> fst e"
proof -
  have entries: "entries s = rev es @ [e]" using assms(2) by (simp add: rev_eq_Cons_iff)
  from assms(3) obtain v where "(k, v) \<in> set (rev es @ [e])"
    using get_entries [OF assms(1)] entries by fastforce
  moreover have "sorted_wrt (<) (map fst (rev es @ [e]))"
    using ascending [OF assms(1)] entries by simp
  ultimately show ?thesis by (fastforce simp: sorted_wrt_append)
qed

end

section \<open>The lists implement it\<close>

lemma kv_get_Nil [simp, store_simps]: "kv_get [] k = None"
  by (simp add: kv_get_def)

lemma kv_get_Cons [simp, store_simps]:
  "kv_get (e # s) k = (if fst e = k then Some (snd e) else kv_get s k)"
  by (cases e) (auto simp: kv_get_def)

lemma kv_get_set [simp, store_simps]:
  "kv_get (kv_set k v s) k' = (if k' = k then Some v else kv_get s k')"
  by (induction s) auto

lemma kv_get_del [simp, store_simps]:
  "kv_get (kv_del k s) k' = (if k' = k then None else kv_get s k')"
  by (induction s) (auto simp: kv_del_def)

lemma kv_has_set [simp, store_simps]: "kv_has (kv_set k v s) k' \<longleftrightarrow> k' = k \<or> kv_has s k'"
  by (simp add: kv_has_def)

lemma kv_ok_Nil [simp, intro]: "kv_ok []"
  by (simp add: kv_ok_def)

lemma kv_ok_Cons: "kv_ok (e # s) \<longleftrightarrow> (\<forall>k \<in> fst ` set s. fst e < k) \<and> kv_ok s"
  by (auto simp: kv_ok_def)

lemma fst_set_kv_set: "fst ` set (kv_set k v s) = insert k (fst ` set s)"
  by (induction s) auto

lemma kv_ok_set [simp, intro]: "kv_ok s \<Longrightarrow> kv_ok (kv_set k v s)"
  by (induction s) (auto simp: kv_ok_Cons fst_set_kv_set)

lemma kv_ok_filter: "kv_ok s \<Longrightarrow> kv_ok (filter P s)"
  by (induction s) (auto simp: kv_ok_Cons)

lemma kv_ok_del [simp, intro]: "kv_ok s \<Longrightarrow> kv_ok (kv_del k s)"
  by (simp add: kv_del_def kv_ok_filter)

lemma kv_ok_clear_prefix [simp, intro]: "kv_ok s \<Longrightarrow> kv_ok (kv_clear_prefix p s)"
  by (simp add: kv_clear_prefix_def kv_ok_filter)

lemma kv_ok_distinct: "kv_ok s \<Longrightarrow> distinct (map fst s)"
  by (simp add: kv_ok_def strict_sorted_iff)

lemma kv_get_iff: "kv_ok s \<Longrightarrow> kv_get s k = Some v \<longleftrightarrow> (k, v) \<in> set s"
  by (simp add: kv_get_def kv_ok_distinct)

interpretation kv: ordered_store kv_get kv_set kv_del "\<lambda>s. s" kv_ok
  by unfold_locales (auto simp: kv_get_iff, simp add: kv_ok_def)

lemma kv_last_iff:
  assumes "kv_ok s"
  shows "kv_last s = Some (k, v) \<longleftrightarrow> kv_get s k = Some v \<and> (\<forall>k'. kv_get s k' \<noteq> None \<longrightarrow> k' \<le> k)"
proof
  assume "kv_last s = Some (k, v)"
  then obtain es where es: "rev s = (k, v) # es" by (auto simp: kv_last_def kv_first_def split: list.splits)
  then have "(k, v) \<in> set s" by (metis list.set_intros(1) set_rev)
  with es show "kv_get s k = Some v \<and> (\<forall>k'. kv_get s k' \<noteq> None \<longrightarrow> k' \<le> k)"
    using kv_get_iff [OF assms] kv.last_is_greatest [OF assms es] by auto
next
  assume r: "kv_get s k = Some v \<and> (\<forall>k'. kv_get s k' \<noteq> None \<longrightarrow> k' \<le> k)"
  then have "s \<noteq> []" by auto
  then obtain e es where es: "rev s = e # es" by (cases "rev s") auto
  then have mem: "(fst e, snd e) \<in> set s" by (metis list.set_intros(1) prod.collapse set_rev)
  then have "kv_get s (fst e) = Some (snd e)" using kv_get_iff [OF assms] by blast
  moreover have "k \<le> fst e" using kv.last_is_greatest [OF assms es] r by auto
  ultimately have "fst e = k" using r by (metis option.distinct(1) order.antisym)
  with \<open>kv_get s (fst e) = Some (snd e)\<close> r es show "kv_last s = Some (k, v)"
    by (cases e) (simp add: kv_last_def kv_first_def)
qed

section \<open>Prefix stores\<close>

lemma kv_get_prefix [store_simps]: "kv_get (kv_prefix p s) k = kv_get s (p, k)"
  by (induction s) (auto simp: kv_prefix_def)

lemma kv_get_clear_prefix [store_simps]:
  "kv_get (kv_clear_prefix p s) k = (if fst k = p then None else kv_get s k)"
  by (induction s) (auto simp: kv_clear_prefix_def)

lemma kv_prefix_mem: "(k, v) \<in> set (kv_prefix p s) \<longleftrightarrow> ((p, k), v) \<in> set s"
  by (force simp: kv_prefix_def)

lemma kv_prefix_ok [intro]:
  fixes s :: "('p::linorder \<times> 'k::linorder, 'v) store"
  shows "kv_ok s \<Longrightarrow> kv_ok (kv_prefix p s)"
proof (induction s)
  case Nil
  then show ?case by (simp add: kv_prefix_def)
next
  case (Cons e s)
  then have IH: "kv_ok (kv_prefix p s)" by (simp add: kv_ok_Cons)
  have "fst ` set (kv_prefix p s) \<subseteq> {k. (p, k) \<in> fst ` set s}"
    by (force simp: kv_prefix_def)
  then have "snd (fst e) < k" if "fst (fst e) = p" "k \<in> fst ` set (kv_prefix p s)" for k
    using that Cons.prems by (cases "fst e") (force simp: kv_ok_Cons less_prod_simp)
  with IH show ?case by (auto simp: kv_prefix_def kv_ok_Cons)
qed

lemma kv_prefix_set_other [store_simps]: "fst k \<noteq> p \<Longrightarrow> kv_prefix p (kv_set k v s) = kv_prefix p s"
  by (induction s) (auto simp: kv_prefix_def)

lemma kv_prefix_clear [store_simps]:
  "kv_prefix q (kv_clear_prefix p s) = (if q = p then [] else kv_prefix q s)"
  by (induction s) (auto simp: kv_prefix_def kv_clear_prefix_def)

lemma kv_empty_iff: "t = [] \<longleftrightarrow> (\<forall>k. kv_get t k = None)"
  by (cases t) auto

lemma kv_prefix_empty_iff: "kv_prefix p s = [] \<longleftrightarrow> (\<forall>k. kv_get s (p, k) = None)"
  by (simp add: kv_empty_iff kv_get_prefix)

text \<open>Setting a key below the prefix is setting it in the prefix store.\<close>

lemma kv_prefix_set_same [store_simps]:
  fixes s :: "('p::linorder \<times> 'k::linorder, 'v) store"
  shows "kv_ok s \<Longrightarrow> kv_prefix p (kv_set (p, k) v s) = kv_set k v (kv_prefix p s)"
proof (induction s)
  case Nil
  then show ?case by (simp add: kv_prefix_def)
next
  case (Cons e s)
  obtain q k' w where e: "e = ((q, k'), w)" by (metis prod.collapse)
  from Cons.prems have ok: "kv_ok s" and lt: "\<forall>x \<in> fst ` set s. (q, k') < x"
    by (auto simp: kv_ok_Cons e)
  have IH: "kv_prefix p (kv_set (p, k) v s) = kv_set k v (kv_prefix p s)"
    by (rule Cons.IH [OF ok])
  have none: "kv_prefix p s = []" if "p < q"
  proof -
    have "fst (fst x) \<noteq> p" if "x \<in> set s" for x
      using lt \<open>p < q\<close> that by (cases "fst x") (force simp: less_prod_simp)
    then show ?thesis by (simp add: kv_prefix_def filter_empty_conv)
  qed
  consider "q < p" | "q = p" | "p < q" by force
  then show ?case
    using IH none by cases (auto simp: e kv_prefix_def)
qed

text \<open>A key above all others goes to the end.\<close>

lemma kv_set_above: "(\<And>e. e \<in> set s \<Longrightarrow> fst e < k) \<Longrightarrow> kv_set k v s = s @ [(k, v)]"
  by (induction s) auto

lemma kv_del_fold: "fold kv_del ks s = filter (\<lambda>e. fst e \<notin> set ks) s"
  by (induction ks arbitrary: s) (auto simp: kv_del_def intro: filter_cong)

lemma kv_last_Nil [simp]: "kv_last [] = None"
  by (simp add: kv_last_def kv_first_def)

lemma kv_last_snoc [simp]: "kv_last (s @ [e]) = Some e"
  by (simp add: kv_last_def kv_first_def)

lemma kv_last_None [simp]: "kv_last s = None \<longleftrightarrow> s = []"
  by (cases s rule: rev_cases) simp_all

lemma kv_last_Some: "kv_last s = Some e \<longleftrightarrow> s \<noteq> [] \<and> last s = e"
  by (cases s rule: rev_cases) auto

lemma kv_has_keys: "kv_ok st \<Longrightarrow> kv_has st k \<longleftrightarrow> k \<in> fst ` set st"
  using kv_get_iff [of st k] by (force simp: kv_has_def)

lemma kv_has_prefix: "kv_has (kv_prefix h st) k \<longleftrightarrow> kv_has st (h, k)"
  by (simp add: kv_has_def kv_get_prefix)

lemma kv_sum:
  fixes st :: "('k::linorder, 'v) store" and f :: "'k \<times> 'v \<Rightarrow> nat"
  assumes "kv_ok st"
  shows "(\<Sum>e\<leftarrow>st. f e) = (\<Sum>k \<in> {k. kv_has st k}. f (k, the (kv_get st k)))"
proof -
  have d: "distinct st" using kv_ok_distinct [OF assms] by (simp add: distinct_map)
  have inj: "inj_on fst (set st)" using kv_ok_distinct [OF assms] by (simp add: distinct_map)
  have get: "kv_get st (fst e) = Some (snd e)" if "e \<in> set st" for e
    using that kv_get_iff [OF assms, of "fst e" "snd e"] by simp
  have keys: "{k. kv_has st k} = fst ` set st"
    using kv_get_iff [OF assms] by (force simp: kv_has_def)
  have "(\<Sum>e\<leftarrow>st. f e) = (\<Sum>e \<in> set st. f e)" using d by (rule sum_list_distinct_conv_sum_set)
  also have "\<dots> = (\<Sum>e \<in> set st. f (fst e, the (kv_get st (fst e))))" by (intro sum.cong) (simp_all add: get)
  also have "\<dots> = (\<Sum>k \<in> {k. kv_has st k}. f (k, the (kv_get st k)))" unfolding keys by (simp add: sum.reindex [OF inj])
  finally show ?thesis .
qed

lemma kv_finite: "finite {k. kv_has st k}" if "kv_ok st" for st :: "('k::linorder, 'v) store"
proof -
  have "{k. kv_has st k} \<subseteq> fst ` set st" using kv_get_iff [OF that] by (force simp: kv_has_def)
  then show ?thesis by (rule finite_subset) simp
qed

lemma kv_ext: "kv_ok a \<Longrightarrow> kv_ok b \<Longrightarrow> (\<And>k. kv_get a k = kv_get b k) \<Longrightarrow> a = b"
proof -
  assume a: "kv_ok a" and b: "kv_ok b" and eq: "\<And>k. kv_get a k = kv_get b k"
  have "(k, v) \<in> set a \<longleftrightarrow> (k, v) \<in> set b" for k v
    using kv_get_iff [OF a, of k v] kv_get_iff [OF b, of k v] eq [of k] by simp
  then have set: "set a = set b" by (simp only: set_eq_iff split_paired_All) simp
  show "a = b"
    by (rule map_sorted_distinct_set_unique [of fst, OF _ _ _ _ _ set])
      (use a b kv_ok_distinct in \<open>auto simp: kv_ok_def strict_sorted_iff set distinct_map\<close>)
qed

lemma kv_set_same: "kv_ok st \<Longrightarrow> kv_get st k = Some v \<Longrightarrow> kv_set k v st = st"
  by (rule kv_ext) auto

lemma kv_set_twice [simp]: "kv_ok st \<Longrightarrow> kv_set k v (kv_set k w st) = kv_set k v st"
  by (rule kv_ext) auto

lemma length_kv_set: "length st \<le> length (kv_set k v st)"
  by (induction st) auto

lemma map_store_get: "kv_get (map (\<lambda>e. (fst e, f (snd e))) st) k = map_option f (kv_get st k)"
  by (induction st) auto

lemma map_store_set: "map (\<lambda>e. (fst e, f (snd e))) (kv_set k v st) = kv_set k (f v) (map (\<lambda>e. (fst e, f (snd e))) st)"
  by (induction st) auto

end
