(* ===== verification/GoLib.thy ===== *)
theory GoLib
  imports Stores "HOL-Library.Multiset"
begin

text \<open>
  The parts of Go's standard library the modelled code calls: \<open>sort.SliceStable\<close>, \<open>sort.Search\<close>
  and \<open>encoding/hex\<close>.
\<close>

section \<open>Stable sorting\<close>

text \<open>\<open>sort.SliceStable(xs, lt)\<close>: a stable sort by the strict order \<open>lt\<close>.\<close>

fun insert_by :: "('a \<Rightarrow> 'a \<Rightarrow> bool) \<Rightarrow> 'a \<Rightarrow> 'a list \<Rightarrow> 'a list" where
  "insert_by lt x [] = [x]"
| "insert_by lt x (y # ys) = (if lt y x then y # insert_by lt x ys else x # y # ys)"

definition slice_stable :: "('a \<Rightarrow> 'a \<Rightarrow> bool) \<Rightarrow> 'a list \<Rightarrow> 'a list" where
  "slice_stable lt xs = foldr (insert_by lt) xs []"

text \<open>What a comparison function has to satisfy for the result to be ordered.\<close>

locale strict_weak_order =
  fixes lt :: "'a \<Rightarrow> 'a \<Rightarrow> bool"
  assumes asym: "lt x y \<Longrightarrow> \<not> lt y x"
    and negtrans: "lt x z \<Longrightarrow> lt x y \<or> lt y z"
begin

abbreviation "ordered \<equiv> sorted_wrt (\<lambda>x y. \<not> lt y x)"

lemma insert_by_ordered: "ordered xs \<Longrightarrow> ordered (insert_by lt x xs)"
proof (induction xs)
  case Nil
  then show ?case by simp
next
  case (Cons y ys)
  have set_insert: "set (insert_by lt x ys) = insert x (set ys)"
    by (induction ys) auto
  show ?case
  proof (cases "lt y x")
    case True
    with Cons show ?thesis by (auto simp: set_insert dest: asym)
  next
    case False
    with Cons.prems have "\<forall>z \<in> set ys. \<not> lt z x"
      using negtrans by auto
    with False Cons.prems show ?thesis by auto
  qed
qed

lemma slice_stable_ordered: "ordered (slice_stable lt xs)"
  by (induction xs) (auto simp: slice_stable_def insert_by_ordered)

lemma insert_by_ordered_id: "ordered (x # xs) \<Longrightarrow> insert_by lt x xs = x # xs"
  by (cases xs) auto

lemma slice_stable_id: "ordered xs \<Longrightarrow> slice_stable lt xs = xs"
proof (induction xs)
  case Nil
  then show ?case by (simp add: slice_stable_def)
next
  case (Cons x xs)
  then have "slice_stable lt xs = xs" by simp
  with insert_by_ordered_id [OF Cons.prems] show ?case by (simp add: slice_stable_def)
qed

text \<open>Where \<open>lt\<close> decides between any two different elements, the ordered arrangement is unique:
  the result does not depend on the order in which the elements were collected.\<close>

lemma ordered_unique:
  assumes "ordered xs" and "ordered ys" and "mset xs = mset ys"
    and "\<And>x y. x \<in> set xs \<Longrightarrow> y \<in> set xs \<Longrightarrow> x \<noteq> y \<Longrightarrow> lt x y \<or> lt y x"
  shows "xs = ys"
  using assms
proof (induction xs arbitrary: ys)
  case Nil
  then show ?case by simp
next
  case (Cons x xs)
  then obtain y ys' where ys: "ys = y # ys'" by (cases ys) auto
  have sets: "set (x # xs) = set ys" using Cons.prems(3) by (metis set_mset_mset)
  have "x = y"
  proof (rule ccontr)
    assume "x \<noteq> y"
    with sets ys have "y \<in> set xs" and "x \<in> set ys'" by auto
    with Cons.prems(1,2) ys have "\<not> lt y x" and "\<not> lt x y" by auto
    with Cons.prems(4) [of x y] \<open>x \<noteq> y\<close> \<open>y \<in> set xs\<close> show False by simp
  qed
  moreover have "xs = ys'"
    by (rule Cons.IH) (use Cons.prems ys \<open>x = y\<close> in auto)
  ultimately show ?case by (simp add: ys)
qed

end

lemma mset_insert_by [simp]: "mset (insert_by lt x xs) = add_mset x (mset xs)"
  by (induction xs) auto

lemma mset_slice_stable [simp]: "mset (slice_stable lt xs) = mset xs"
  by (induction xs) (auto simp: slice_stable_def)

lemma set_slice_stable [simp]: "set (slice_stable lt xs) = set xs"
  by (metis mset_slice_stable set_mset_mset)

lemma length_slice_stable [simp]: "length (slice_stable lt xs) = length xs"
  by (metis mset_slice_stable size_mset)

lemma distinct_map_slice_stable [simp]:
  "distinct (map f (slice_stable lt xs)) = distinct (map f xs)"
  by (metis mset_slice_stable mset_map mset_eq_imp_distinct_iff)

text \<open>So a sort by an order that separates the elements is a function of the collection.\<close>

lemma slice_stable_collection:
  assumes "strict_weak_order lt" and "mset xs = mset ys"
    and "\<And>x y. x \<in> set xs \<Longrightarrow> y \<in> set xs \<Longrightarrow> x \<noteq> y \<Longrightarrow> lt x y \<or> lt y x"
  shows "slice_stable lt xs = slice_stable lt ys"
  by (rule strict_weak_order.ordered_unique [OF assms(1)])
    (use assms in \<open>simp_all add: strict_weak_order.slice_stable_ordered\<close>)

section \<open>Binary search\<close>

text \<open>\<open>sort.Search(n, f)\<close>, the loop of the library: the least index in \<open>[0, n)\<close> at which the
  monotone \<open>f\<close> holds, \<open>n\<close> if there is none.\<close>

function search_loop :: "(nat \<Rightarrow> bool) \<Rightarrow> nat \<Rightarrow> nat \<Rightarrow> nat" where
  "search_loop f i j =
     (if i < j then
        (let h = (i + j) div 2
         in if \<not> f h then search_loop f (h + 1) j else search_loop f i h)
      else i)"
  by pat_completeness auto
termination
  by (relation "measure (\<lambda>(f, i, j). j - i)") auto

declare search_loop.simps [simp del]

definition sort_search :: "nat \<Rightarrow> (nat \<Rightarrow> bool) \<Rightarrow> nat" where
  "sort_search n f = search_loop f 0 n"

definition mono_upto :: "nat \<Rightarrow> (nat \<Rightarrow> bool) \<Rightarrow> bool" where
  "mono_upto n f \<longleftrightarrow> (\<forall>a b. a \<le> b \<longrightarrow> b < n \<longrightarrow> f a \<longrightarrow> f b)"

definition splits_at :: "nat \<Rightarrow> (nat \<Rightarrow> bool) \<Rightarrow> nat \<Rightarrow> nat \<Rightarrow> bool" where
  "splits_at n f i j \<longleftrightarrow> (\<forall>k < i. \<not> f k) \<and> (\<forall>k. j \<le> k \<and> k < n \<longrightarrow> f k)"

lemma search_loop_correct:
  assumes "i \<le> j" and "j \<le> n" and "mono_upto n f" and "splits_at n f i j"
  shows "i \<le> search_loop f i j \<and> search_loop f i j \<le> j \<and>
    splits_at n f (search_loop f i j) (search_loop f i j)"
  using assms
proof (induction f i j rule: search_loop.induct)
  case (1 f i j)
  let ?h = "(i + j) div 2"
  consider (stop) "\<not> i < j" | (right) "i < j" "\<not> f ?h" | (left) "i < j" "f ?h" by blast
  then show ?case
  proof cases
    case stop
    then have "search_loop f i j = i" by (simp add: search_loop.simps [of f i j])
    moreover have "i = j" using stop "1.prems"(1) by simp
    ultimately show ?thesis using "1.prems" by simp
  next
    case right
    have h: "?h < n" using right(1) "1.prems"(2) by simp
    have "\<not> f k" if "k \<le> ?h" for k
      using that h right(2) "1.prems"(3) unfolding mono_upto_def by blast
    with "1.prems"(4) have "splits_at n f (?h + 1) j" by (simp add: splits_at_def less_Suc_eq_le)
    moreover have "?h + 1 \<le> j" and "i \<le> ?h + 1" using right(1) by auto
    ultimately have "i \<le> search_loop f (?h + 1) j \<and> search_loop f (?h + 1) j \<le> j \<and>
        splits_at n f (search_loop f (?h + 1) j) (search_loop f (?h + 1) j)"
      using "1.IH"(1) [OF right(1) refl right(2)] "1.prems" le_trans by blast
    moreover have "search_loop f i j = search_loop f (?h + 1) j"
      using right by (simp add: search_loop.simps [of f i j] Let_def)
    ultimately show ?thesis by simp
  next
    case left
    have "f k" if "?h \<le> k" "k < n" for k
      using that left(2) "1.prems"(3) unfolding mono_upto_def by blast
    with "1.prems"(4) have "splits_at n f i ?h" by (simp add: splits_at_def)
    moreover have "?h \<le> j" and "i \<le> ?h" and "?h \<le> n" using left(1) "1.prems"(2) by auto
    ultimately have "i \<le> search_loop f i ?h \<and> search_loop f i ?h \<le> j \<and>
        splits_at n f (search_loop f i ?h) (search_loop f i ?h)"
      using "1.IH"(2) [OF left(1) refl] "1.prems" left(2) le_trans by blast
    moreover have "search_loop f i j = search_loop f i ?h"
      using left by (simp add: search_loop.simps [of f i j] Let_def)
    ultimately show ?thesis by simp
  qed
qed

lemma sort_search_correct:
  assumes "mono_upto n f"
  shows "sort_search n f \<le> n" and "\<forall>k < sort_search n f. \<not> f k"
    and "sort_search n f < n \<Longrightarrow> f (sort_search n f)"
proof -
  have "splits_at n f 0 n" by (auto simp: splits_at_def)
  from search_loop_correct [OF _ order.refl assms this]
  have "sort_search n f \<le> n \<and> splits_at n f (sort_search n f) (sort_search n f)"
    by (simp add: sort_search_def)
  then show "sort_search n f \<le> n" and "\<forall>k < sort_search n f. \<not> f k"
    and "sort_search n f < n \<Longrightarrow> f (sort_search n f)"
    by (auto simp: splits_at_def)
qed

section \<open>Hexadecimal text\<close>

text \<open>\<open>hex.EncodeToString\<close> and \<open>hex.DecodeString\<close>.\<close>

definition hex_digits :: string where
  "hex_digits = ''0123456789abcdef''"

definition hex_char :: "nat \<Rightarrow> char" where
  "hex_char n = hex_digits ! n"

definition hex_encode :: "bytes \<Rightarrow> string" where
  "hex_encode bs = concat (map (\<lambda>b. [hex_char (unat b div 16), hex_char (unat b mod 16)]) bs)"

definition hex_value :: "char \<Rightarrow> nat option" where
  "hex_value c =
     (let n = (of_char c :: nat)
      in if 48 \<le> n \<and> n \<le> 57 then Some (n - 48)
         else if 97 \<le> n \<and> n \<le> 102 then Some (n - 87)
         else if 65 \<le> n \<and> n \<le> 70 then Some (n - 55)
         else None)"

fun hex_decode :: "string \<Rightarrow> bytes res" where
  "hex_decode [] = Inr []"
| "hex_decode [c] = Inl (Errorf ''encoding/hex: odd length hex string'')"
| "hex_decode (c # d # cs) =
     (case (hex_value c, hex_value d) of
        (Some a, Some b) \<Rightarrow> rbind (hex_decode cs) (\<lambda>bs. Inr (of_nat (16 * a + b) # bs))
      | _ \<Rightarrow> Inl (Errorf ''encoding/hex: invalid byte''))"

lemma hex_encode_simps [simp]:
  "hex_encode [] = []"
  "hex_encode (b # bs) = hex_char (unat b div 16) # hex_char (unat b mod 16) # hex_encode bs"
  by (simp_all add: hex_encode_def)

lemma less_16_cases: "n < 16 \<Longrightarrow> n \<in> {0, 1, 2, 3, 4, 5, 6, 7, 8, 9, 10, 11, 12, 13, 14, 15::nat}"
  unfolding insert_iff empty_iff by presburger

lemma hex_value_char: "n < 16 \<Longrightarrow> hex_value (hex_char n) = Some n"
  by (drule less_16_cases) (auto simp: hex_value_def hex_char_def hex_digits_def)

lemma hex_char_less: "m < 16 \<Longrightarrow> n < 16 \<Longrightarrow> hex_char m < hex_char n \<longleftrightarrow> m < n"
  by (drule less_16_cases, drule less_16_cases)
    (elim insertE emptyE; simp add: hex_char_def hex_digits_def less_char_def)

lemma hex_decode_encode [simp]: "hex_decode (hex_encode bs) = Inr bs"
proof (induction bs)
  case Nil
  then show ?case by simp
next
  case (Cons b bs)
  have "unat b < 256" using unsigned_less [of b] by simp
  then have "unat b div 16 < 16" and "unat b mod 16 < 16" by auto
  with Cons show ?case by (simp add: hex_value_char)
qed

lemma hex_encode_inj [simp]: "hex_encode a = hex_encode b \<longleftrightarrow> a = b"
  by (metis hex_decode_encode sum.inject(2))

end
