(* ===== verification/Keys.thy ===== *)
theory Keys
  imports GoLib
begin

text \<open>
  BIP-340 public keys (\<open>types/btc_schnorr_pk.go\<close>).

  A \<open>BIP340PubKey\<close> is a byte string; \<open>Unmarshal\<close> is the only way in from outside and admits
  exactly the 32-byte ones.  A nil \<open>*BIP340PubKey\<close> is the empty byte string.  Parsing to and
  serialising from curve points belongs to \<open>btcec\<close> and is a parameter.  The maps of the code are keyed by
  the hexadecimal text of a key; the lemmas show that this text is injective, orders like the
  key, and reads back.
\<close>

type_synonym BIP340PubKey = bytes

definition BIP340PubKeyLen :: nat where
  "BIP340PubKeyLen = 32"

definition BIP340PubKey_Unmarshal :: "bytes \<Rightarrow> BIP340PubKey res" where
  "BIP340PubKey_Unmarshal data =
     (if length data \<noteq> BIP340PubKeyLen
      then Inl (Errorf ''malformed data for BIP340 public key'')
      else Inr data)"

definition NewBIP340PubKey :: "bytes \<Rightarrow> BIP340PubKey res" where
  "NewBIP340PubKey data = BIP340PubKey_Unmarshal data"

definition MarshalHex :: "BIP340PubKey \<Rightarrow> string" where
  "MarshalHex pk = hex_encode pk"

definition UnmarshalHex :: "string \<Rightarrow> BIP340PubKey res" where
  "UnmarshalHex header = rbind (hex_decode header) BIP340PubKey_Unmarshal"

definition NewBIP340PubKeyFromHex :: "string \<Rightarrow> BIP340PubKey res" where
  "NewBIP340PubKeyFromHex hexStr = UnmarshalHex hexStr"

definition BIP340PubKey_Equals :: "BIP340PubKey \<Rightarrow> BIP340PubKey \<Rightarrow> bool" where
  "BIP340PubKey_Equals pk pk2 \<longleftrightarrow> pk = pk2"

text \<open>Conversions between lists of keys and lists of curve points; \<open>parse\<close> stands for
  \<open>schnorr.ParsePubKey\<close> and \<open>serialize\<close> for \<open>schnorr.SerializePubKey\<close>.\<close>

fun NewBTCPKsFromBIP340PKs :: "(bytes \<Rightarrow> 'pt res) \<Rightarrow> BIP340PubKey list \<Rightarrow> 'pt list res" where
  "NewBTCPKsFromBIP340PKs parse [] = Inr []"
| "NewBTCPKsFromBIP340PKs parse (pk # pks) =
     rbind (parse pk) (\<lambda>btcPK. rbind (NewBTCPKsFromBIP340PKs parse pks) (\<lambda>rest. Inr (btcPK # rest)))"

definition NewBIP340PKsFromBTCPKs :: "('pt \<Rightarrow> bytes) \<Rightarrow> 'pt list \<Rightarrow> BIP340PubKey list" where
  "NewBIP340PKsFromBTCPKs serialize btcPKs = map serialize btcPKs"

text \<open>\<open>bytes.Compare(a, b) == 1\<close>, the comparison of \<open>SortBIP340PKs\<close>, is \<open>b < a\<close> in the
  lexicographic order: the keys come out in reverse lexicographic order.\<close>

definition pk_gt :: "BIP340PubKey \<Rightarrow> BIP340PubKey \<Rightarrow> bool" where
  "pk_gt a b \<longleftrightarrow> b < a"

definition SortBIP340PKs :: "BIP340PubKey list \<Rightarrow> BIP340PubKey list" where
  "SortBIP340PKs keys = slice_stable pk_gt keys"

section \<open>Lemmas\<close>

lemma MarshalHex_inj [simp]: "MarshalHex a = MarshalHex b \<longleftrightarrow> a = b"
  by (simp add: MarshalHex_def)

lemma inj_MarshalHex: "inj MarshalHex"
  by (rule injI) simp

lemma hex_encode_less: "hex_encode a < hex_encode b \<longleftrightarrow> a < b"
proof (induction a arbitrary: b)
  case Nil
  show ?case by (cases b) simp_all
next
  case (Cons x xs)
  show ?case
  proof (cases b)
    case Nil
    then show ?thesis by simp
  next
    case b: (Cons y ys)
    have "unat z < 256" for z :: byte using unsigned_less [of z] by simp
    then have range: "unat z div 16 < 16" "unat z mod 16 < 16" for z :: byte
      by (simp_all add: less_mult_imp_div_less)
    have eq: "hex_char m = hex_char n \<longleftrightarrow> m = n" if "m < 16" "n < 16" for m n
      using hex_value_char [OF that(1)] hex_value_char [OF that(2)] by (metis option.inject)
    have split: "unat z = 16 * (unat z div 16) + unat z mod 16" for z :: byte by simp
    have lt: "x < y \<longleftrightarrow> unat x div 16 < unat y div 16 \<or>
        unat x div 16 = unat y div 16 \<and> unat x mod 16 < unat y mod 16"
      unfolding word_less_nat_alt using split [of x] split [of y] range [of x] range [of y]
      by linarith
    have "x = y \<longleftrightarrow> unat x div 16 = unat y div 16 \<and> unat x mod 16 = unat y mod 16"
      using split [of x] split [of y] by (metis word_unat_eq_iff)
    with lt range Cons show ?thesis
      by (auto simp: b hex_char_less eq)
  qed
qed

lemma MarshalHex_less [simp]: "MarshalHex a < MarshalHex b \<longleftrightarrow> a < b"
  by (simp add: MarshalHex_def hex_encode_less)

lemma UnmarshalHex_MarshalHex:
  "UnmarshalHex (MarshalHex pk) = BIP340PubKey_Unmarshal pk"
  by (simp add: UnmarshalHex_def MarshalHex_def)

text \<open>The reverse lexicographic order is one the stable sort can use.\<close>

interpretation pk_order: strict_weak_order pk_gt
  by unfold_locales (auto simp: pk_gt_def)

lemma SortBIP340PKs_sorted: "sorted_wrt (\<ge>) (SortBIP340PKs keys)"
  using pk_order.slice_stable_ordered [of keys]
  by (simp add: SortBIP340PKs_def pk_gt_def not_less)

lemma NewBTCPKs_length: "NewBTCPKsFromBIP340PKs parse pks = Inr ps \<Longrightarrow> length ps = length pks"
  by (induction pks arbitrary: ps) (auto simp: rbind_eq_Inr)

lemma NewBTCPKs_serialize:
  assumes "\<And>pk p. parse pk = Inr p \<Longrightarrow> serialize p = pk"
  shows "NewBTCPKsFromBIP340PKs parse pks = Inr ps \<Longrightarrow> NewBIP340PKsFromBTCPKs serialize ps = pks"
  using assms by (induction pks arbitrary: ps) (auto simp: rbind_eq_Inr NewBIP340PKsFromBTCPKs_def)

end
