(* ===== verification/BtcStaking_Types.thy ===== *)
theory BtcStaking_Types
  imports Keys
begin

text \<open>
  The data of the BTC staking module (\<open>x/btcstaking/types\<close>): finality providers and their
  commission, BTC delegations with their covenant signatures and status, power distribution
  events, and the versioned parameters.

  Third-party code the module calls (bech32, \<open>btcd\<close>) is collected in the record \<open>ext\<close>, which
  the operations take as an argument.  \<open>LegacyDec\<close> values are integers counting units of
  \<open>10 ^ -18\<close>, so their comparisons are those of the integers; the other operations on them are
  fields of \<open>ext\<close>.  A nil byte slice is the empty list.
\<close>

section \<open>Third-party functions and the block context\<close>

record ext =
  ext_AccAddressFromBech32 :: "string \<Rightarrow> bytes res"
  ext_AccAddressString :: "bytes \<Rightarrow> string"
  ext_ParsePubKey :: "bytes \<Rightarrow> unit res"
  ext_TxHash :: "bytes \<Rightarrow> bytes res"
  ext_NewHash :: "bytes \<Rightarrow> bytes res"
  ext_HashString :: "bytes \<Rightarrow> string"
  ext_NewHashFromStr :: "string \<Rightarrow> bytes res"
  ext_DecMul :: "int \<Rightarrow> int \<Rightarrow> int"
  ext_DecTruncateDec :: "int \<Rightarrow> int"
  ext_AmountMulDec :: "i64 \<Rightarrow> int \<Rightarrow> i64 res"
  ext_IsDust :: "i64 \<Rightarrow> bytes \<Rightarrow> bool"

text \<open>The parts of the block context and of the other keepers that the handlers read: the block
  header, the tip and base header of the BTC light client, the current epoch and the last epoch
  whose checkpoint is finalized on Bitcoin.\<close>

record BTCHeaderInfo =
  bhi_hash :: bytes
  bhi_height :: u32

record ctx =
  ctx_height :: i64
  ctx_time :: int
  ctx_app_hash :: bytes
  ctx_btc_tip :: "BTCHeaderInfo option"
  ctx_btc_base :: BTCHeaderInfo
  ctx_btc_confirmation_depth :: u32
  ctx_epoch :: u64
  ctx_last_finalized_epoch :: u64

section \<open>Finality providers\<close>

type_synonym dec = int

definition LegacyOneDec :: dec where
  "LegacyOneDec = 10 ^ 18"

record Description =
  d_moniker :: string
  d_identity :: string
  d_website :: string
  d_security_contact :: string
  d_details :: string

datatype BTCSigType = BIP340 | BIP322 | ECDSA

record ProofOfPossessionBTC =
  pop_sig_type :: BTCSigType
  pop_sig :: bytes

record CommissionInfo =
  ci_max_rate :: dec
  ci_max_change_rate :: dec
  ci_update_time :: int

record FinalityProvider =
  fp_addr :: string
  fp_description :: "Description option"
  fp_commission :: "dec option"
  fp_btc_pk :: BIP340PubKey
  fp_pop :: "ProofOfPossessionBTC option"
  fp_slashed_anon_height :: u64
  fp_slashed_btc_height :: u32
  fp_jailed :: bool
  fp_highest_voted_height :: u32
  fp_commission_info :: "CommissionInfo option"

definition FinalityProvider_IsSlashed :: "FinalityProvider \<Rightarrow> bool" where
  "FinalityProvider_IsSlashed fp \<longleftrightarrow> fp_slashed_anon_height fp > 0"

definition FinalityProvider_IsJailed :: "FinalityProvider \<Rightarrow> bool" where
  "FinalityProvider_IsJailed fp \<longleftrightarrow> fp_jailed fp"

definition NewCommissionInfoWithTime :: "dec \<Rightarrow> dec \<Rightarrow> int \<Rightarrow> CommissionInfo" where
  "NewCommissionInfoWithTime maxRate maxChangeRate updatedAt =
     \<lparr>ci_max_rate = maxRate, ci_max_change_rate = maxChangeRate, ci_update_time = updatedAt\<rparr>"

definition CommissionInfo_Validate :: "CommissionInfo \<Rightarrow> unit res" where
  "CommissionInfo_Validate cr =
     (if ci_max_rate cr < 0 then Inl ErrCommissionNegative
      else if ci_max_rate cr > LegacyOneDec then Inl ErrCommissionHuge
      else if ci_max_change_rate cr < 0 then Inl ErrCommissionChangeRateNegative
      else if ci_max_change_rate cr > ci_max_rate cr then Inl ErrCommissionChangeRateGTMaxRate
      else Inr ())"

text \<open>Commission rates of a registration message.  A \<open>LegacyDec\<close> that was never set holds a nil
  integer (\<open>None\<close>), on which every comparison panics.\<close>

record CommissionRates =
  cr_rate :: "dec option"
  cr_max_rate :: "dec option"
  cr_max_change_rate :: "dec option"

definition CommissionRates_Validate :: "CommissionRates \<Rightarrow> unit res" where
  "CommissionRates_Validate cr =
     (case (cr_rate cr, cr_max_rate cr, cr_max_change_rate cr) of
        (None, None, None) \<Rightarrow> Inl ErrEmptyCommissionRates
      | (rate, max_rate, change_rate) \<Rightarrow>
          (case max_rate of
             None \<Rightarrow> Inl (Panic ''nil pointer dereference'')
           | Some m \<Rightarrow>
               if m < 0 then Inl ErrCommissionNegative
               else if m > LegacyOneDec then Inl ErrCommissionHuge
               else (case rate of
                       None \<Rightarrow> Inl (Panic ''nil pointer dereference'')
                     | Some r \<Rightarrow>
                         if r < 0 then Inl ErrCommissionNegative
                         else if r > m then Inl ErrCommissionGTMaxRate
                         else (case change_rate of
                                 None \<Rightarrow> Inl (Panic ''nil pointer dereference'')
                               | Some c \<Rightarrow>
                                   if c < 0 then Inl ErrCommissionChangeRateNegative
                                   else if c > m then Inl ErrCommissionChangeRateGTMaxRate
                                   else Inr ()))))"

text \<open>\<open>ExistsDup\<close> walks the keys with the set of those seen, and fails at a key that does not
  parse.\<close>

fun ExistsDup_loop :: "ext \<Rightarrow> BIP340PubKey set \<Rightarrow> BIP340PubKey list \<Rightarrow> bool res" where
  "ExistsDup_loop X seen [] = Inr False"
| "ExistsDup_loop X seen (pk # pks) =
     (case ext_ParsePubKey X pk of
        Inl e \<Rightarrow> Inl e
      | Inr _ \<Rightarrow> if pk \<in> seen then Inr True else ExistsDup_loop X (insert pk seen) pks)"

definition ExistsDup :: "ext \<Rightarrow> BIP340PubKey list \<Rightarrow> bool res" where
  "ExistsDup X btcPKs = ExistsDup_loop X {} btcPKs"

section \<open>BTC delegations\<close>

datatype BTCDelegationStatus = PENDING | VERIFIED | ACTIVE | UNBONDED | EXPIRED | ANY

record SignatureInfo =
  si_pk :: BIP340PubKey
  si_sig :: bytes

record CovenantAdaptorSignatures =
  cas_cov_pk :: BIP340PubKey
  cas_adaptor_sigs :: "bytes list"

record StakeExpansion =
  se_previous_staking_tx_hash :: bytes
  se_other_funding_tx_out :: bytes
  se_previous_stk_covenant_sigs :: "SignatureInfo list"

record BTCUndelegation =
  ud_unbonding_tx :: bytes
  ud_slashing_tx :: bytes
  ud_delegator_slashing_sig :: bytes
  ud_covenant_slashing_sigs :: "CovenantAdaptorSignatures list"
  ud_covenant_unbonding_sig_list :: "SignatureInfo list"
  ud_delegator_unbonding_info :: "bytes option"

record BTCDelegation =
  bd_staker_addr :: string
  bd_btc_pk :: BIP340PubKey
  bd_pop :: "ProofOfPossessionBTC option"
  bd_fp_btc_pk_list :: "BIP340PubKey list"
  bd_staking_time :: u32
  bd_start_height :: u32
  bd_end_height :: u32
  bd_total_sat :: u64
  bd_staking_tx :: bytes
  bd_staking_output_idx :: u32
  bd_slashing_tx :: bytes
  bd_delegator_sig :: bytes
  bd_covenant_sigs :: "CovenantAdaptorSignatures list"
  bd_unbonding_time :: u32
  bd_btc_undelegation :: BTCUndelegation
  bd_params_version :: u32
  bd_btc_tip_height :: u32
  bd_stk_exp :: "StakeExpansion option"

definition HasInclusionProof :: "BTCDelegation \<Rightarrow> bool" where
  "HasInclusionProof d \<longleftrightarrow> bd_start_height d > 0 \<and> bd_end_height d > 0"

text \<open>The index of a key in the list of finality providers, \<open>-1\<close> when it is not there.\<close>

fun fp_idx_from :: "int \<Rightarrow> BIP340PubKey \<Rightarrow> BIP340PubKey list \<Rightarrow> int" where
  "fp_idx_from i pk [] = -1"
| "fp_idx_from i pk (p # ps) = (if BIP340PubKey_Equals p pk then i else fp_idx_from (i + 1) pk ps)"

definition GetFpIdx :: "BTCDelegation \<Rightarrow> BIP340PubKey \<Rightarrow> int" where
  "GetFpIdx d fpBTCPK = fp_idx_from 0 fpBTCPK (bd_fp_btc_pk_list d)"

definition findFPIdx :: "BTCDelegation \<Rightarrow> BIP340PubKey \<Rightarrow> int res" where
  "findFPIdx d fpBTCPK =
     (let i = fp_idx_from 0 fpBTCPK (bd_fp_btc_pk_list d)
      in if i < 0 then Inl (Errorf ''the given finality provider's PK is not found in the BTC delegation'')
         else Inr i)"

definition IsUnbondedEarly :: "BTCDelegation \<Rightarrow> bool" where
  "IsUnbondedEarly d \<longleftrightarrow> ud_delegator_unbonding_info (bd_btc_undelegation d) \<noteq> None"

definition FinalityProviderKeys :: "BTCDelegation \<Rightarrow> string list" where
  "FinalityProviderKeys d = map MarshalHex (bd_fp_btc_pk_list d)"

definition IsStakeExpansion :: "BTCDelegation \<Rightarrow> bool" where
  "IsStakeExpansion d \<longleftrightarrow> bd_stk_exp d \<noteq> None"

text \<open>Quorums.  \<open>len(xs) >= int(q)\<close> with a \<open>uint32\<close> \<open>q\<close> does not overflow.\<close>

definition HasCovenantQuorumOnSlashing :: "BTCUndelegation \<Rightarrow> u32 \<Rightarrow> bool" where
  "HasCovenantQuorumOnSlashing ud quorum \<longleftrightarrow> length (ud_covenant_slashing_sigs ud) \<ge> unat quorum"

definition HasCovenantQuorumOnUnbonding :: "BTCUndelegation \<Rightarrow> u32 \<Rightarrow> bool" where
  "HasCovenantQuorumOnUnbonding ud quorum \<longleftrightarrow>
     length (ud_covenant_unbonding_sig_list ud) \<ge> unat quorum"

definition BTCUndelegation_HasCovenantQuorums :: "BTCUndelegation \<Rightarrow> u32 \<Rightarrow> bool" where
  "BTCUndelegation_HasCovenantQuorums ud quorum \<longleftrightarrow>
     HasCovenantQuorumOnUnbonding ud quorum \<and> HasCovenantQuorumOnSlashing ud quorum"

definition StakeExpansion_HasCovenantQuorums :: "StakeExpansion \<Rightarrow> u32 \<Rightarrow> bool" where
  "StakeExpansion_HasCovenantQuorums s quorumPreviousStk \<longleftrightarrow>
     length (se_previous_stk_covenant_sigs s) \<ge> unat quorumPreviousStk"

definition HasCovenantQuorums :: "BTCDelegation \<Rightarrow> u32 \<Rightarrow> u32 \<Rightarrow> bool" where
  "HasCovenantQuorums d quorum quorumPreviousStk =
     (let hasQuorum = length (bd_covenant_sigs d) \<ge> unat quorum \<and>
            BTCUndelegation_HasCovenantQuorums (bd_btc_undelegation d) quorum
      in case bd_stk_exp d of
           None \<Rightarrow> hasQuorum
         | Some s \<Rightarrow> hasQuorum \<and> StakeExpansion_HasCovenantQuorums s quorumPreviousStk)"

definition IsSignedByCovMemberOnUnbonding :: "BTCUndelegation \<Rightarrow> BIP340PubKey \<Rightarrow> bool" where
  "IsSignedByCovMemberOnUnbonding ud covPK \<longleftrightarrow>
     list_ex (\<lambda>si. BIP340PubKey_Equals (si_pk si) covPK) (ud_covenant_unbonding_sig_list ud)"

definition IsSignedByCovMemberOnSlashing :: "BTCUndelegation \<Rightarrow> BIP340PubKey \<Rightarrow> bool" where
  "IsSignedByCovMemberOnSlashing ud covPK \<longleftrightarrow>
     list_ex (\<lambda>cs. BIP340PubKey_Equals (cas_cov_pk cs) covPK) (ud_covenant_slashing_sigs ud)"

definition BTCUndelegation_IsSignedByCovMember :: "BTCUndelegation \<Rightarrow> BIP340PubKey \<Rightarrow> bool" where
  "BTCUndelegation_IsSignedByCovMember ud covPk \<longleftrightarrow>
     IsSignedByCovMemberOnUnbonding ud covPk \<and> IsSignedByCovMemberOnSlashing ud covPk"

definition StakeExpansion_IsSignedByCovMember :: "StakeExpansion \<Rightarrow> BIP340PubKey \<Rightarrow> bool" where
  "StakeExpansion_IsSignedByCovMember s covPk \<longleftrightarrow>
     list_ex (\<lambda>si. BIP340PubKey_Equals covPk (si_pk si)) (se_previous_stk_covenant_sigs s)"

definition IsSignedByCovMember :: "BTCDelegation \<Rightarrow> BIP340PubKey \<Rightarrow> bool" where
  "IsSignedByCovMember d covPk \<longleftrightarrow>
     list_ex (\<lambda>cs. BIP340PubKey_Equals covPk (cas_cov_pk cs)) (bd_covenant_sigs d)"

text \<open>Adding the signatures of one covenant member.  The adaptor signatures come in marshalled
  form.\<close>

definition BTCUndelegation_addCovenantSigs ::
  "BIP340PubKey \<Rightarrow> bytes \<Rightarrow> bytes list \<Rightarrow> BTCUndelegation \<Rightarrow> BTCUndelegation" where
  "BTCUndelegation_addCovenantSigs covPk unbondingSig slashingSigs ud =
     ud\<lparr>ud_covenant_unbonding_sig_list :=
          ud_covenant_unbonding_sig_list ud @ [\<lparr>si_pk = covPk, si_sig = unbondingSig\<rparr>],
        ud_covenant_slashing_sigs :=
          ud_covenant_slashing_sigs ud @ [\<lparr>cas_cov_pk = covPk, cas_adaptor_sigs = slashingSigs\<rparr>]\<rparr>"

definition StakeExpansion_AddCovenantSigs ::
  "BIP340PubKey \<Rightarrow> bytes \<Rightarrow> StakeExpansion \<Rightarrow> StakeExpansion" where
  "StakeExpansion_AddCovenantSigs covPk stkExpSig s =
     s\<lparr>se_previous_stk_covenant_sigs :=
         se_previous_stk_covenant_sigs s @ [\<lparr>si_pk = covPk, si_sig = stkExpSig\<rparr>]\<rparr>"

definition AddCovenantSigs ::
  "BIP340PubKey \<Rightarrow> bytes list \<Rightarrow> bytes \<Rightarrow> bytes list \<Rightarrow> bytes \<Rightarrow> BTCDelegation \<Rightarrow> BTCDelegation"
where
  "AddCovenantSigs covPk stakingSlashingSigs unbondingSig unbondingSlashingSigs stkExpSig d =
     d\<lparr>bd_covenant_sigs :=
         bd_covenant_sigs d @ [\<lparr>cas_cov_pk = covPk, cas_adaptor_sigs = stakingSlashingSigs\<rparr>],
       bd_btc_undelegation :=
         BTCUndelegation_addCovenantSigs covPk unbondingSig unbondingSlashingSigs
           (bd_btc_undelegation d),
       bd_stk_exp := map_option (StakeExpansion_AddCovenantSigs covPk stkExpSig) (bd_stk_exp d)\<rparr>"

text \<open>The status of a delegation; \<open>btcHeight + UnbondingTime\<close> wraps at 32 bits.\<close>

definition GetStatus :: "BTCDelegation \<Rightarrow> u32 \<Rightarrow> u32 \<Rightarrow> u32 \<Rightarrow> BTCDelegationStatus" where
  "GetStatus d btcHeight covenantQuorum quorumPreviousStk =
     (if IsUnbondedEarly d then UNBONDED
      else if \<not> HasCovenantQuorums d covenantQuorum quorumPreviousStk then PENDING
      else if \<not> HasInclusionProof d then VERIFIED
      else if btcHeight < bd_start_height d then UNBONDED
      else if btcHeight + bd_unbonding_time d \<ge> bd_end_height d then EXPIRED
      else ACTIVE)"

definition VotingPower :: "BTCDelegation \<Rightarrow> u32 \<Rightarrow> u32 \<Rightarrow> u32 \<Rightarrow> u64" where
  "VotingPower d btcHeight covenantQuorum quorumPreviousStk =
     (if GetStatus d btcHeight covenantQuorum quorumPreviousStk \<noteq> ACTIVE then 0
      else bd_total_sat d)"

definition StakeExpansionTxHash :: "ext \<Rightarrow> StakeExpansion \<Rightarrow> bytes res" where
  "StakeExpansionTxHash X s = ext_NewHash X (se_previous_staking_tx_hash s)"

definition MustGetStakeExpansionTxHash :: "ext \<Rightarrow> BTCDelegation \<Rightarrow> bytes res" where
  "MustGetStakeExpansionTxHash X d =
     (case bd_stk_exp d of
        None \<Rightarrow> Inl (Panic ''failed to parse as chain hash'')
      | Some s \<Rightarrow> (case StakeExpansionTxHash X s of
                    Inl _ \<Rightarrow> Inl (Panic ''failed to parse as chain hash'')
                  | Inr h \<Rightarrow> Inr h))"

definition GetStakingTxHash :: "ext \<Rightarrow> BTCDelegation \<Rightarrow> bytes res" where
  "GetStakingTxHash X d = ext_TxHash X (bd_staking_tx d)"

definition MustGetStakingTxHash :: "ext \<Rightarrow> BTCDelegation \<Rightarrow> bytes res" where
  "MustGetStakingTxHash X d =
     (case GetStakingTxHash X d of Inl _ \<Rightarrow> Inl (Panic ''staking tx'') | Inr h \<Rightarrow> Inr h)"

definition SignatureInfo_Validate :: "SignatureInfo \<Rightarrow> unit res" where
  "SignatureInfo_Validate si =
     (if si_pk si = [] then Inl (Errorf ''public key is nil'')
      else if length (si_pk si) \<noteq> 32 then Inl (Errorf ''public key is invalid'')
      else if si_sig si = [] then Inl (Errorf ''signature is nil'')
      else if length (si_sig si) \<noteq> 64 then Inl (Errorf ''signature is invalid'')
      else Inr ())"

text \<open>The index of a delegator's staking transactions under one finality provider.\<close>

type_synonym BTCDelegatorDelegationIndex = "bytes list"

definition NewBTCDelegatorDelegationIndex :: BTCDelegatorDelegationIndex where
  "NewBTCDelegatorDelegationIndex = []"

definition DelegationIndex_Has :: "BTCDelegatorDelegationIndex \<Rightarrow> bytes \<Rightarrow> bool" where
  "DelegationIndex_Has i stakingTxHash \<longleftrightarrow> list_ex (\<lambda>h. stakingTxHash = h) i"

definition DelegationIndex_Add ::
  "BTCDelegatorDelegationIndex \<Rightarrow> bytes \<Rightarrow> BTCDelegatorDelegationIndex res" where
  "DelegationIndex_Add i stakingTxHash =
     (if list_ex (\<lambda>h. stakingTxHash = h) i
      then Inl (Errorf ''the given stakingTxHash is duplicated'')
      else Inr (i @ [stakingTxHash]))"

section \<open>Power distribution events\<close>

text \<open>The events the module queues for the finality module.  A delegation is named by the text of
  its staking transaction hash.\<close>

datatype EventPowerDistUpdate =
    SlashedFp BIP340PubKey
  | JailedFp BIP340PubKey
  | UnjailedFp BIP340PubKey
  | BtcDelStateUpdate string BTCDelegationStatus

section \<open>Parameters\<close>

record Params =
  p_covenant_pks :: "BIP340PubKey list"
  p_covenant_quorum :: u32
  p_min_staking_value_sat :: i64
  p_max_staking_value_sat :: i64
  p_min_staking_time_blocks :: u32
  p_max_staking_time_blocks :: u32
  p_slashing_pk_script :: bytes
  p_min_slashing_tx_fee_sat :: i64
  p_slashing_rate :: dec
  p_unbonding_time_blocks :: u32
  p_unbonding_fee_sat :: i64
  p_min_commission_rate :: "dec option"
  p_delegation_creation_base_gas_fee :: u64
  p_allow_list_expiration_height :: u64
  p_btc_activation_height :: u32

end
