(* ===== verification/BtcStaking_Params.thy ===== *)
theory BtcStaking_Params
  imports BtcStaking_Types
begin

text \<open>
  Validation of the BTC staking parameters and the map from BTC heights to parameter versions
  (\<open>x/btcstaking/types/params.go\<close>).

  \<open>htv_ok\<close> is the invariant the comments of \<open>AddPair\<close> promise: start heights strictly ascend and
  the versions count up from 0.  \<open>AddPair\<close> keeps it, and under it the binary search of
  \<open>GetVersionForHeight\<close> finds the version in force at a height.
\<close>

section \<open>Validation\<close>

definition MaxUint16_u32 :: u32 where
  "MaxUint16_u32 = 65535"

definition validateMinSlashingTxFeeSat :: "i64 \<Rightarrow> unit res" where
  "validateMinSlashingTxFeeSat fee =
     (if fee \<le> 0 then Inl (Errorf ''minimum slashing tx fee has to be positive'') else Inr ())"

definition validateMinCommissionRate :: "dec option \<Rightarrow> unit res" where
  "validateMinCommissionRate rate =
     (case rate of
        None \<Rightarrow> Inl (Errorf ''minimum commission rate cannot be nil'')
      | Some r \<Rightarrow>
          if r < 0 then Inl (Errorf ''minimum commission rate cannot be negative'')
          else if r > LegacyOneDec
            then Inl (Errorf ''minimum commission rate cannot be greater than 100%'')
          else Inr ())"

definition validateCovenantPks :: "ext \<Rightarrow> BIP340PubKey list \<Rightarrow> unit res" where
  "validateCovenantPks X covenantPks =
     rbind (ExistsDup X covenantPks) (\<lambda>duplicate.
       if duplicate then Inl (Errorf ''duplicate covenant key'') else Inr ())"

definition validateUnbondingTime :: "u32 \<Rightarrow> unit res" where
  "validateUnbondingTime unbondingTimeBlocks =
     (if unbondingTimeBlocks > MaxUint16_u32
      then Inl (Errorf ''minimum unbonding time blocks too large'') else Inr ())"

definition validateStakingAmout :: "i64 \<Rightarrow> i64 \<Rightarrow> unit res" where
  "validateStakingAmout minStakingAmt maxStakingAmt =
     (if minStakingAmt \<le> 0 then Inl (Errorf ''minimum staking amount has to be positive'')
      else if maxStakingAmt \<le> 0 then Inl (Errorf ''maximum staking amount has to be positive'')
      else if minStakingAmt > maxStakingAmt
        then Inl (Errorf ''minimum staking amount cannot be greater than maximum staking amount'')
      else Inr ())"

definition validateStakingTime :: "u32 \<Rightarrow> u32 \<Rightarrow> unit res" where
  "validateStakingTime minStakingTime maxStakingTime =
     (if minStakingTime = 0 then Inl (Errorf ''minimum staking time has to be positive'')
      else if minStakingTime > MaxUint16_u32 then Inl (Errorf ''minimum staking time too large'')
      else if maxStakingTime = 0 then Inl (Errorf ''maximum staking time has to be positive'')
      else if maxStakingTime > MaxUint16_u32 then Inl (Errorf ''maximum staking time too large'')
      else if minStakingTime > maxStakingTime
        then Inl (Errorf ''minimum staking time cannot be greater than maximum staking time'')
      else Inr ())"

definition IsSlashingRateValid :: "ext \<Rightarrow> dec \<Rightarrow> bool" where
  "IsSlashingRateValid X rate =
     (if rate \<le> 0 \<or> rate \<ge> LegacyOneDec then False
      else let multipliedRate = ext_DecMul X rate (10000 * LegacyOneDec)
           in multipliedRate = ext_DecTruncateDec X multipliedRate)"

text \<open>\<open>OP_RETURN\<close> is 0x6a.  \<open>ext_AmountMulDec\<close> is the conversion of the rate to a float followed
  by \<open>Amount.MulF64\<close>.\<close>

definition validateNoDustSlashingOutput :: "ext \<Rightarrow> Params \<Rightarrow> unit res" where
  "validateNoDustSlashingOutput X p =
     (if p_slashing_pk_script p \<noteq> [] \<and> hd (p_slashing_pk_script p) = 0x6a then Inr ()
      else rbind (ext_AmountMulDec X (wrap64 (p_min_staking_value_sat p - p_unbonding_fee_sat p))
                    (p_slashing_rate p)) (\<lambda>minSlashingAmount.
             if ext_IsDust X minSlashingAmount (p_slashing_pk_script p)
             then Inl (Errorf ''Minimum slashing output is dust'') else Inr ()))"

definition Params_Validate :: "ext \<Rightarrow> Params \<Rightarrow> unit res" where
  "Params_Validate X p =
     (if p_covenant_quorum p = 0 then Inl (Errorf ''covenant quorum size has to be positive'')
      else if unat (p_covenant_quorum p) * 2 \<le> length (p_covenant_pks p)
        then Inl (Errorf ''covenant quorum size has to be more than 1/2'')
      else
        rbind (validateStakingAmout (p_min_staking_value_sat p) (p_max_staking_value_sat p)) (\<lambda>_.
        rbind (validateStakingTime (p_min_staking_time_blocks p) (p_max_staking_time_blocks p)) (\<lambda>_.
        rbind (validateCovenantPks X (p_covenant_pks p)) (\<lambda>_.
        rbind (validateMinSlashingTxFeeSat (p_min_slashing_tx_fee_sat p)) (\<lambda>_.
        rbind (validateMinCommissionRate (p_min_commission_rate p)) (\<lambda>_.
        if \<not> IsSlashingRateValid X (p_slashing_rate p) then Inl (Errorf ''invalid slashing rate'')
        else if p_unbonding_fee_sat p \<le> 0 \<or> p_unbonding_fee_sat p \<ge> p_min_staking_value_sat p
          then Inl (Errorf ''invalid unbonding fee'')
        else
          rbind (validateNoDustSlashingOutput X p) (\<lambda>_.
          validateUnbondingTime (p_unbonding_time_blocks p))))))))"

definition HasCovenantPK :: "Params \<Rightarrow> BIP340PubKey \<Rightarrow> bool" where
  "HasCovenantPK p pk \<longleftrightarrow> list_ex (\<lambda>pk2. BIP340PubKey_Equals pk2 pk) (p_covenant_pks p)"

section \<open>From BTC heights to parameter versions\<close>

record HeightVersionPair =
  hv_start_height :: u64
  hv_version :: u32

type_synonym HeightToVersionMap = "HeightVersionPair list"

definition NewHeightVersionPair :: "u64 \<Rightarrow> u32 \<Rightarrow> HeightVersionPair" where
  "NewHeightVersionPair startHeight version =
     \<lparr>hv_start_height = startHeight, hv_version = version\<rparr>"

definition AddPair :: "HeightToVersionMap \<Rightarrow> HeightVersionPair \<Rightarrow> HeightToVersionMap res" where
  "AddPair m newPair =
     (if m = [] \<and> hv_version newPair \<noteq> 0
        then Inl (Errorf ''version must be 0 for the first pair'')
      else if m = [] \<and> hv_version newPair = 0 then Inr (m @ [newPair])
      else let lastPair = last m
           in if hv_start_height newPair \<le> hv_start_height lastPair
                then Inl (Errorf ''pairs must be sorted by start height in ascending order'')
              else if hv_version newPair \<noteq> hv_version lastPair + 1
                then Inl (Errorf ''versions must be strictly increasing'')
              else Inr (m @ [newPair]))"

definition AddNewPair :: "HeightToVersionMap \<Rightarrow> u64 \<Rightarrow> u32 \<Rightarrow> HeightToVersionMap res" where
  "AddNewPair m startHeight version = AddPair m (NewHeightVersionPair startHeight version)"

definition NewHeightToVersionMapFromPairs :: "HeightVersionPair list \<Rightarrow> HeightToVersionMap res" where
  "NewHeightToVersionMapFromPairs pairs =
     (if pairs = [] then Inl (Errorf ''can't construct HeightToVersionMap from empty list'')
      else rfold (\<lambda>pair m. AddPair m pair) pairs [])"

definition GetVersionForHeight :: "HeightToVersionMap \<Rightarrow> u64 \<Rightarrow> u32 res" where
  "GetVersionForHeight m height =
     (if m = [] then Inl (Errorf ''height to version map is empty'')
      else let idx = int (sort_search (length m) (\<lambda>i. hv_start_height (m ! i) > height)) - 1
           in if idx < 0 then Inl (Errorf ''no parameters found for block height'')
              else Inr (hv_version (m ! nat idx)))"

text \<open>\<open>Validate\<close> compares each pair with its predecessor; the version of the first pair is looked
  at only when it is the only one.\<close>

fun htv_chain :: "HeightToVersionMap \<Rightarrow> unit res" where
  "htv_chain (p # q # ps) =
     (if hv_start_height q \<le> hv_start_height p
        then Inl (Errorf ''pairs must be sorted by start height in ascending order'')
      else if hv_version q \<noteq> hv_version p + 1
        then Inl (Errorf ''versions must be strictly increasing'')
      else htv_chain (q # ps))"
| "htv_chain _ = Inr ()"

definition HeightToVersionMap_Validate :: "HeightToVersionMap \<Rightarrow> unit res" where
  "HeightToVersionMap_Validate m =
     (case m of
        [] \<Rightarrow> Inl (Errorf ''height to version map is empty'')
      | [p] \<Rightarrow> if hv_version p \<noteq> 0 then Inl (Errorf ''version must be 0 for the first pair'') else Inr ()
      | _ \<Rightarrow> htv_chain m)"

section \<open>Lemmas\<close>

lemma ExistsDup_loop_all_parse:
  assumes "\<And>pk. pk \<in> set pks \<Longrightarrow> ext_ParsePubKey X pk = Inr ()"
  shows "ExistsDup_loop X seen pks = Inr (\<not> (distinct pks \<and> set pks \<inter> seen = {}))"
  using assms by (induction pks arbitrary: seen) auto

lemma ExistsDup_loop_False:
  "ExistsDup_loop X seen pks = Inr False \<Longrightarrow> distinct pks \<and> set pks \<inter> seen = {}"
  by (induction pks arbitrary: seen) (auto split: sum.splits if_splits)

lemma ExistsDup_False: "ExistsDup X pks = Inr False \<Longrightarrow> distinct pks"
  using ExistsDup_loop_False by (fastforce simp: ExistsDup_def)

lemma Params_Validate_committee:
  assumes "Params_Validate X p = Inr ()"
  shows "0 < unat (p_covenant_quorum p)"
    and "length (p_covenant_pks p) < 2 * unat (p_covenant_quorum p)"
    and "distinct (p_covenant_pks p)"
proof -
  from assms show "0 < unat (p_covenant_quorum p)"
    by (auto simp: Params_Validate_def unat_gt_0 split: if_splits)
  from assms show "length (p_covenant_pks p) < 2 * unat (p_covenant_quorum p)"
    by (auto simp: Params_Validate_def split: if_splits)
  from assms have "validateCovenantPks X (p_covenant_pks p) = Inr ()"
    by (auto simp: Params_Validate_def rbind_eq_Inr split: if_splits)
  then show "distinct (p_covenant_pks p)"
    by (auto simp: validateCovenantPks_def rbind_eq_Inr ExistsDup_False split: if_splits)
qed

text \<open>Two sets that each hold more than half of a committee share a member.\<close>

lemma majorities_intersect:
  assumes "finite C" and "A \<subseteq> C" and "B \<subseteq> C" and "card C < card A + card B"
  shows "A \<inter> B \<noteq> {}"
proof
  assume "A \<inter> B = {}"
  moreover have "finite A" and "finite B" using assms finite_subset by auto
  ultimately have "card (A \<union> B) = card A + card B" by (simp add: card_Un_disjoint)
  moreover have "card (A \<union> B) \<le> card C" using assms by (simp add: card_mono)
  ultimately show False using assms(4) by simp
qed

subsection \<open>The invariant of the height-to-version map\<close>

definition htv_ok :: "HeightToVersionMap \<Rightarrow> bool" where
  "htv_ok m \<longleftrightarrow> sorted_wrt (<) (map hv_start_height m) \<and>
     (\<forall>i < length m. hv_version (m ! i) = of_nat i)"

lemma htv_ok_Nil [simp]: "htv_ok []"
  by (simp add: htv_ok_def)

lemma sorted_wrt_snoc_last:
  fixes xs :: "'a::order list"
  assumes "sorted_wrt (<) xs" and "xs \<noteq> []" and "last xs < x"
  shows "sorted_wrt (<) (xs @ [x])"
proof -
  have "y \<le> last xs" if "y \<in> set xs" for y
    using assms(1,2) that
    by (induction xs) (auto split: if_splits intro: less_imp_le)
  with assms show ?thesis by (auto simp: sorted_wrt_append intro: le_less_trans)
qed

lemma AddPair_ok:
  assumes "htv_ok m" and "AddPair m p = Inr m'"
  shows "htv_ok m'"
proof (cases "m = []")
  case True
  with assms(2) show ?thesis by (auto simp: AddPair_def htv_ok_def split: if_splits)
next
  case False
  with assms(2) have m': "m' = m @ [p]"
    and height: "hv_start_height (last m) < hv_start_height p"
    and version: "hv_version p = hv_version (last m) + 1"
    by (auto simp: AddPair_def Let_def split: if_splits)
  have "sorted_wrt (<) (map hv_start_height m @ [hv_start_height p])"
    by (rule sorted_wrt_snoc_last)
      (use assms(1) False height in \<open>simp_all add: htv_ok_def last_map\<close>)
  moreover have "hv_version p = of_nat (length m)"
    using assms(1) False version by (cases m rule: rev_cases) (auto simp: htv_ok_def nth_append)
  ultimately show ?thesis
    using assms(1) by (auto simp: m' htv_ok_def nth_append less_Suc_eq)
qed

lemma NewHeightToVersionMapFromPairs_ok:
  assumes "NewHeightToVersionMapFromPairs pairs = Inr m"
  shows "htv_ok m"
proof -
  from assms have "rfold (\<lambda>pair m. AddPair m pair) pairs [] = Inr m"
    by (auto simp: NewHeightToVersionMapFromPairs_def split: if_splits)
  then show ?thesis by (rule rfold_invariant) (auto intro: AddPair_ok)
qed

lemma AddPairs_append: "rfold (\<lambda>pair m. AddPair m pair) pairs m0 = Inr m \<Longrightarrow> m = m0 @ pairs"
proof (induction pairs arbitrary: m0)
  case Nil
  then show ?case by simp
next
  case (Cons p ps)
  then obtain m1 where "AddPair m0 p = Inr m1" "rfold (\<lambda>pair m. AddPair m pair) ps m1 = Inr m"
    by (auto simp: rbind_eq_Inr)
  moreover from this(1) have "m1 = m0 @ [p]" by (auto simp: AddPair_def Let_def split: if_splits)
  ultimately show ?case using Cons.IH by fastforce
qed

lemma NewHeightToVersionMapFromPairs_pairs:
  "NewHeightToVersionMapFromPairs pairs = Inr m \<Longrightarrow> m = pairs \<and> m \<noteq> []"
  by (auto simp: NewHeightToVersionMapFromPairs_def dest: AddPairs_append split: if_splits)

lemma htv_ok_heights:
  "htv_ok m \<Longrightarrow> i < j \<Longrightarrow> j < length m \<Longrightarrow> hv_start_height (m ! i) < hv_start_height (m ! j)"
  by (auto simp: htv_ok_def sorted_wrt_iff_nth_less)

lemma htv_mono:
  assumes "htv_ok m"
  shows "mono_upto (length m) (\<lambda>i. hv_start_height (m ! i) > h)"
  unfolding mono_upto_def
  using htv_ok_heights [OF assms] by (metis le_neq_implies_less less_trans)

lemma GetVersionForHeight_found:
  assumes "htv_ok m" and "m \<noteq> []" and "hv_start_height (m ! 0) \<le> h"
  obtains i where "i < length m" and "GetVersionForHeight m h = Inr (of_nat i)"
    and "hv_start_height (m ! i) \<le> h"
    and "\<And>j. i < j \<Longrightarrow> j < length m \<Longrightarrow> h < hv_start_height (m ! j)"
proof -
  let ?f = "\<lambda>i. hv_start_height (m ! i) > h"
  let ?n = "sort_search (length m) ?f"
  note mono = htv_mono [OF assms(1), of h]
  note found = sort_search_correct [OF mono]
  have "?n \<noteq> 0"
  proof
    assume "?n = 0"
    with found(3) assms(2) have "?f 0" by simp
    with assms(3) show False by simp
  qed
  then obtain i where i: "?n = Suc i" by (cases ?n) auto
  have "i < length m" using found(1) i by simp
  moreover have "GetVersionForHeight m h = Inr (of_nat i)"
    using assms(1,2) i \<open>i < length m\<close> by (simp add: GetVersionForHeight_def htv_ok_def)
  moreover have "hv_start_height (m ! i) \<le> h" using found(2) i by (simp add: not_less)
  moreover have "h < hv_start_height (m ! j)" if "i < j" "j < length m" for j
    using mono found(3) that i unfolding mono_upto_def by (metis Suc_leI le_less_trans)
  ultimately show ?thesis using that by blast
qed

lemma GetVersionForHeight_too_low:
  assumes "htv_ok m" and "m \<noteq> []" and "h < hv_start_height (m ! 0)"
  shows "GetVersionForHeight m h = Inl (Errorf ''no parameters found for block height'')"
proof -
  let ?f = "\<lambda>i. hv_start_height (m ! i) > h"
  from sort_search_correct(2) [OF htv_mono [OF assms(1)]] assms(3) have "sort_search (length m) ?f = 0"
    by (metis gr0I)
  with assms(2) show ?thesis by (simp add: GetVersionForHeight_def)
qed

section \<open>Properties\<close>

text \<open>C17: A height-to-version map that was accepted pair by pair answers a height at or above its
  first start height with the version of the last pair that starts at or below the height: the
  binary search finds the parameters in force.\<close>

theorem GetVersionForHeight_in_force:
  assumes "NewHeightToVersionMapFromPairs pairs = Inr m" and "hv_start_height (m ! 0) \<le> h"
  shows "\<exists>i < length m. GetVersionForHeight m h = Inr (hv_version (m ! i)) \<and>
    hv_start_height (m ! i) \<le> h \<and> (\<forall>j < length m. i < j \<longrightarrow> h < hv_start_height (m ! j))"
proof -
  have ok: "htv_ok m" by (rule NewHeightToVersionMapFromPairs_ok [OF assms(1)])
  have "m \<noteq> []" using NewHeightToVersionMapFromPairs_pairs [OF assms(1)] by blast
  from GetVersionForHeight_found [OF ok this assms(2)] obtain i where
    "i < length m" "GetVersionForHeight m h = Inr (of_nat i)" "hv_start_height (m ! i) \<le> h"
    "\<And>j. i < j \<Longrightarrow> j < length m \<Longrightarrow> h < hv_start_height (m ! j)" by blast
  with ok show ?thesis by (auto simp: htv_ok_def)
qed

definition example_htv :: HeightToVersionMap where
  "example_htv = [NewHeightVersionPair 10 0, NewHeightVersionPair 20 1]"

lemma example_htv_built: "NewHeightToVersionMapFromPairs example_htv = Inr example_htv"
  by (simp add: example_htv_def NewHeightToVersionMapFromPairs_def AddPair_def
      NewHeightVersionPair_def)

theorem GetVersionForHeight_in_force_witness:
  "\<exists>i < length example_htv. GetVersionForHeight example_htv 15 = Inr (hv_version (example_htv ! i)) \<and>
    hv_start_height (example_htv ! i) \<le> 15 \<and>
    (\<forall>j < length example_htv. i < j \<longrightarrow> 15 < hv_start_height (example_htv ! j))"
  by (rule GetVersionForHeight_in_force [OF example_htv_built])
    (simp add: example_htv_def NewHeightVersionPair_def)

text \<open>C18: Under validated parameters any two covenant quorums share a member: two sets of
  committee keys that each reach the quorum size intersect.\<close>

theorem covenant_quorums_intersect:
  assumes "Params_Validate X p = Inr ()"
    and "A \<subseteq> set (p_covenant_pks p)" and "B \<subseteq> set (p_covenant_pks p)"
    and "unat (p_covenant_quorum p) \<le> card A" and "unat (p_covenant_quorum p) \<le> card B"
  shows "A \<inter> B \<noteq> {}"
proof (rule majorities_intersect)
  show "card (set (p_covenant_pks p)) < card A + card B"
    using Params_Validate_committee [OF assms(1)] assms(4,5) by (simp add: distinct_card)
qed (use assms(2,3) in simp_all)

definition ext_accepting :: ext where
  "ext_accepting = \<lparr>ext_AccAddressFromBech32 = (\<lambda>s. Inr (map of_char s)),
     ext_AccAddressString = map (\<lambda>b. char_of (unat b)), ext_ParsePubKey = (\<lambda>_. Inr ()),
     ext_TxHash = Inr, ext_NewHash = Inr, ext_HashString = hex_encode, ext_NewHashFromStr = hex_decode,
     ext_DecMul = (\<lambda>a b. a * b div 10 ^ 18), ext_DecTruncateDec = (\<lambda>a. a div 10 ^ 18 * 10 ^ 18),
     ext_AmountMulDec = (\<lambda>a r. Inr (a * r div 10 ^ 18)), ext_IsDust = (\<lambda>a _. a < 546)\<rparr>"

definition example_params :: Params where
  "example_params = \<lparr>p_covenant_pks = [[1], [2], [3]], p_covenant_quorum = 2,
     p_min_staking_value_sat = 10000, p_max_staking_value_sat = 10000000000,
     p_min_staking_time_blocks = 400, p_max_staking_time_blocks = 65535,
     p_slashing_pk_script = [0x51], p_min_slashing_tx_fee_sat = 1000, p_slashing_rate = 10 ^ 17,
     p_unbonding_time_blocks = 200, p_unbonding_fee_sat = 1000, p_min_commission_rate = Some 0,
     p_delegation_creation_base_gas_fee = 1000, p_allow_list_expiration_height = 0,
     p_btc_activation_height = 0\<rparr>"

lemma example_params_valid: "Params_Validate ext_accepting example_params = Inr ()"
  by (simp add: Params_Validate_def example_params_def ext_accepting_def validateStakingAmout_def
      validateStakingTime_def validateCovenantPks_def ExistsDup_def validateMinSlashingTxFeeSat_def
      validateMinCommissionRate_def IsSlashingRateValid_def LegacyOneDec_def MaxUint16_u32_def
      validateNoDustSlashingOutput_def validateUnbondingTime_def wrap64_id is_i64_def)

theorem covenant_quorums_intersect_witness:
  "Params_Validate ext_accepting example_params = Inr () \<and> {[1], [2]} \<inter> {[2], [3::byte]} \<noteq> {}"
  using covenant_quorums_intersect
    [OF example_params_valid, of "{[1], [2]}" "{[2], [3]}"] example_params_valid
  by (simp add: example_params_def)


end
