(* ===== verification/Power_Table.thy ===== *)
theory Power_Table
  imports BtcStaking_Params
begin

text \<open>
  The voting power distribution cache of the finality module
  (\<open>x/finality/types/power_table.go\<close>): which finality providers are active, with what power,
  and which of them became active or inactive since the previous block.

  The Go maps keyed by the hexadecimal key are stores keyed by that text.  Go leaves the
  iteration order of a map open; the code sorts what it collects from one, and
  \<open>sort_by_pk_order_irrelevant\<close> shows the sorted result does not depend on the iteration order.
  A nil \<open>Commission\<close> is \<open>None\<close>; a nil \<open>BtcPk\<close> or \<open>Addr\<close> is the empty list.
\<close>

section \<open>Distribution info of one finality provider\<close>

record FinalityProviderDistInfo =
  di_btc_pk :: BIP340PubKey
  di_addr :: bytes
  di_commission :: "dec option"
  di_total_bonded_sat :: u64
  di_is_timestamped :: bool
  di_is_jailed :: bool
  di_is_slashed :: bool

definition NewFinalityProviderDistInfo :: "ext \<Rightarrow> FinalityProvider \<Rightarrow> FinalityProviderDistInfo res" where
  "NewFinalityProviderDistInfo X fp =
     (case ext_AccAddressFromBech32 X (fp_addr fp) of
        Inl _ \<Rightarrow> Inl (Panic ''invalid bech32 address'')
      | Inr addr \<Rightarrow>
          Inr \<lparr>di_btc_pk = fp_btc_pk fp, di_addr = addr, di_commission = fp_commission fp,
               di_total_bonded_sat = 0, di_is_timestamped = False, di_is_jailed = fp_jailed fp,
               di_is_slashed = FinalityProvider_IsSlashed fp\<rparr>)"

definition abs_i64 :: "i64 \<Rightarrow> i64" where
  "abs_i64 val = (if val < 0 then wrap64 (- val) else val)"

definition AddBondedSats :: "u64 \<Rightarrow> FinalityProviderDistInfo \<Rightarrow> FinalityProviderDistInfo" where
  "AddBondedSats sats v = v\<lparr>di_total_bonded_sat := di_total_bonded_sat v + sats\<rparr>"

definition RemoveBondedSats :: "u64 \<Rightarrow> FinalityProviderDistInfo \<Rightarrow> FinalityProviderDistInfo res" where
  "RemoveBondedSats sats v =
     (if di_total_bonded_sat v < sats then Inl ErrInvalidSats
      else Inr (v\<lparr>di_total_bonded_sat := di_total_bonded_sat v - sats\<rparr>))"

definition ChangeDeltaSats :: "i64 \<Rightarrow> FinalityProviderDistInfo \<Rightarrow> FinalityProviderDistInfo res" where
  "ChangeDeltaSats fpDeltaSats v =
     (if fpDeltaSats > 0 then Inr (AddBondedSats (to_u64 fpDeltaSats) v)
      else if fpDeltaSats < 0 then RemoveBondedSats (to_u64 (abs_i64 fpDeltaSats)) v
      else Inr v)"

text \<open>\<open>quo\<close> is \<open>LegacyDec.QuoTruncate\<close>.\<close>

definition GetBTCDelPortion ::
  "(dec \<Rightarrow> dec \<Rightarrow> dec) \<Rightarrow> u64 \<Rightarrow> FinalityProviderDistInfo \<Rightarrow> dec" where
  "GetBTCDelPortion quo totalSatDelegation v =
     quo (to_i64 totalSatDelegation * LegacyOneDec) (to_i64 (di_total_bonded_sat v) * LegacyOneDec)"

definition FinalityProviderDistInfo_Validate :: "ext \<Rightarrow> FinalityProviderDistInfo \<Rightarrow> unit res" where
  "FinalityProviderDistInfo_Validate X fpdi =
     (if di_btc_pk fpdi = [] then Inl (Errorf ''empty finality provider BTC public key'')
      else if length (di_btc_pk fpdi) \<noteq> BIP340PubKeyLen
        then Inl (Errorf ''finality provider BTC public key length'')
      else if di_addr fpdi = [] then Inl (Errorf ''empty finality provider address'')
      else case ext_AccAddressFromBech32 X (ext_AccAddressString X (di_addr fpdi)) of
             Inl _ \<Rightarrow> Inl (Errorf ''invalid bech32 address'')
           | Inr _ \<Rightarrow>
               (case di_commission fpdi of
                  None \<Rightarrow> Inl (Errorf ''commission is nil'')
                | Some comm \<Rightarrow>
                    if comm < 0 then Inl (Errorf ''commission is negative'')
                    else if comm > LegacyOneDec then Inl (Errorf ''commission is greater than 1'')
                    else Inr ()))"

section \<open>Sorting by voting power\<close>

definition should_be_zeroed :: "FinalityProviderDistInfo \<Rightarrow> bool" where
  "should_be_zeroed v \<longleftrightarrow> di_is_jailed v \<or> \<not> di_is_timestamped v \<or> di_is_slashed v"

definition power_before :: "FinalityProviderDistInfo \<Rightarrow> FinalityProviderDistInfo \<Rightarrow> bool" where
  "power_before a b =
     (if should_be_zeroed a \<and> \<not> should_be_zeroed b then False
      else if \<not> should_be_zeroed a \<and> should_be_zeroed b then True
      else if should_be_zeroed a \<and> should_be_zeroed b
        then MarshalHex (di_btc_pk a) < MarshalHex (di_btc_pk b)
      else if di_total_bonded_sat a = di_total_bonded_sat b
        then MarshalHex (di_btc_pk a) < MarshalHex (di_btc_pk b)
      else di_total_bonded_sat a > di_total_bonded_sat b)"

definition SortFinalityProvidersWithZeroedVotingPower ::
  "FinalityProviderDistInfo list \<Rightarrow> FinalityProviderDistInfo list" where
  "SortFinalityProvidersWithZeroedVotingPower fps = slice_stable power_before fps"

definition pk_before :: "FinalityProviderDistInfo \<Rightarrow> FinalityProviderDistInfo \<Rightarrow> bool" where
  "pk_before a b \<longleftrightarrow> MarshalHex (di_btc_pk a) < MarshalHex (di_btc_pk b)"

section \<open>The distribution cache\<close>

record VotingPowerDistCache =
  dc_total_voting_power :: u64
  dc_finality_providers :: "FinalityProviderDistInfo list"
  dc_num_active_fps :: u32

definition NewVotingPowerDistCache :: VotingPowerDistCache where
  "NewVotingPowerDistCache =
     \<lparr>dc_total_voting_power = 0, dc_finality_providers = [], dc_num_active_fps = 0\<rparr>"

definition AddFinalityProviderDistInfo ::
  "FinalityProviderDistInfo \<Rightarrow> VotingPowerDistCache \<Rightarrow> VotingPowerDistCache" where
  "AddFinalityProviderDistInfo v dc =
     dc\<lparr>dc_finality_providers := dc_finality_providers dc @ [v]\<rparr>"

definition NewVotingPowerDistCacheWithFinalityProviders ::
  "FinalityProviderDistInfo list \<Rightarrow> VotingPowerDistCache" where
  "NewVotingPowerDistCacheWithFinalityProviders fps =
     fold AddFinalityProviderDistInfo fps NewVotingPowerDistCache"

definition VotingPowerDistCache_Empty :: "VotingPowerDistCache \<Rightarrow> bool" where
  "VotingPowerDistCache_Empty dc \<longleftrightarrow> length (dc_finality_providers dc) = 0"

text \<open>The loop that counts the active providers from the front of the sorted list.\<close>

fun apply_active_loop ::
  "u32 \<Rightarrow> FinalityProviderDistInfo list \<Rightarrow> u32 \<Rightarrow> u64 \<Rightarrow> u32 \<times> u64" where
  "apply_active_loop maxActiveFPs [] n totalVP = (n, totalVP)"
| "apply_active_loop maxActiveFPs (fp # fps) n totalVP =
     (if n = maxActiveFPs then (n, totalVP)
      else if di_total_bonded_sat fp = 0 then (n, totalVP)
      else if \<not> di_is_timestamped fp then (n, totalVP)
      else if di_is_jailed fp then (n, totalVP)
      else if di_is_slashed fp then (n, totalVP)
      else apply_active_loop maxActiveFPs fps (n + 1) (totalVP + di_total_bonded_sat fp))"

definition ApplyActiveFinalityProviders :: "u32 \<Rightarrow> VotingPowerDistCache \<Rightarrow> VotingPowerDistCache" where
  "ApplyActiveFinalityProviders maxActiveFPs dc =
     (let fps = SortFinalityProvidersWithZeroedVotingPower (dc_finality_providers dc);
          (n, totalVP) = apply_active_loop maxActiveFPs fps 0 0
      in \<lparr>dc_total_voting_power = totalVP, dc_finality_providers = fps, dc_num_active_fps = n\<rparr>)"

text \<open>\<open>fps[:n]\<close> panics when \<open>n\<close> exceeds the slice.\<close>

definition fps_upto :: "VotingPowerDistCache \<Rightarrow> FinalityProviderDistInfo list res" where
  "fps_upto dc =
     (if length (dc_finality_providers dc) < unat (dc_num_active_fps dc)
      then Inl (Panic ''slice bounds out of range'')
      else Inr (take (unat (dc_num_active_fps dc)) (dc_finality_providers dc)))"

definition by_pk_hex :: "FinalityProviderDistInfo list \<Rightarrow> (string, FinalityProviderDistInfo) store" where
  "by_pk_hex fps = fold (\<lambda>fp. kv_set (MarshalHex (di_btc_pk fp)) fp) fps []"

definition GetActiveFinalityProviderSet ::
  "VotingPowerDistCache \<Rightarrow> (string, FinalityProviderDistInfo) store res" where
  "GetActiveFinalityProviderSet dc = rbind (fps_upto dc) (\<lambda>fps. Inr (by_pk_hex fps))"

definition ActiveFpsByBtcPk :: "VotingPowerDistCache \<Rightarrow> (string, unit) store res" where
  "ActiveFpsByBtcPk dc =
     rbind (fps_upto dc) (\<lambda>fps. Inr (fold (\<lambda>fp. kv_set (MarshalHex (di_btc_pk fp)) ()) fps []))"

definition GetInactiveFinalityProviderSet ::
  "VotingPowerDistCache \<Rightarrow> (string, FinalityProviderDistInfo) store" where
  "GetInactiveFinalityProviderSet dc =
     (if length (dc_finality_providers dc) \<le> unat (dc_num_active_fps dc) then []
      else by_pk_hex (drop (unat (dc_num_active_fps dc)) (dc_finality_providers dc)))"

definition entries_not_in ::
  "(string, FinalityProviderDistInfo) store \<Rightarrow> (string, 'a) store \<Rightarrow> FinalityProviderDistInfo list" where
  "entries_not_in m m' = map snd (filter (\<lambda>e. \<not> kv_has m' (fst e)) m)"

definition FindNewActiveFinalityProviders ::
  "VotingPowerDistCache \<Rightarrow> VotingPowerDistCache \<Rightarrow> FinalityProviderDistInfo list res" where
  "FindNewActiveFinalityProviders dc prevDc =
     rbind (GetActiveFinalityProviderSet dc) (\<lambda>activeFps.
     rbind (GetActiveFinalityProviderSet prevDc) (\<lambda>prevActiveFps.
       Inr (slice_stable pk_before (entries_not_in activeFps prevActiveFps))))"

definition FindNewInactiveFinalityProviders ::
  "VotingPowerDistCache \<Rightarrow> VotingPowerDistCache \<Rightarrow> FinalityProviderDistInfo list res" where
  "FindNewInactiveFinalityProviders dc prevDc =
     (let inactiveFps = GetInactiveFinalityProviderSet dc;
          prevInactiveFps = GetInactiveFinalityProviderSet prevDc;
          newInactiveFps = entries_not_in inactiveFps prevInactiveFps;
          currFps = fold (\<lambda>fp. kv_set (MarshalHex (di_btc_pk fp)) ()) (dc_finality_providers dc) []
      in rbind (GetActiveFinalityProviderSet prevDc) (\<lambda>prevActiveFps.
           Inr (slice_stable pk_before (newInactiveFps @ entries_not_in prevActiveFps currFps))))"

text \<open>\<open>Validate\<close> sorts the providers, then checks each one and adds up the eligible ones.\<close>

fun validate_loop ::
  "ext \<Rightarrow> FinalityProviderDistInfo list \<Rightarrow> string set \<Rightarrow> u64 \<Rightarrow> u32 \<Rightarrow> (u64 \<times> u32) res" where
  "validate_loop X [] seen accVP n = Inr (accVP, n)"
| "validate_loop X (fp # fps) seen accVP n =
     (if di_btc_pk fp = [] then Inl (Panic ''nil pointer dereference'')
      else if MarshalHex (di_btc_pk fp) \<in> seen
        then Inl (Errorf ''Duplicate finality provider entry'')
      else rbind (FinalityProviderDistInfo_Validate X fp) (\<lambda>_.
        let seen' = insert (MarshalHex (di_btc_pk fp)) seen
        in if \<not> di_is_timestamped fp then validate_loop X fps seen' accVP n
           else if di_is_jailed fp then validate_loop X fps seen' accVP n
           else if di_is_slashed fp then validate_loop X fps seen' accVP n
           else validate_loop X fps seen' (accVP + di_total_bonded_sat fp) (n + 1)))"

definition VotingPowerDistCache_Validate :: "ext \<Rightarrow> VotingPowerDistCache \<Rightarrow> unit res" where
  "VotingPowerDistCache_Validate X dc =
     rbind (validate_loop X (SortFinalityProvidersWithZeroedVotingPower (dc_finality_providers dc))
              {} 0 0) (\<lambda>(accVP, numActiveFPs).
       if dc_total_voting_power dc \<noteq> accVP
         then Inl (Errorf ''TotalVotingPower is different than FPs accumulated voting power'')
       else if dc_num_active_fps dc \<noteq> numActiveFPs
         then Inl (Errorf ''NumActiveFps is higher than active FPs count'')
       else Inr ())"

section \<open>Lemmas\<close>

text \<open>The two comparisons are orders a stable sort can use.\<close>

interpretation power_order: strict_weak_order power_before
  by unfold_locales (auto simp: power_before_def split: if_splits)

interpretation pk_sort: strict_weak_order pk_before
  by unfold_locales (auto simp: pk_before_def)

lemma pk_before_iff [simp]: "pk_before a b \<longleftrightarrow> di_btc_pk a < di_btc_pk b"
  by (simp add: pk_before_def)

text \<open>Providers that may be active: timestamped, neither jailed nor slashed, with bonded stake.\<close>

definition eligible :: "FinalityProviderDistInfo \<Rightarrow> bool" where
  "eligible v \<longleftrightarrow> \<not> should_be_zeroed v \<and> di_total_bonded_sat v \<noteq> 0"

lemma not_eligible_later:
  "\<not> power_before y x \<Longrightarrow> \<not> eligible x \<Longrightarrow> \<not> eligible y"
  by (auto simp: eligible_def power_before_def word_gt_0 split: if_splits)

lemma eligible_prefix:
  "power_order.ordered fps \<Longrightarrow> takeWhile eligible fps = filter eligible fps"
proof (induction fps)
  case Nil
  then show ?case by simp
next
  case (Cons x xs)
  show ?case
  proof (cases "eligible x")
    case True
    with Cons show ?thesis by simp
  next
    case False
    with Cons.prems have "filter eligible xs = []"
      by (auto simp: filter_empty_conv dest: not_eligible_later)
    with False show ?thesis by simp
  qed
qed

lemma eligible_before:
  "\<not> power_before y x \<Longrightarrow> eligible x \<Longrightarrow> eligible y \<Longrightarrow> di_total_bonded_sat y \<le> di_total_bonded_sat x"
  by (auto simp: eligible_def power_before_def not_less split: if_splits)

lemma apply_active_loop_eq:
  assumes "n \<le> maxFps"
  shows "apply_active_loop maxFps fps n t =
    (let k = min (unat maxFps - unat n) (length (takeWhile eligible fps))
     in (n + of_nat k, t + sum_list (map di_total_bonded_sat (take k fps))))"
  using assms
proof (induction fps arbitrary: n t)
  case Nil
  then show ?case by simp
next
  case (Cons fp fps)
  show ?case
  proof (cases "n \<noteq> maxFps \<and> eligible fp")
    case True
    then have lt: "unat n < unat maxFps" using Cons.prems by (simp add: word_less_nat_alt [symmetric] order.not_eq_order_implies_strict)
    have "unat maxFps < 2 ^ 32" using unsigned_less [of maxFps] by simp
    with lt have suc: "unat (n + 1) = unat n + 1"
      by (simp add: unat_word_ariths)
    with lt have "n + 1 \<le> maxFps" by (simp add: word_le_nat_alt)
    from Cons.IH [OF this, of "t + di_total_bonded_sat fp"] True lt suc show ?thesis
      by (simp add: eligible_def should_be_zeroed_def Let_def Suc_diff_Suc [symmetric] algebra_simps)
  next
    case False
    then show ?thesis
      by (auto simp: eligible_def should_be_zeroed_def Let_def)
  qed
qed

lemma sum_unat_no_overflow:
  fixes ws :: "u64 list"
  assumes "sum_list (map unat ws) < 2 ^ 64"
  shows "unat (sum_list ws) = sum_list (map unat ws)"
  using assms by (induction ws) (simp_all add: unat_word_ariths)

text \<open>What the two kinds of map hold: with distinct keys, every provider of the list.\<close>

lemma fold_kv_set_pk:
  assumes "distinct (map di_btc_pk fps)"
  shows "kv_get (fold (\<lambda>fp. kv_set (MarshalHex (di_btc_pk fp)) (f fp)) fps m) k =
    (case find (\<lambda>fp. MarshalHex (di_btc_pk fp) = k) fps of Some fp \<Rightarrow> Some (f fp) | None \<Rightarrow> kv_get m k)"
  using assms
proof (induction fps arbitrary: m)
  case Nil
  then show ?case by simp
next
  case (Cons fp fps)
  have "find (\<lambda>g. MarshalHex (di_btc_pk g) = MarshalHex (di_btc_pk fp)) fps = None"
    using Cons.prems by (simp add: find_None_iff) (metis imageI)
  with Cons show ?case by (auto split: option.splits)
qed

lemma fold_kv_set_ok: "kv_ok m \<Longrightarrow> kv_ok (fold (\<lambda>fp. kv_set (g fp) (f fp)) fps m)"
  by (induction fps arbitrary: m) auto

lemma by_pk_hex_ok [simp]: "kv_ok (by_pk_hex fps)"
  by (simp add: by_pk_hex_def fold_kv_set_ok)

lemma kv_has_by_pk:
  "kv_has (fold (\<lambda>fp. kv_set (MarshalHex (di_btc_pk fp)) (f fp)) fps m) (MarshalHex pk) \<longleftrightarrow>
    pk \<in> di_btc_pk ` set fps \<or> kv_has m (MarshalHex pk)"
  by (induction fps arbitrary: m) auto

lemma kv_has_by_pk_hex: "kv_has (by_pk_hex fps) (MarshalHex pk) \<longleftrightarrow> pk \<in> di_btc_pk ` set fps"
  by (simp add: by_pk_hex_def kv_has_by_pk) (simp add: kv_has_def)

lemma find_pk:
  "distinct (map di_btc_pk fps) \<Longrightarrow>
    find (\<lambda>fp. MarshalHex (di_btc_pk fp) = k) fps = Some v \<longleftrightarrow> v \<in> set fps \<and> MarshalHex (di_btc_pk v) = k"
  by (induction fps) (auto simp: image_iff)

lemma by_pk_hex_entry:
  assumes "distinct (map di_btc_pk fps)"
  shows "(k, v) \<in> set (by_pk_hex fps) \<longleftrightarrow> v \<in> set fps \<and> MarshalHex (di_btc_pk v) = k"
proof -
  have "kv_get (by_pk_hex fps) k = find (\<lambda>fp. MarshalHex (di_btc_pk fp) = k) fps"
    using fold_kv_set_pk [OF assms, of "\<lambda>fp. fp" "[]" k]
    by (simp add: by_pk_hex_def split: option.splits)
  then show ?thesis by (simp add: kv_get_iff [symmetric] find_pk [OF assms])
qed

lemma set_entries_not_in:
  assumes "distinct (map di_btc_pk fps)"
  shows "set (entries_not_in (by_pk_hex fps) m) = {v \<in> set fps. \<not> kv_has m (MarshalHex (di_btc_pk v))}"
proof -
  have "v \<in> set (entries_not_in (by_pk_hex fps) m) \<longleftrightarrow>
      (\<exists>k. (k, v) \<in> set (by_pk_hex fps) \<and> \<not> kv_has m k)" for v
    by (auto simp: entries_not_in_def image_iff)
  then show ?thesis by (auto simp: by_pk_hex_entry [OF assms])
qed

lemma distinct_entries_not_in:
  assumes "distinct (map di_btc_pk fps)"
  shows "distinct (map di_btc_pk (entries_not_in (by_pk_hex fps) m))"
proof -
  have keys: "distinct (map fst (filter (\<lambda>e. \<not> kv_has m (fst e)) (by_pk_hex fps)))"
    by (rule kv_ok_distinct) (simp add: kv_ok_filter)
  have "map (\<lambda>v. MarshalHex (di_btc_pk v)) (entries_not_in (by_pk_hex fps) m) =
      map fst (filter (\<lambda>e. \<not> kv_has m (fst e)) (by_pk_hex fps))"
    by (auto simp: entries_not_in_def by_pk_hex_entry [OF assms])
  with keys have "distinct (map MarshalHex (map di_btc_pk (entries_not_in (by_pk_hex fps) m)))"
    by (simp add: o_def)
  then show ?thesis by (simp only: distinct_map)
qed

lemma ApplyActive_sorted:
  "power_order.ordered (dc_finality_providers (ApplyActiveFinalityProviders m dc))"
  by (simp add: ApplyActiveFinalityProviders_def Let_def SortFinalityProvidersWithZeroedVotingPower_def
      power_order.slice_stable_ordered split: prod.splits)

lemma ApplyActive_facts:
  fixes m :: u32 and dc :: VotingPowerDistCache
  defines "dc' \<equiv> ApplyActiveFinalityProviders m dc"
  shows "mset (dc_finality_providers dc') = mset (dc_finality_providers dc)"
    and "unat (dc_num_active_fps dc') =
      min (unat m) (length (filter eligible (dc_finality_providers dc)))"
    and "take (unat (dc_num_active_fps dc')) (dc_finality_providers dc') =
      take (unat m) (filter eligible (dc_finality_providers dc'))"
    and "dc_total_voting_power dc' =
      sum_list (map di_total_bonded_sat (take (unat (dc_num_active_fps dc')) (dc_finality_providers dc')))"
proof -
  let ?fps = "SortFinalityProvidersWithZeroedVotingPower (dc_finality_providers dc)"
  let ?k = "min (unat m) (length (takeWhile eligible ?fps))"
  have fps: "dc_finality_providers dc' = ?fps"
    by (simp add: dc'_def ApplyActiveFinalityProviders_def Let_def split: prod.splits)
  show mset: "mset (dc_finality_providers dc') = mset (dc_finality_providers dc)"
    by (simp add: fps SortFinalityProvidersWithZeroedVotingPower_def)
  have loop: "apply_active_loop m ?fps 0 0 =
      (of_nat ?k, sum_list (map di_total_bonded_sat (take ?k ?fps)))"
    by (subst apply_active_loop_eq) (simp_all add: Let_def)
  have "unat m < 2 ^ 32" using unsigned_less [of m] by simp
  then have k: "unat (of_nat ?k :: u32) = ?k" by (simp add: unat_of_nat)
  have prefix: "takeWhile eligible ?fps = filter eligible ?fps"
    by (rule eligible_prefix)
      (simp add: SortFinalityProvidersWithZeroedVotingPower_def power_order.slice_stable_ordered)
  have len: "length (filter eligible ?fps) = length (filter eligible (dc_finality_providers dc))"
    using mset by (metis fps mset_filter size_mset)
  have num: "unat (dc_num_active_fps dc') = ?k"
    using k by (simp add: dc'_def ApplyActiveFinalityProviders_def loop Let_def)
  then show "unat (dc_num_active_fps dc') =
      min (unat m) (length (filter eligible (dc_finality_providers dc)))"
    by (simp add: prefix len)
  have "take ?k ?fps = take (unat m) (takeWhile eligible ?fps)"
    by (metis min.commute take_take takeWhile_eq_take)
  then show "take (unat (dc_num_active_fps dc')) (dc_finality_providers dc') =
      take (unat m) (filter eligible (dc_finality_providers dc'))"
    by (simp add: num fps prefix)
  show "dc_total_voting_power dc' =
      sum_list (map di_total_bonded_sat (take (unat (dc_num_active_fps dc')) (dc_finality_providers dc')))"
    using k by (simp add: num fps) (simp add: dc'_def ApplyActiveFinalityProviders_def loop Let_def)
qed

text \<open>Sorting providers with distinct keys gives the same list whatever order they come in.\<close>

lemma pk_separates:
  assumes "distinct (map di_btc_pk fps)" and "a \<in> set fps" and "b \<in> set fps" and "a \<noteq> b"
  shows "di_btc_pk a < di_btc_pk b \<or> di_btc_pk b < di_btc_pk a"
  using assms by (metis distinct_map inj_onD linorder_neq_iff)

lemma sort_by_pk_order_irrelevant:
  assumes "mset fps = mset fps'" and "distinct (map di_btc_pk fps)"
  shows "slice_stable pk_before fps = slice_stable pk_before fps'"
  by (rule slice_stable_collection [OF pk_sort.strict_weak_order_axioms assms(1)])
    (simp add: pk_separates [OF assms(2)])

lemma sort_by_pk_sorted:
  assumes "distinct (map di_btc_pk fps)"
  shows "sorted_wrt (<) (map di_btc_pk (slice_stable pk_before fps))"
proof -
  have "sorted (map di_btc_pk (slice_stable pk_before fps))"
    using pk_sort.slice_stable_ordered [of fps] by (simp add: sorted_wrt_map not_less)
  moreover have "distinct (map di_btc_pk (slice_stable pk_before fps))" using assms by simp
  ultimately show ?thesis by (simp add: strict_sorted_iff)
qed

lemma GetInactive_eq:
  "GetInactiveFinalityProviderSet dc =
    by_pk_hex (drop (unat (dc_num_active_fps dc)) (dc_finality_providers dc))"
  by (simp add: GetInactiveFinalityProviderSet_def by_pk_hex_def)

lemma to_u64_wrap64 [simp]: "to_u64 (wrap64 x) = word_of_int x"
  by (simp add: to_u64_def wrap64_def)

lemma fps_upto_Inr:
  "unat (dc_num_active_fps dc) \<le> length (dc_finality_providers dc) \<Longrightarrow>
    fps_upto dc = Inr (take (unat (dc_num_active_fps dc)) (dc_finality_providers dc))"
  by (simp add: fps_upto_def)

section \<open>Properties\<close>

text \<open>C20: The active set is the top of the ranking.  \<open>ApplyActiveFinalityProviders\<close> permutes the
  providers; the number of active ones is the smaller of the maximum and the number of eligible
  providers; every active provider is eligible (timestamped, not jailed, not slashed, with
  stake); no eligible provider left out has more stake than an active one; and the total voting
  power is the sum of the active stakes.\<close>

theorem ApplyActive_top_n:
  assumes "dc' = ApplyActiveFinalityProviders m dc"
    and "active = take (unat (dc_num_active_fps dc')) (dc_finality_providers dc')"
    and "inactive = drop (unat (dc_num_active_fps dc')) (dc_finality_providers dc')"
  shows "mset (active @ inactive) = mset (dc_finality_providers dc) \<and>
    length active = min (unat m) (length (filter eligible (dc_finality_providers dc))) \<and>
    (\<forall>a \<in> set active. eligible a) \<and>
    (\<forall>a \<in> set active. \<forall>b \<in> set inactive. eligible b \<longrightarrow> di_total_bonded_sat b \<le> di_total_bonded_sat a) \<and>
    dc_total_voting_power dc' = sum_list (map di_total_bonded_sat active)"
proof -
  note facts = ApplyActive_facts [of m dc, folded assms(1)]
  have all: "active @ inactive = dc_finality_providers dc'" by (simp add: assms(2,3))
  have eligible_active: "eligible a" if "a \<in> set active" for a
    using that facts(3) by (auto simp: assms(2) dest: in_set_takeD)
  have "di_total_bonded_sat b \<le> di_total_bonded_sat a"
    if "a \<in> set active" "b \<in> set inactive" "eligible b" for a b
  proof -
    have "power_order.ordered (active @ inactive)"
      using ApplyActive_sorted [of m dc] by (simp only: all assms(1))
    then have "\<not> power_before b a" using that(1,2) by (simp add: sorted_wrt_append)
    then show ?thesis using eligible_before eligible_active [OF that(1)] that(3) by blast
  qed
  moreover have "length active = min (unat m) (length (filter eligible (dc_finality_providers dc)))"
  proof -
    have "length (filter eligible (dc_finality_providers dc)) \<le> length (dc_finality_providers dc')"
      using facts(1) by (metis length_filter_le size_mset)
    then show ?thesis by (simp add: assms(2) facts(2))
  qed
  ultimately show ?thesis
    using facts(1,4) all eligible_active by (simp add: assms(2) [symmetric])
qed

definition example_info_fp :: "BIP340PubKey \<Rightarrow> u64 \<Rightarrow> FinalityProviderDistInfo" where
  "example_info_fp pk sats = \<lparr>di_btc_pk = pk, di_addr = [1], di_commission = Some 0,
     di_total_bonded_sat = sats, di_is_timestamped = True, di_is_jailed = False, di_is_slashed = False\<rparr>"

definition example_dc :: VotingPowerDistCache where
  "example_dc = NewVotingPowerDistCacheWithFinalityProviders
     [example_info_fp [1] 10, example_info_fp [2] 30, example_info_fp [3] 20]"

theorem ApplyActive_top_n_witness:
  "length (take (unat (dc_num_active_fps (ApplyActiveFinalityProviders 2 example_dc)))
      (dc_finality_providers (ApplyActiveFinalityProviders 2 example_dc))) = 2"
proof -
  have "length (filter eligible (dc_finality_providers example_dc)) = 3"
    by (simp add: example_dc_def NewVotingPowerDistCacheWithFinalityProviders_def
        NewVotingPowerDistCache_def AddFinalityProviderDistInfo_def example_info_fp_def eligible_def
        should_be_zeroed_def)
  with ApplyActive_top_n [OF refl refl refl, of 2 example_dc] show ?thesis by simp
qed

text \<open>The ranking is a function of the set of providers.  Two caches holding the same providers,
  with pairwise different keys, in any order yield the same sorted list, the same active set and
  the same total power, so all nodes agree although Go maps iterate in random order.\<close>

theorem ApplyActive_deterministic:
  assumes "mset (dc_finality_providers dc1) = mset (dc_finality_providers dc2)"
    and "distinct (map di_btc_pk (dc_finality_providers dc1))"
  shows "ApplyActiveFinalityProviders m dc1 = ApplyActiveFinalityProviders m dc2"
proof -
  have "power_before x y \<or> power_before y x"
    if "x \<in> set (dc_finality_providers dc1)" "y \<in> set (dc_finality_providers dc1)" "x \<noteq> y" for x y
    using pk_separates [OF assms(2) that] by (auto simp: power_before_def)
  then have "SortFinalityProvidersWithZeroedVotingPower (dc_finality_providers dc1) =
      SortFinalityProvidersWithZeroedVotingPower (dc_finality_providers dc2)"
    unfolding SortFinalityProvidersWithZeroedVotingPower_def
    by (rule slice_stable_collection [OF power_order.strict_weak_order_axioms assms(1)])
  then show ?thesis by (simp add: ApplyActiveFinalityProviders_def)
qed

theorem ApplyActive_deterministic_witness:
  "ApplyActiveFinalityProviders 2 example_dc = ApplyActiveFinalityProviders 2
     (NewVotingPowerDistCacheWithFinalityProviders
        [example_info_fp [3] 20, example_info_fp [1] 10, example_info_fp [2] 30])"
  by (rule ApplyActive_deterministic)
    (simp_all add: example_dc_def NewVotingPowerDistCacheWithFinalityProviders_def
      NewVotingPowerDistCache_def AddFinalityProviderDistInfo_def example_info_fp_def)

lemma ChangeDeltaSats_arith:
  assumes "is_i64 d"
  shows "ChangeDeltaSats d v =
    (if uint (di_total_bonded_sat v) + d < 0 then Inl ErrInvalidSats
     else Inr (v\<lparr>di_total_bonded_sat := word_of_int (uint (di_total_bonded_sat v) + d)\<rparr>))"
proof -
  have sat: "0 \<le> uint (di_total_bonded_sat v)" by simp
  consider "d > 0" | "d = 0" | "d < 0" by linarith
  then show ?thesis
  proof cases
    case 1
    then have "\<not> uint (di_total_bonded_sat v) + d < 0" using sat by linarith
    with 1 show ?thesis
      by (simp add: ChangeDeltaSats_def AddBondedSats_def to_u64_def wi_hom_add [symmetric])
  next
    case 2
    then show ?thesis by (simp add: ChangeDeltaSats_def)
  next
    case 3
    define e where "e = - d"
    have e: "d = - e" "0 < e" "e \<le> 2 ^ 63" using 3 assms by (simp_all add: e_def is_i64_def)
    have "uint (word_of_int e :: u64) = e" using e(2,3) by (simp add: uint_word_of_int)
    then have "di_total_bonded_sat v < word_of_int e \<longleftrightarrow> uint (di_total_bonded_sat v) + d < 0"
      by (simp add: word_less_def e(1))
    moreover have "word_of_int (uint (di_total_bonded_sat v) + d) = di_total_bonded_sat v - word_of_int e"
      by (simp add: e(1))
    ultimately show ?thesis
      using e(2) by (simp add: ChangeDeltaSats_def abs_i64_def RemoveBondedSats_def e(1))
  qed
qed

text \<open>Applying a change of bonded satoshis is exact for every 64-bit signed change, the smallest
  one included: it fails exactly when the stake would become negative, and otherwise adds the
  change to the stake (modulo \<open>2 ^ 64\<close> on top).\<close>

theorem ChangeDeltaSats_exact:
  assumes "is_i64 d"
  shows "ChangeDeltaSats d v =
    (if uint (di_total_bonded_sat v) + d < 0 then Inl ErrInvalidSats
     else Inr (v\<lparr>di_total_bonded_sat := word_of_int (uint (di_total_bonded_sat v) + d)\<rparr>))"
  using assms by (rule ChangeDeltaSats_arith)

theorem ChangeDeltaSats_exact_witness:
  "ChangeDeltaSats (- 5) (example_info_fp [1] 20) = Inr (example_info_fp [1] 15)"
  by (subst ChangeDeltaSats_exact) (simp_all add: is_i64_def example_info_fp_def)

text \<open>Newly active and newly inactive providers are found exactly.  For well-formed caches with
  distinct keys, \<open>FindNewActiveFinalityProviders\<close> returns the active providers that were not
  active before and \<open>FindNewInactiveFinalityProviders\<close> the inactive ones that were not inactive
  before together with the formerly active ones that disappeared; both in strictly ascending
  order of their keys.\<close>

theorem FindNew_exact:
  assumes "unat (dc_num_active_fps dc) \<le> length (dc_finality_providers dc)"
    and "unat (dc_num_active_fps prev) \<le> length (dc_finality_providers prev)"
    and "distinct (map di_btc_pk (dc_finality_providers dc))"
    and "distinct (map di_btc_pk (dc_finality_providers prev))"
    and "active = (\<lambda>d. take (unat (dc_num_active_fps d)) (dc_finality_providers d))"
    and "inactive = (\<lambda>d. drop (unat (dc_num_active_fps d)) (dc_finality_providers d))"
  shows "\<exists>new_active new_inactive.
    FindNewActiveFinalityProviders dc prev = Inr new_active \<and>
    FindNewInactiveFinalityProviders dc prev = Inr new_inactive \<and>
    set new_active = {v \<in> set (active dc). di_btc_pk v \<notin> di_btc_pk ` set (active prev)} \<and>
    set new_inactive =
      {v \<in> set (inactive dc). di_btc_pk v \<notin> di_btc_pk ` set (inactive prev)} \<union>
      {v \<in> set (active prev). di_btc_pk v \<notin> di_btc_pk ` set (dc_finality_providers dc)} \<and>
    sorted_wrt (<) (map di_btc_pk new_active) \<and> sorted_wrt (<) (map di_btc_pk new_inactive)"
proof -
  let ?seen = "fold (\<lambda>fp. kv_set (MarshalHex (di_btc_pk fp)) ()) (dc_finality_providers dc) []"
  let ?na = "entries_not_in (by_pk_hex (active dc)) (by_pk_hex (active prev))"
  let ?ni = "entries_not_in (by_pk_hex (inactive dc)) (by_pk_hex (inactive prev))"
  let ?gone = "entries_not_in (by_pk_hex (active prev)) ?seen"
  have "distinct (map di_btc_pk (active dc @ inactive dc))"
    "distinct (map di_btc_pk (active prev @ inactive prev))"
    using assms(3,4) by (simp_all add: assms(5,6) del: map_append)
  then have d: "distinct (map di_btc_pk (active dc))" "distinct (map di_btc_pk (inactive dc))"
    "distinct (map di_btc_pk (active prev))" by simp_all
  have seen: "kv_has ?seen (MarshalHex pk) \<longleftrightarrow> pk \<in> di_btc_pk ` set (dc_finality_providers dc)" for pk
    by (simp add: kv_has_by_pk) (simp add: kv_has_def)
  have sets: "set ?na = {v \<in> set (active dc). di_btc_pk v \<notin> di_btc_pk ` set (active prev)}"
    "set ?ni = {v \<in> set (inactive dc). di_btc_pk v \<notin> di_btc_pk ` set (inactive prev)}"
    "set ?gone = {v \<in> set (active prev). di_btc_pk v \<notin> di_btc_pk ` set (dc_finality_providers dc)}"
    by (simp_all add: set_entries_not_in d kv_has_by_pk_hex seen)
  have "set (inactive dc) \<subseteq> set (dc_finality_providers dc)" by (simp add: assms(6) set_drop_subset)
  then have "di_btc_pk ` set ?ni \<subseteq> di_btc_pk ` set (dc_finality_providers dc)"
    unfolding sets(2) by auto
  moreover have "di_btc_pk ` set ?gone \<inter> di_btc_pk ` set (dc_finality_providers dc) = {}"
    unfolding sets(3) by auto
  ultimately have "di_btc_pk ` set ?ni \<inter> di_btc_pk ` set ?gone = {}" by blast
  then have "distinct (map di_btc_pk ?na)" "distinct (map di_btc_pk (?ni @ ?gone))"
    by (simp_all add: distinct_entries_not_in d)
  note sorted = this [THEN sort_by_pk_sorted]
  have "FindNewActiveFinalityProviders dc prev = Inr (slice_stable pk_before ?na)"
    by (simp add: FindNewActiveFinalityProviders_def GetActiveFinalityProviderSet_def
        fps_upto_Inr assms(1,2,5))
  moreover have "FindNewInactiveFinalityProviders dc prev = Inr (slice_stable pk_before (?ni @ ?gone))"
    by (simp add: FindNewInactiveFinalityProviders_def GetActiveFinalityProviderSet_def GetInactive_eq
        fps_upto_Inr assms(2,5,6))
  moreover have "set (slice_stable pk_before ?na) =
      {v \<in> set (active dc). di_btc_pk v \<notin> di_btc_pk ` set (active prev)}"
    by (simp only: set_slice_stable sets)
  moreover have "set (slice_stable pk_before (?ni @ ?gone)) =
      {v \<in> set (inactive dc). di_btc_pk v \<notin> di_btc_pk ` set (inactive prev)} \<union>
      {v \<in> set (active prev). di_btc_pk v \<notin> di_btc_pk ` set (dc_finality_providers dc)}"
    by (simp only: set_slice_stable set_append sets)
  ultimately show ?thesis using sorted by blast
qed

definition example_prev_dc :: VotingPowerDistCache where
  "example_prev_dc = \<lparr>dc_total_voting_power = 5, dc_finality_providers = [example_info_fp [1] 5],
     dc_num_active_fps = 1\<rparr>"

definition example_next_dc :: VotingPowerDistCache where
  "example_next_dc = \<lparr>dc_total_voting_power = 9, dc_finality_providers = [example_info_fp [2] 9],
     dc_num_active_fps = 1\<rparr>"

theorem FindNew_exact_witness:
  "\<exists>new_active new_inactive.
    FindNewActiveFinalityProviders example_next_dc example_prev_dc = Inr new_active \<and>
    FindNewInactiveFinalityProviders example_next_dc example_prev_dc = Inr new_inactive \<and>
    set new_active = {example_info_fp [2] 9} \<and> set new_inactive = {example_info_fp [1] 5}"
proof -
  have "{v \<in> {example_info_fp [2] 9}. di_btc_pk v \<notin> di_btc_pk ` {example_info_fp [1] 5}} =
      {example_info_fp [2] 9}"
    "{v \<in> {example_info_fp [1] 5}. di_btc_pk v \<notin> di_btc_pk ` {example_info_fp [2] 9}} =
      {example_info_fp [1] 5}"
    by (auto simp: example_info_fp_def)
  with FindNew_exact [of example_next_dc example_prev_dc, OF _ _ _ _ refl refl]
  show ?thesis by (auto simp: example_next_dc_def example_prev_dc_def)
qed


end
