(* ===== verification/Incentive.thy ===== *)
theory Incentive
  imports Power_Table
begin

text \<open>
  The incentive module (\<open>x/incentive\<close>): reward gauges of stakeholders, the per-period reward
  tracker of finality providers and their BTC delegators, the queue of tracker events, and the
  distribution of a block's rewards to the voting finality providers.

  \<open>sdk.Coins\<close> and the bank keeper belong to the Cosmos SDK.  Their operations are the fields of
  the record \<open>coins_ops\<close>, over an arbitrary type \<open>'c\<close> of coins.  Payments of the bank from the account of
  the module are recorded in order in \<open>inc_transfers\<close>, those to it in \<open>inc_deposits\<close>.
  Addresses have one length, so concatenated address keys are pairs.
\<close>

section \<open>Coins and the bank\<close>

record 'c coins_ops =
  c_NewCoins :: 'c
  c_NewCoinsOf :: "'c \<Rightarrow> 'c res"
  c_Add :: "'c \<Rightarrow> 'c \<Rightarrow> 'c"
  c_Sub :: "'c \<Rightarrow> 'c \<Rightarrow> 'c res"
  c_MulInt :: "'c \<Rightarrow> int \<Rightarrow> 'c res"
  c_QuoInt :: "'c \<Rightarrow> int \<Rightarrow> 'c res"
  c_IsZero :: "'c \<Rightarrow> bool"
  c_IsAllPositive :: "'c \<Rightarrow> bool"
  c_IsAnyNegative :: "'c \<Rightarrow> bool"
  c_NewDecCoinsFromCoins :: "'c \<Rightarrow> (string \<times> dec) list"
  c_MulDecTruncate :: "(string \<times> dec) list \<Rightarrow> dec \<Rightarrow> (string \<times> dec) list"
  c_TruncateDecimal :: "(string \<times> dec) list \<Rightarrow> 'c \<times> (string \<times> dec) list"
  c_DecQuoTruncate :: "dec \<Rightarrow> dec \<Rightarrow> dec res"
  c_SendToAccount :: "bytes \<Rightarrow> 'c \<Rightarrow> unit res"
  c_SendToIncentive :: "'c \<Rightarrow> unit res"
  c_BlockedAddr :: "bytes \<Rightarrow> bool"
  c_IsValid :: "'c \<Rightarrow> bool"
  c_Coins :: "'c \<Rightarrow> (string \<times> int) list"
  c_OfCoins :: "(string \<times> int) list \<Rightarrow> 'c"
  c_SafeMul :: "int \<Rightarrow> int \<Rightarrow> int res"
  c_CoinValidate :: "string \<Rightarrow> int \<Rightarrow> unit res"
  c_SendCostakingToIncentive :: "'c \<Rightarrow> unit res"
  c_SendFeesToCostaking :: "'c \<Rightarrow> unit res"

text \<open>The change that \<open>TruncateDecimal\<close> returns beside the truncated coins is dropped.\<close>

definition GetCoinsPortion :: "'c coins_ops \<Rightarrow> 'c \<Rightarrow> dec \<Rightarrow> 'c" where
  "GetCoinsPortion C coinsInt portion =
     (let coins = c_NewDecCoinsFromCoins C coinsInt;
          portionCoins = c_MulDecTruncate C coins portion;
          (portionCoinsInt, _) = c_TruncateDecimal C portionCoins
      in portionCoinsInt)"

text \<open>Multiplication that returns an error instead of panicking (\<open>types/sdk_math.go\<close>).\<close>

definition SafeNewCoin :: "'c coins_ops \<Rightarrow> string \<Rightarrow> int \<Rightarrow> (string \<times> int) res" where
  "SafeNewCoin C denom amount =
     (case c_CoinValidate C denom amount of
        Inl _ \<Rightarrow> Inl (Errorf ''unable to validate new coin'')
      | Inr _ \<Rightarrow> Inr (denom, amount))"

fun safe_mul_loop :: "'c coins_ops \<Rightarrow> int \<Rightarrow> (string \<times> int) list \<Rightarrow> (string \<times> int) list res" where
  "safe_mul_loop C x [] = Inr []"
| "safe_mul_loop C x ((denom, amount) # coins) =
     (case c_SafeMul C amount x of
        Inl _ \<Rightarrow> Inl ErrInvalidAmount
      | Inr amt \<Rightarrow>
          (case SafeNewCoin C denom amt of
             Inl _ \<Rightarrow> Inl (Errorf ''unable to create new coin'')
           | Inr newCoin \<Rightarrow> rbind (safe_mul_loop C x coins) (\<lambda>rest. Inr (newCoin # rest))))"

definition CoinsSafeMulInt :: "'c coins_ops \<Rightarrow> 'c \<Rightarrow> int \<Rightarrow> 'c res" where
  "CoinsSafeMulInt C coins x =
     (if x = 0 then Inl ErrInvalidAmount
      else rbind (safe_mul_loop C x (c_Coins C coins)) (\<lambda>r. Inr (c_OfCoins C r)))"

section \<open>State\<close>

datatype StakeholderType = FINALITY_PROVIDER | BTC_STAKER | COSTAKER

fun StakeholderType_byte :: "StakeholderType \<Rightarrow> byte" where
  "StakeholderType_byte FINALITY_PROVIDER = 0"
| "StakeholderType_byte BTC_STAKER = 1"
| "StakeholderType_byte COSTAKER = 2"

definition NewStakeHolderType :: "bytes \<Rightarrow> StakeholderType res" where
  "NewStakeHolderType stBytes =
     (if length stBytes \<noteq> 1 then Inl (Errorf ''invalid format for stBytes'')
      else if hd stBytes = StakeholderType_byte FINALITY_PROVIDER then Inr FINALITY_PROVIDER
      else if hd stBytes = StakeholderType_byte BTC_STAKER then Inr BTC_STAKER
      else if hd stBytes = StakeholderType_byte COSTAKER then Inr COSTAKER
      else Inl (Errorf ''invalid stBytes''))"

record 'c RewardGauge =
  rg_coins :: 'c
  rg_withdrawn_coins :: 'c

record BTCDelegationRewardsTracker =
  rt_start_period :: u64
  rt_total_active_sat :: int

record 'c FinalityProviderCurrentRewards =
  cr_current_rewards :: 'c
  cr_period :: u64
  cr_total_active_sat :: int

datatype EventPowerUpdate =
    BtcActivated string string int
  | BtcUnbonded string string int

record inc_params =
  ip_btc_staking_portion :: "dec option"
  ip_fp_portion :: "dec option"

record 'c inc_state =
  inc_params_of :: inc_params
  inc_gauges :: "(byte \<times> bytes, 'c RewardGauge) store"
  inc_btc_staking_gauge :: "(u64, 'c) store"
  inc_fp_direct_gauge :: "(u64, 'c) store"
  inc_del_to_fp :: "(bytes \<times> bytes, unit) store"
  inc_trackers :: "(bytes \<times> bytes, BTCDelegationRewardsTracker) store"
  inc_historical :: "(bytes \<times> u64, 'c) store"
  inc_current :: "(bytes, 'c FinalityProviderCurrentRewards) store"
  inc_events :: "(u64, EventPowerUpdate list) store"
  inc_last_processed :: "u64 option"
  inc_withdraw_addr :: "(bytes, bytes) store"
  inc_transfers :: "(bytes \<times> 'c) list"
  inc_deposits :: "'c list"

section \<open>Reward gauges\<close>

definition NewRewardGauge :: "'c coins_ops \<Rightarrow> 'c RewardGauge" where
  "NewRewardGauge C = \<lparr>rg_coins = c_NewCoins C, rg_withdrawn_coins = c_NewCoins C\<rparr>"

definition GetWithdrawableCoins :: "'c coins_ops \<Rightarrow> 'c RewardGauge \<Rightarrow> 'c res" where
  "GetWithdrawableCoins C rg = c_Sub C (rg_coins rg) (rg_withdrawn_coins rg)"

definition SetFullyWithdrawn :: "'c coins_ops \<Rightarrow> 'c RewardGauge \<Rightarrow> 'c RewardGauge res" where
  "SetFullyWithdrawn C rg =
     rbind (c_NewCoinsOf C (rg_coins rg)) (\<lambda>c. Inr (rg\<lparr>rg_withdrawn_coins := c\<rparr>))"

definition RewardGauge_Add :: "'c coins_ops \<Rightarrow> 'c \<Rightarrow> 'c RewardGauge \<Rightarrow> 'c RewardGauge" where
  "RewardGauge_Add C coins rg = rg\<lparr>rg_coins := c_Add C (rg_coins rg) coins\<rparr>"

definition GetRewardGauge :: "'c inc_state \<Rightarrow> StakeholderType \<Rightarrow> bytes \<Rightarrow> 'c RewardGauge option" where
  "GetRewardGauge s sType addr = kv_get (inc_gauges s) (StakeholderType_byte sType, addr)"

definition SetRewardGauge ::
  "StakeholderType \<Rightarrow> bytes \<Rightarrow> 'c RewardGauge \<Rightarrow> 'c inc_state \<Rightarrow> 'c inc_state" where
  "SetRewardGauge sType addr rg s =
     s\<lparr>inc_gauges := kv_set (StakeholderType_byte sType, addr) rg (inc_gauges s)\<rparr>"

definition accumulateRewardGauge ::
  "'c coins_ops \<Rightarrow> StakeholderType \<Rightarrow> bytes \<Rightarrow> 'c \<Rightarrow> 'c inc_state \<Rightarrow> 'c inc_state" where
  "accumulateRewardGauge C sType addr reward s =
     (if \<not> c_IsAllPositive C reward then s
      else let rg = (case GetRewardGauge s sType addr of None \<Rightarrow> NewRewardGauge C | Some rg \<Rightarrow> rg)
           in SetRewardGauge sType addr (RewardGauge_Add C reward rg) s)"

definition AccumulateRewardGaugeForFP ::
  "'c coins_ops \<Rightarrow> bytes \<Rightarrow> 'c \<Rightarrow> 'c inc_state \<Rightarrow> 'c inc_state" where
  "AccumulateRewardGaugeForFP C addr reward s = accumulateRewardGauge C FINALITY_PROVIDER addr reward s"

definition AccumulateRewardGaugeForCostaker ::
  "'c coins_ops \<Rightarrow> bytes \<Rightarrow> 'c \<Rightarrow> 'c inc_state \<Rightarrow> 'c inc_state" where
  "AccumulateRewardGaugeForCostaker C addr reward s = accumulateRewardGauge C COSTAKER addr reward s"

definition GetWithdrawAddr :: "'c inc_state \<Rightarrow> bytes \<Rightarrow> bytes" where
  "GetWithdrawAddr s addr = (case kv_get (inc_withdraw_addr s) addr of None \<Rightarrow> addr | Some b \<Rightarrow> b)"

definition SetWithdrawAddr :: "bytes \<Rightarrow> bytes \<Rightarrow> 'c inc_state \<Rightarrow> 'c inc_state" where
  "SetWithdrawAddr addr withdrawAddr s =
     s\<lparr>inc_withdraw_addr := kv_set addr withdrawAddr (inc_withdraw_addr s)\<rparr>"

definition withdrawReward ::
  "'c coins_ops \<Rightarrow> StakeholderType \<Rightarrow> bytes \<Rightarrow> 'c inc_state \<Rightarrow> ('c \<times> 'c inc_state) res" where
  "withdrawReward C sType addr s =
     (case GetRewardGauge s sType addr of
        None \<Rightarrow> Inl ErrRewardGaugeNotFound
      | Some rg \<Rightarrow>
          rbind (GetWithdrawableCoins C rg) (\<lambda>withdrawableCoins.
          if \<not> c_IsAllPositive C withdrawableCoins then Inl ErrNoWithdrawableCoins
          else
            let withdrawAddr = GetWithdrawAddr s addr
            in rbind (c_SendToAccount C withdrawAddr withdrawableCoins) (\<lambda>_.
               rbind (SetFullyWithdrawn C rg) (\<lambda>rg'.
                 let s1 = s\<lparr>inc_transfers := inc_transfers s @ [(withdrawAddr, withdrawableCoins)]\<rparr>
                 in Inr (withdrawableCoins, SetRewardGauge sType addr rg' s1)))))"

definition SetWithdrawAddress ::
  "ext \<Rightarrow> 'c coins_ops \<Rightarrow> string \<Rightarrow> string \<Rightarrow> 'c inc_state \<Rightarrow> 'c inc_state res" where
  "SetWithdrawAddress X C delegatorAddress withdrawAddress s =
     (case ext_AccAddressFromBech32 X delegatorAddress of
        Inl _ \<Rightarrow> Inl (Errorf ''invalid delegator address'')
      | Inr del \<Rightarrow>
          (case ext_AccAddressFromBech32 X withdrawAddress of
             Inl _ \<Rightarrow> Inl (Errorf ''invalid withdraw address'')
           | Inr w \<Rightarrow>
               if c_BlockedAddr C w then Inl ErrUnauthorized
               else Inr (SetWithdrawAddr del w s)))"

section \<open>Parameters\<close>

definition TotalPortion :: "dec \<Rightarrow> dec \<Rightarrow> dec" where
  "TotalPortion btcStakingPortion fpPortion = btcStakingPortion + fpPortion"

definition inc_Params_Validate :: "inc_params \<Rightarrow> unit res" where
  "inc_Params_Validate p =
     (case ip_btc_staking_portion p of
        None \<Rightarrow> Inl (Errorf ''BtcStakingPortion should not be nil'')
      | Some b \<Rightarrow>
          if b < 0 then Inl (Errorf ''BtcStakingPortion should not be negative'')
          else (case ip_fp_portion p of
                  None \<Rightarrow> Inl (Errorf ''FpPortion should not be nil'')
                | Some f \<Rightarrow>
                    if f < 0 then Inl (Errorf ''FpPortion should not be negative'')
                    else if TotalPortion b f \<ge> LegacyOneDec
                    then Inl (Errorf ''sum of all portions should be less than 1'')
                    else Inr ()))"

definition inc_UpdateParams ::
  "string \<Rightarrow> string \<Rightarrow> inc_params \<Rightarrow> 'c inc_state \<Rightarrow> 'c inc_state res" where
  "inc_UpdateParams ms_authority authority p s =
     (if ms_authority \<noteq> authority then Inl ErrInvalidSigner
      else case inc_Params_Validate p of
             Inl _ \<Rightarrow> Inl ErrInvalidProposalMsg
           | Inr _ \<Rightarrow> Inr (s\<lparr>inc_params_of := p\<rparr>))"

section \<open>The reward tracker\<close>

text \<open>The multiplier that keeps 20 decimal places of the rewards per satoshi.\<close>

definition DecimalRewards :: int where
  "DecimalRewards = 100000000000000000000"

definition setBTCDelegatorToFP :: "bytes \<Rightarrow> bytes \<Rightarrow> 'c inc_state \<Rightarrow> 'c inc_state" where
  "setBTCDelegatorToFP del fp s = s\<lparr>inc_del_to_fp := kv_set (del, fp) () (inc_del_to_fp s)\<rparr>"

definition deleteBTCDelegatorToFP :: "bytes \<Rightarrow> bytes \<Rightarrow> 'c inc_state \<Rightarrow> 'c inc_state" where
  "deleteBTCDelegatorToFP del fp s = s\<lparr>inc_del_to_fp := kv_del (del, fp) (inc_del_to_fp s)\<rparr>"

definition iterBtcDelegationsByDelegator ::
  "bytes \<Rightarrow> (bytes \<Rightarrow> bytes \<Rightarrow> 'c inc_state \<Rightarrow> 'c inc_state res) \<Rightarrow> 'c inc_state \<Rightarrow> 'c inc_state res" where
  "iterBtcDelegationsByDelegator del it s =
     rfold (\<lambda>e. it del (fst e)) (kv_prefix del (inc_del_to_fp s)) s"

definition GetFinalityProviderCurrentRewards ::
  "'c inc_state \<Rightarrow> bytes \<Rightarrow> 'c FinalityProviderCurrentRewards res" where
  "GetFinalityProviderCurrentRewards s fp =
     (case kv_get (inc_current s) fp of None \<Rightarrow> Inl ErrFPCurrentRewardsNotFound | Some v \<Rightarrow> Inr v)"

definition SetFinalityProviderCurrentRewards ::
  "bytes \<Rightarrow> 'c FinalityProviderCurrentRewards \<Rightarrow> 'c inc_state \<Rightarrow> 'c inc_state" where
  "SetFinalityProviderCurrentRewards fp rwd s = s\<lparr>inc_current := kv_set fp rwd (inc_current s)\<rparr>"

definition GetBTCDelegationRewardsTracker ::
  "'c inc_state \<Rightarrow> bytes \<Rightarrow> bytes \<Rightarrow> BTCDelegationRewardsTracker res" where
  "GetBTCDelegationRewardsTracker s fp del =
     (case kv_get (inc_trackers s) (fp, del) of
        None \<Rightarrow> Inl ErrBTCDelegationRewardsTrackerNotFound
      | Some v \<Rightarrow> Inr v)"

definition setBTCDelegationRewardsTracker ::
  "bytes \<Rightarrow> bytes \<Rightarrow> BTCDelegationRewardsTracker \<Rightarrow> 'c inc_state \<Rightarrow> 'c inc_state" where
  "setBTCDelegationRewardsTracker fp del rwd s =
     (let s1 = setBTCDelegatorToFP del fp s
      in s1\<lparr>inc_trackers := kv_set (fp, del) rwd (inc_trackers s1)\<rparr>)"

definition GetFinalityProviderHistoricalRewards :: "'c inc_state \<Rightarrow> bytes \<Rightarrow> u64 \<Rightarrow> 'c res" where
  "GetFinalityProviderHistoricalRewards s fp period =
     (case kv_get (inc_historical s) (fp, period) of
        None \<Rightarrow> Inl ErrFPHistoricalRewardsNotFound
      | Some v \<Rightarrow> Inr v)"

definition setFinalityProviderHistoricalRewards ::
  "bytes \<Rightarrow> u64 \<Rightarrow> 'c \<Rightarrow> 'c inc_state \<Rightarrow> 'c inc_state" where
  "setFinalityProviderHistoricalRewards fp period rwd s =
     s\<lparr>inc_historical := kv_set (fp, period) rwd (inc_historical s)\<rparr>"

definition AddRewards ::
  "'c coins_ops \<Rightarrow> 'c \<Rightarrow> 'c FinalityProviderCurrentRewards \<Rightarrow> 'c FinalityProviderCurrentRewards" where
  "AddRewards C coinsToAdd f = f\<lparr>cr_current_rewards := c_Add C (cr_current_rewards f) coinsToAdd\<rparr>"

definition AddFinalityProviderRewardsForBtcDelegations ::
  "'c coins_ops \<Rightarrow> bytes \<Rightarrow> 'c \<Rightarrow> 'c inc_state \<Rightarrow> 'c inc_state res" where
  "AddFinalityProviderRewardsForBtcDelegations C fp rwd s =
     rbind (GetFinalityProviderCurrentRewards s fp) (\<lambda>fpCurrentRwd.
       Inr (SetFinalityProviderCurrentRewards fp (AddRewards C rwd fpCurrentRwd) s))"

definition initializeFinalityProvider ::
  "'c coins_ops \<Rightarrow> bytes \<Rightarrow> 'c inc_state \<Rightarrow> 'c FinalityProviderCurrentRewards \<times> 'c inc_state" where
  "initializeFinalityProvider C fp s =
     (let s1 = setFinalityProviderHistoricalRewards fp 0 (c_NewCoins C) s;
          newFp = \<lparr>cr_current_rewards = c_NewCoins C, cr_period = 1, cr_total_active_sat = 0\<rparr>
      in (newFp, SetFinalityProviderCurrentRewards fp newFp s1))"

definition IncrementFinalityProviderPeriod ::
  "'c coins_ops \<Rightarrow> bytes \<Rightarrow> 'c inc_state \<Rightarrow> (u64 \<times> 'c inc_state) res" where
  "IncrementFinalityProviderPeriod C fp s =
     (case GetFinalityProviderCurrentRewards s fp of
        Inl _ \<Rightarrow> Inr (1, snd (initializeFinalityProvider C fp s))
      | Inr fpCurrentRwd \<Rightarrow>
          rbind (if cr_total_active_sat fpCurrentRwd \<noteq> 0
                 then rbind (c_MulInt C (cr_current_rewards fpCurrentRwd) DecimalRewards)
                        (\<lambda>withDecimals. c_QuoInt C withDecimals (cr_total_active_sat fpCurrentRwd))
                 else Inr (c_NewCoins C)) (\<lambda>currentRewardsPerSat.
          rbind (GetFinalityProviderHistoricalRewards s fp (cr_period fpCurrentRwd - 1)) (\<lambda>fpHistoricalRwd.
          let s1 = setFinalityProviderHistoricalRewards fp (cr_period fpCurrentRwd)
                     (c_Add C fpHistoricalRwd currentRewardsPerSat) s;
              newCurrentRwd = \<lparr>cr_current_rewards = c_NewCoins C, cr_period = cr_period fpCurrentRwd + 1,
                               cr_total_active_sat = cr_total_active_sat fpCurrentRwd\<rparr>
          in Inr (cr_period fpCurrentRwd, SetFinalityProviderCurrentRewards fp newCurrentRwd s1))))"

definition calculateDelegationRewardsBetween ::
  "'c coins_ops \<Rightarrow> 'c inc_state \<Rightarrow> bytes \<Rightarrow> BTCDelegationRewardsTracker \<Rightarrow> u64 \<Rightarrow> 'c res" where
  "calculateDelegationRewardsBetween C s fp btcDelRwdTracker endingPeriod =
     (if rt_start_period btcDelRwdTracker > endingPeriod
      then Inl (Panic ''startingPeriod cannot be greater than endingPeriod'')
      else
        rbind (GetFinalityProviderHistoricalRewards s fp (rt_start_period btcDelRwdTracker)) (\<lambda>starting.
        rbind (GetFinalityProviderHistoricalRewards s fp endingPeriod) (\<lambda>ending.
        rbind (c_Sub C ending starting) (\<lambda>differenceWithDecimals.
        if c_IsAnyNegative C differenceWithDecimals
        then Inl (Panic ''negative rewards should not be possible'')
        else
          rbind (c_MulInt C differenceWithDecimals (rt_total_active_sat btcDelRwdTracker))
            (\<lambda>rewardsWithDecimals. c_QuoInt C rewardsWithDecimals DecimalRewards)))))"

definition CalculateBTCDelegationRewards ::
  "'c coins_ops \<Rightarrow> 'c inc_state \<Rightarrow> bytes \<Rightarrow> bytes \<Rightarrow> u64 \<Rightarrow> 'c res" where
  "CalculateBTCDelegationRewards C s fp del endPeriod =
     rbind (GetBTCDelegationRewardsTracker s fp del) (\<lambda>btcDelRwdTracker.
       if rt_total_active_sat btcDelRwdTracker = 0 then Inr (c_NewCoins C)
       else calculateDelegationRewardsBetween C s fp btcDelRwdTracker endPeriod)"

definition CalculateBTCDelegationRewardsAndSendToGauge ::
  "'c coins_ops \<Rightarrow> bytes \<Rightarrow> bytes \<Rightarrow> u64 \<Rightarrow> 'c inc_state \<Rightarrow> 'c inc_state res" where
  "CalculateBTCDelegationRewardsAndSendToGauge C fp del endPeriod s =
     rbind (case CalculateBTCDelegationRewards C s fp del endPeriod of
              Inl e \<Rightarrow> (if e \<noteq> ErrBTCDelegationRewardsTrackerNotFound then Inl e else Inr (c_NewCoins C))
            | Inr r \<Rightarrow> Inr r) (\<lambda>rewards.
       if c_IsZero C rewards then Inr s
       else Inr (accumulateRewardGauge C BTC_STAKER del rewards s))"

definition initializeBTCDelegation :: "bytes \<Rightarrow> bytes \<Rightarrow> 'c inc_state \<Rightarrow> 'c inc_state res" where
  "initializeBTCDelegation fp del s =
     rbind (GetFinalityProviderCurrentRewards s fp) (\<lambda>valCurrentRewards.
     rbind (GetBTCDelegationRewardsTracker s fp del) (\<lambda>btcDelRwdTracker.
       Inr (setBTCDelegationRewardsTracker fp del
              \<lparr>rt_start_period = cr_period valCurrentRewards - 1,
               rt_total_active_sat = rt_total_active_sat btcDelRwdTracker\<rparr> s)))"

definition addFinalityProviderStaked ::
  "'c coins_ops \<Rightarrow> bytes \<Rightarrow> int \<Rightarrow> 'c inc_state \<Rightarrow> 'c inc_state" where
  "addFinalityProviderStaked C fp amt s =
     (let (fpCurrentRwd, s1) =
            (case GetFinalityProviderCurrentRewards s fp of
               Inl _ \<Rightarrow> initializeFinalityProvider C fp s
             | Inr r \<Rightarrow> (r, s))
      in SetFinalityProviderCurrentRewards fp
           (fpCurrentRwd\<lparr>cr_total_active_sat := cr_total_active_sat fpCurrentRwd + amt\<rparr>) s1)"

definition subFinalityProviderStaked :: "bytes \<Rightarrow> int \<Rightarrow> 'c inc_state \<Rightarrow> 'c inc_state res" where
  "subFinalityProviderStaked fp amt s =
     rbind (GetFinalityProviderCurrentRewards s fp) (\<lambda>fpCurrentRwd.
       let sat = cr_total_active_sat fpCurrentRwd - amt
       in if sat < 0 then Inl ErrFPCurrentRewardsTrackerNegativeAmount
          else Inr (SetFinalityProviderCurrentRewards fp (fpCurrentRwd\<lparr>cr_total_active_sat := sat\<rparr>) s))"

definition addDelegationSat ::
  "'c coins_ops \<Rightarrow> bytes \<Rightarrow> bytes \<Rightarrow> int \<Rightarrow> 'c inc_state \<Rightarrow> 'c inc_state" where
  "addDelegationSat C fp del amt s =
     (let tr = (case GetBTCDelegationRewardsTracker s fp del of
                  Inl _ \<Rightarrow> \<lparr>rt_start_period = 0, rt_total_active_sat = 0\<rparr>
                | Inr t \<Rightarrow> t);
          s1 = setBTCDelegationRewardsTracker fp del
                 (tr\<lparr>rt_total_active_sat := rt_total_active_sat tr + amt\<rparr>) s
      in addFinalityProviderStaked C fp amt s1)"

definition subDelegationSat :: "bytes \<Rightarrow> bytes \<Rightarrow> int \<Rightarrow> 'c inc_state \<Rightarrow> 'c inc_state res" where
  "subDelegationSat fp del amt s =
     rbind (GetBTCDelegationRewardsTracker s fp del) (\<lambda>tr.
       let sat = rt_total_active_sat tr - amt
       in if sat < 0 then Inl ErrBTCDelegationRewardsTrackerNegativeAmount
          else subFinalityProviderStaked fp amt
                 (setBTCDelegationRewardsTracker fp del (tr\<lparr>rt_total_active_sat := sat\<rparr>) s))"

definition btcDelegationModifiedWithPreInitDel ::
  "'c coins_ops \<Rightarrow> bytes \<Rightarrow> bytes \<Rightarrow> (bytes \<Rightarrow> bytes \<Rightarrow> 'c inc_state \<Rightarrow> 'c inc_state res) \<Rightarrow>
   'c inc_state \<Rightarrow> 'c inc_state res" where
  "btcDelegationModifiedWithPreInitDel C fp del preInitializeDelegation s =
     rbind (IncrementFinalityProviderPeriod C fp s) (\<lambda>(endedPeriod, s1).
     rbind (CalculateBTCDelegationRewardsAndSendToGauge C fp del endedPeriod s1) (\<lambda>s2.
     rbind (preInitializeDelegation fp del s2) (\<lambda>s3.
       initializeBTCDelegation fp del s3)))"

definition btcDelegationModified ::
  "'c coins_ops \<Rightarrow> bytes \<Rightarrow> bytes \<Rightarrow> 'c inc_state \<Rightarrow> 'c inc_state res" where
  "btcDelegationModified C fp del s =
     btcDelegationModifiedWithPreInitDel C fp del (\<lambda>fp del s. Inr s) s"

definition BtcDelegationActivated ::
  "'c coins_ops \<Rightarrow> bytes \<Rightarrow> bytes \<Rightarrow> int \<Rightarrow> 'c inc_state \<Rightarrow> 'c inc_state res" where
  "BtcDelegationActivated C fp del sat s =
     btcDelegationModifiedWithPreInitDel C fp del
       (\<lambda>fp del s. Inr (addDelegationSat C fp del sat s)) s"

definition BtcDelegationUnbonded ::
  "'c coins_ops \<Rightarrow> bytes \<Rightarrow> bytes \<Rightarrow> int \<Rightarrow> 'c inc_state \<Rightarrow> 'c inc_state res" where
  "BtcDelegationUnbonded C fp del sat s =
     btcDelegationModifiedWithPreInitDel C fp del (\<lambda>fp del s. subDelegationSat fp del sat s) s"

definition sendAllBtcRewardsToGauge ::
  "'c coins_ops \<Rightarrow> bytes \<Rightarrow> 'c inc_state \<Rightarrow> 'c inc_state res" where
  "sendAllBtcRewardsToGauge C del s =
     iterBtcDelegationsByDelegator del (\<lambda>del fp. btcDelegationModified C fp del) s"

definition sendAllBtcDelegationTypeToRewardsGauge ::
  "'c coins_ops \<Rightarrow> StakeholderType \<Rightarrow> bytes \<Rightarrow> 'c inc_state \<Rightarrow> 'c inc_state res" where
  "sendAllBtcDelegationTypeToRewardsGauge C sType del s =
     (if sType \<noteq> BTC_STAKER then Inr s else sendAllBtcRewardsToGauge C del s)"

definition deleteKeysFromBTCDelegationRewardsTracker ::
  "bytes \<Rightarrow> bytes list \<Rightarrow> 'c inc_state \<Rightarrow> 'c inc_state" where
  "deleteKeysFromBTCDelegationRewardsTracker fp delKeys s =
     fold (\<lambda>delKey. deleteBTCDelegatorToFP delKey fp) delKeys
       (s\<lparr>inc_trackers := kv_clear_prefix fp (inc_trackers s)\<rparr>)"

definition deleteAllFromFinalityProviderRwd :: "bytes \<Rightarrow> 'c inc_state \<Rightarrow> 'c inc_state" where
  "deleteAllFromFinalityProviderRwd fp s =
     s\<lparr>inc_historical := kv_clear_prefix fp (inc_historical s),
       inc_current := kv_del fp (inc_current s)\<rparr>"

definition FpSlashed :: "'c coins_ops \<Rightarrow> bytes \<Rightarrow> 'c inc_state \<Rightarrow> 'c inc_state res" where
  "FpSlashed C fp s =
     rbind (IncrementFinalityProviderPeriod C fp s) (\<lambda>(endedPeriod, s1).
       let dels = map fst (kv_prefix fp (inc_trackers s1))
       in rbind (rfold (\<lambda>del. CalculateBTCDelegationRewardsAndSendToGauge C fp del endedPeriod) dels s1)
            (\<lambda>s2. Inr (deleteAllFromFinalityProviderRwd fp
                         (deleteKeysFromBTCDelegationRewardsTracker fp dels s2))))"

section \<open>Reward tracker events\<close>

definition GetOrNewRewardTrackerEvent :: "'c inc_state \<Rightarrow> u64 \<Rightarrow> EventPowerUpdate list" where
  "GetOrNewRewardTrackerEvent s height =
     (case kv_get (inc_events s) height of None \<Rightarrow> [] | Some evs \<Rightarrow> evs)"

definition SetRewardTrackerEvent ::
  "u64 \<Rightarrow> EventPowerUpdate list \<Rightarrow> 'c inc_state \<Rightarrow> 'c inc_state" where
  "SetRewardTrackerEvent height ev s = s\<lparr>inc_events := kv_set height ev (inc_events s)\<rparr>"

definition DeleteRewardTrackerEvents :: "u64 \<Rightarrow> 'c inc_state \<Rightarrow> 'c inc_state" where
  "DeleteRewardTrackerEvents height s = s\<lparr>inc_events := kv_del height (inc_events s)\<rparr>"

definition AddRewardTrackerEvent :: "u64 \<Rightarrow> EventPowerUpdate \<Rightarrow> 'c inc_state \<Rightarrow> 'c inc_state" where
  "AddRewardTrackerEvent height newEv s =
     SetRewardTrackerEvent height (GetOrNewRewardTrackerEvent s height @ [newEv]) s"

definition AddEventBtcDelegationActivated ::
  "ext \<Rightarrow> u64 \<Rightarrow> bytes \<Rightarrow> bytes \<Rightarrow> u64 \<Rightarrow> 'c inc_state \<Rightarrow> 'c inc_state" where
  "AddEventBtcDelegationActivated X height fp del sat s =
     AddRewardTrackerEvent height
       (BtcActivated (ext_AccAddressString X fp) (ext_AccAddressString X del) (uint sat)) s"

definition AddEventBtcDelegationUnbonded ::
  "ext \<Rightarrow> u64 \<Rightarrow> bytes \<Rightarrow> bytes \<Rightarrow> u64 \<Rightarrow> 'c inc_state \<Rightarrow> 'c inc_state" where
  "AddEventBtcDelegationUnbonded X height fp del sat s =
     AddRewardTrackerEvent height
       (BtcUnbonded (ext_AccAddressString X fp) (ext_AccAddressString X del) (uint sat)) s"

definition MustAccAddressFromBech32 :: "ext \<Rightarrow> string \<Rightarrow> bytes res" where
  "MustAccAddressFromBech32 X a =
     (case ext_AccAddressFromBech32 X a of Inl _ \<Rightarrow> Inl (Panic ''invalid bech32 address'') | Inr b \<Rightarrow> Inr b)"

fun process_event :: "ext \<Rightarrow> 'c coins_ops \<Rightarrow> EventPowerUpdate \<Rightarrow> 'c inc_state \<Rightarrow> 'c inc_state res" where
  "process_event X C (BtcActivated fpAddr delAddr sat) s =
     rbind (MustAccAddressFromBech32 X fpAddr) (\<lambda>fp.
     rbind (MustAccAddressFromBech32 X delAddr) (\<lambda>del. BtcDelegationActivated C fp del sat s))"
| "process_event X C (BtcUnbonded fpAddr delAddr sat) s =
     rbind (MustAccAddressFromBech32 X fpAddr) (\<lambda>fp.
     rbind (MustAccAddressFromBech32 X delAddr) (\<lambda>del. BtcDelegationUnbonded C fp del sat s))"

definition ProcessRewardTrackerEventsAtHeight ::
  "ext \<Rightarrow> 'c coins_ops \<Rightarrow> u64 \<Rightarrow> 'c inc_state \<Rightarrow> 'c inc_state res" where
  "ProcessRewardTrackerEventsAtHeight X C height s =
     rbind (rfold (process_event X C) (GetOrNewRewardTrackerEvent s height) s) (\<lambda>s1.
       Inr (DeleteRewardTrackerEvents height s1))"

definition GetRewardTrackerEventLastProcessedHeight :: "'c inc_state \<Rightarrow> u64" where
  "GetRewardTrackerEventLastProcessedHeight s =
     (case inc_last_processed s of None \<Rightarrow> 0 | Some h \<Rightarrow> h)"

definition ProcessRewardTrackerEvents ::
  "ext \<Rightarrow> 'c coins_ops \<Rightarrow> u64 \<Rightarrow> 'c inc_state \<Rightarrow> 'c inc_state res" where
  "ProcessRewardTrackerEvents X C untilBlkHeight s =
     rbind (rfold (ProcessRewardTrackerEventsAtHeight X C)
              (range_u64 (GetRewardTrackerEventLastProcessedHeight s + 1) untilBlkHeight) s) (\<lambda>s1.
       Inr (s1\<lparr>inc_last_processed := Some untilBlkHeight\<rparr>))"

fun compile_event ::
  "(string \<Rightarrow> bool) \<Rightarrow> EventPowerUpdate \<Rightarrow> (string, int) store \<Rightarrow> (string, int) store" where
  "compile_event flt (BtcActivated fpAddr delAddr sat) m =
     (if \<not> flt fpAddr then m
      else kv_set delAddr ((case kv_get m delAddr of None \<Rightarrow> 0 | Some c \<Rightarrow> c) + sat) m)"
| "compile_event flt (BtcUnbonded fpAddr delAddr sat) m =
     (if \<not> flt fpAddr then m
      else kv_set delAddr ((case kv_get m delAddr of None \<Rightarrow> 0 | Some c \<Rightarrow> c) - sat) m)"

definition GetRewardTrackerEventsCompiledByBtcDel ::
  "'c inc_state \<Rightarrow> u64 \<Rightarrow> (string \<Rightarrow> bool) \<Rightarrow> (string, int) store" where
  "GetRewardTrackerEventsCompiledByBtcDel s untilBlkHeight flt =
     fold (\<lambda>h. fold (compile_event flt) (GetOrNewRewardTrackerEvent s h))
       (range_u64 (GetRewardTrackerEventLastProcessedHeight s + 1) untilBlkHeight) []"

section \<open>Hooks and rewards of a block\<close>

definition AfterBtcDelegationActivated_inc ::
  "ext \<Rightarrow> ctx \<Rightarrow> bytes \<Rightarrow> bytes \<Rightarrow> u64 \<Rightarrow> 'c inc_state \<Rightarrow> 'c inc_state" where
  "AfterBtcDelegationActivated_inc X cx fpAddr btcDelAddr sats s =
     AddEventBtcDelegationActivated X (to_u64 (ctx_height cx)) fpAddr btcDelAddr sats s"

definition AfterBtcDelegationUnbonded_inc ::
  "ext \<Rightarrow> ctx \<Rightarrow> bytes \<Rightarrow> bytes \<Rightarrow> u64 \<Rightarrow> 'c inc_state \<Rightarrow> 'c inc_state" where
  "AfterBtcDelegationUnbonded_inc X cx fpAddr btcDelAddr sats s =
     AddEventBtcDelegationUnbonded X (to_u64 (ctx_height cx)) fpAddr btcDelAddr sats s"

definition voters_of :: "VotingPowerDistCache \<Rightarrow> (string, unit) store \<Rightarrow> FinalityProviderDistInfo list" where
  "voters_of dc voters =
     filter (\<lambda>fp. kv_has voters (MarshalHex (di_btc_pk fp)))
       (take (unat (dc_num_active_fps dc)) (dc_finality_providers dc))"

definition reward_fp ::
  "'c coins_ops \<Rightarrow> 'c \<Rightarrow> 'c \<Rightarrow> u64 \<Rightarrow> FinalityProviderDistInfo \<Rightarrow> 'c inc_state \<Rightarrow> 'c inc_state res" where
  "reward_fp C gauge fpDirectGauge totalVotingPowerOfVoters fp s =
     rbind (c_DecQuoTruncate C (to_i64 (di_total_bonded_sat fp) * LegacyOneDec)
              (to_i64 totalVotingPowerOfVoters * LegacyOneDec)) (\<lambda>fpPortion.
     let coinsForFpsAndDels = GetCoinsPortion C gauge fpPortion
     in (case di_commission fp of
           None \<Rightarrow> Inl (Panic ''nil pointer dereference'')
         | Some commission \<Rightarrow>
             let coinsForCommission = GetCoinsPortion C coinsForFpsAndDels commission;
                 coinsForFpDirect = GetCoinsPortion C fpDirectGauge fpPortion;
                 totalCoinsForFp = c_Add C coinsForCommission coinsForFpDirect;
                 s1 = accumulateRewardGauge C FINALITY_PROVIDER (di_addr fp) totalCoinsForFp s
             in rbind (c_Sub C coinsForFpsAndDels coinsForCommission) (\<lambda>coinsForBTCDels.
                  case AddFinalityProviderRewardsForBtcDelegations C (di_addr fp) coinsForBTCDels s1 of
                    Inl _ \<Rightarrow> Inl (Panic ''failed to add fp rewards for btc delegation'')
                  | Inr s2 \<Rightarrow> Inr s2)))"

definition RewardBTCStaking ::
  "ext \<Rightarrow> 'c coins_ops \<Rightarrow> u64 \<Rightarrow> VotingPowerDistCache \<Rightarrow> (string, unit) store \<Rightarrow> 'c inc_state \<Rightarrow>
   'c inc_state res" where
  "RewardBTCStaking X C height dc voters s =
     (let gauge = (case kv_get (inc_btc_staking_gauge s) height of None \<Rightarrow> c_NewCoins C | Some g \<Rightarrow> g);
          fpDirectGauge = (case kv_get (inc_fp_direct_gauge s) height of None \<Rightarrow> c_NewCoins C | Some g \<Rightarrow> g);
          totalVotingPowerOfVoters = sum_list (map di_total_bonded_sat (voters_of dc voters))
      in case ProcessRewardTrackerEvents X C height s of
           Inl _ \<Rightarrow> Inl (Panic ''failed to process reward tracker events'')
         | Inr s1 \<Rightarrow>
             rbind (rfold (reward_fp C gauge fpDirectGauge totalVotingPowerOfVoters)
                      (voters_of dc voters) s1) (\<lambda>s2.
               Inr (s2\<lparr>inc_btc_staking_gauge := kv_del height (inc_btc_staking_gauge s2),
                        inc_fp_direct_gauge := kv_del height (inc_fp_direct_gauge s2)\<rparr>)))"

definition accumulateRewards ::
  "ctx \<Rightarrow> 'c coins_ops \<Rightarrow> 'c \<Rightarrow> 'c \<Rightarrow> 'c inc_state \<Rightarrow> 'c inc_state res" where
  "accumulateRewards cx C btcStakingReward fpDirectRewards s =
     (let height = to_u64 (ctx_height cx);
          s1 = s\<lparr>inc_btc_staking_gauge := kv_set height btcStakingReward (inc_btc_staking_gauge s)\<rparr>;
          s2 = (if c_IsAllPositive C fpDirectRewards
                then s1\<lparr>inc_fp_direct_gauge := kv_set height fpDirectRewards (inc_fp_direct_gauge s1)\<rparr>
                else s1);
          totalRwds = c_Add C btcStakingReward fpDirectRewards
      in if c_IsAllPositive C totalRwds
         then (case c_SendToIncentive C totalRwds of
                 Inl _ \<Rightarrow> Inl (Panic ''transfer from the fee collector failed'')
               | Inr _ \<Rightarrow> Inr (s2\<lparr>inc_deposits := inc_deposits s2 @ [totalRwds]\<rparr>))
         else Inr s2)"

definition HandleCoinsInFeeCollector ::
  "ctx \<Rightarrow> 'c coins_ops \<Rightarrow> 'c \<Rightarrow> 'c inc_state \<Rightarrow> 'c inc_state res" where
  "HandleCoinsInFeeCollector cx C feesCollectedInt s =
     (if \<not> c_IsAllPositive C feesCollectedInt then Inr s
      else
        let fpsDirectRwds = (case ip_fp_portion (inc_params_of s) of
                               None \<Rightarrow> c_NewCoins C
                             | Some p \<Rightarrow> GetCoinsPortion C feesCollectedInt p)
        in case ip_btc_staking_portion (inc_params_of s) of
             None \<Rightarrow> Inl (Panic ''nil pointer dereference'')
           | Some p \<Rightarrow>
               accumulateRewards cx C (GetCoinsPortion C feesCollectedInt p) fpsDirectRwds s)"

text \<open>An instance of the coins: amounts of one denomination.\<close>

definition int_coins :: "int coins_ops" where
  "int_coins = \<lparr>c_NewCoins = 0, c_NewCoinsOf = Inr, c_Add = (+),
     c_Sub = (\<lambda>a b. if a < b then Inl (Panic ''negative coin amount'') else Inr (a - b)),
     c_MulInt = (\<lambda>a n. Inr (a * n)),
     c_QuoInt = (\<lambda>a n. if n = 0 then Inl (Panic ''division by zero'') else Inr (a div n)),
     c_IsZero = (\<lambda>a. a = 0), c_IsAllPositive = (\<lambda>a. 0 < a), c_IsAnyNegative = (\<lambda>a. a < 0),
     c_NewDecCoinsFromCoins = (\<lambda>a. [(''anc'', a * 10 ^ 18)]),
     c_MulDecTruncate = (\<lambda>ds r. map (\<lambda>(d, x). (d, x * r div 10 ^ 18)) ds),
     c_TruncateDecimal = (\<lambda>ds. (sum_list (map (\<lambda>(_, x). x div 10 ^ 18) ds), map (\<lambda>(d, x). (d, x mod 10 ^ 18)) ds)),
     c_DecQuoTruncate = (\<lambda>a b. if b = 0 then Inl (Panic ''division by zero'') else Inr (a * 10 ^ 18 div b)),
     c_SendToAccount = (\<lambda>_ _. Inr ()), c_SendToIncentive = (\<lambda>_. Inr ()), c_BlockedAddr = (\<lambda>_. False),
     c_IsValid = (\<lambda>a. 0 \<le> a), c_Coins = (\<lambda>a. [(''anc'', a)]), c_OfCoins = (\<lambda>cs. sum_list (map snd cs)),
     c_SafeMul = (\<lambda>a b. Inr (a * b)), c_CoinValidate = (\<lambda>_ a. if a < 0 then Inl (Errorf ''negative amount'') else Inr ()),
     c_SendCostakingToIncentive = (\<lambda>_. Inr ()), c_SendFeesToCostaking = (\<lambda>_. Inr ())\<rparr>"

end
