(* ===== verification/Costaking.thy ===== *)
theory Costaking
  imports Incentive "HOL-Library.Signed_Division"
begin

text \<open>
  The costaking module (\<open>x/costaking\<close>): one reward pool shared by all costakers in proportion to
  their score, the minimum of the satoshis and of the native tokens (over a ratio) they stake.

  The module's state holds the state of the incentive module, which it calls.  Several of its
  functions are called from hooks that only log their error, so they are computations that keep
  their writes (\<open>act\<close>).  Payments of the bank to the account of the module are recorded in
  \<open>cs_deposits\<close>, those from it, all to the incentive module, in \<open>cs_paid\<close>.  The staking keeper of the Cosmos SDK is the record \<open>stk_ext\<close>.
\<close>

section \<open>State\<close>

record CostakerRewardsTracker =
  ct_start_period :: u64
  ct_active_satoshis :: int
  ct_active_ntk :: int
  ct_total_score :: int

record 'c CurrentRewards =
  cur_rewards :: 'c
  cur_period :: u64
  cur_total_score :: int

record cos_params =
  cp_costaking_portion :: "dec option"
  cp_score_ratio :: "int option"
  cp_validators_portion :: "dec option"

record StakeInfo =
  si_amount :: dec
  si_shares :: dec

record StakingCache =
  sc_stk_info :: "(string, (string, StakeInfo) store) store"
  sc_active_val_set :: "(string, unit) store option"

record cos_validator =
  cv_addr :: bytes
  cv_tokens :: int
  cv_shares :: dec

record 'c cos_state =
  cs_inc :: "'c inc_state"
  cs_params :: "cos_params option"
  cs_current :: "'c CurrentRewards option"
  cs_historical :: "(u64, 'c) store"
  cs_trackers :: "(bytes, CostakerRewardsTracker) store"
  cs_validator_set :: "cos_validator list option"
  cs_stk_cache :: StakingCache
  cs_deposits :: "'c list"
  cs_paid :: "'c list"

record stk_val =
  sv_operator :: string
  sv_tokens :: int
  sv_shares :: dec

record stk_ext =
  stk_GetValidator :: "bytes \<Rightarrow> stk_val res"
  stk_GetDelegation :: "bytes \<Rightarrow> bytes \<Rightarrow> dec res"
  stk_GetValidatorDelegations :: "bytes \<Rightarrow> (string \<times> dec) list res"
  stk_LastValidators :: "bytes list res"
  stk_TokensFromShares :: "stk_val \<Rightarrow> dec \<Rightarrow> dec"
  stk_TruncateInt :: "dec \<Rightarrow> int"
  stk_DecMulInt :: "dec \<Rightarrow> int \<Rightarrow> dec"
  stk_ValAddressString :: "bytes \<Rightarrow> string"
  stk_ValAddressFromBech32 :: "string \<Rightarrow> bytes res"

section \<open>Parameters\<close>

definition validatePercentage :: "dec option \<Rightarrow> unit res" where
  "validatePercentage percentage =
     (case percentage of
        None \<Rightarrow> Inl ErrInvalidPercentage
      | Some p \<Rightarrow>
          if p \<ge> LegacyOneDec then Inl ErrPercentageTooHigh
          else if p < 0 then Inl ErrInvalidPercentage
          else Inr ())"

definition dec_add :: "dec option \<Rightarrow> dec option \<Rightarrow> dec option" where
  "dec_add a b = (case (a, b) of (Some x, Some y) \<Rightarrow> Some (x + y) | _ \<Rightarrow> None)"

definition cos_Params_Validate :: "cos_params \<Rightarrow> unit res" where
  "cos_Params_Validate p =
     rbind (validatePercentage (cp_costaking_portion p)) (\<lambda>_.
     rbind (validatePercentage (cp_validators_portion p)) (\<lambda>_.
     rbind (validatePercentage (dec_add (cp_costaking_portion p) (cp_validators_portion p))) (\<lambda>_.
       case cp_score_ratio p of
         None \<Rightarrow> Inl ErrInvalidScoreRatioBtcByNtk
       | Some r \<Rightarrow> if r < 1 then Inl ErrScoreRatioTooLow else Inr ())))"

definition cos_GetParams :: "('c cos_state, cos_params) act" where
  "cos_GetParams s =
     (case cs_params s of None \<Rightarrow> (Inl (Panic ''params not found''), s) | Some p \<Rightarrow> (Inr p, s))"

definition cos_SetParams :: "cos_params \<Rightarrow> ('c cos_state, unit) act" where
  "cos_SetParams p =
     act_bind (act_res (cos_Params_Validate p)) (\<lambda>_. act_modify (\<lambda>s. s\<lparr>cs_params := Some p\<rparr>))"

section \<open>Scores\<close>

definition CalculateScore :: "int \<Rightarrow> int \<Rightarrow> int \<Rightarrow> int res" where
  "CalculateScore scoreRatioBtcByNtk activeNtk activeSats =
     (if scoreRatioBtcByNtk = 0 then Inl (Panic ''division by zero'')
      else Inr (min activeSats (activeNtk sdiv scoreRatioBtcByNtk)))"

definition UpdateScore :: "int \<Rightarrow> CostakerRewardsTracker \<Rightarrow> (int \<times> CostakerRewardsTracker) res" where
  "UpdateScore scoreRatioBtcByNtk c =
     rbind (CalculateScore scoreRatioBtcByNtk (ct_active_ntk c) (ct_active_satoshis c)) (\<lambda>t.
       Inr (t - ct_total_score c, c\<lparr>ct_total_score := t\<rparr>))"

definition Sanitize :: "CostakerRewardsTracker \<Rightarrow> CostakerRewardsTracker" where
  "Sanitize crt = (if ct_active_ntk crt = -1 then crt\<lparr>ct_active_ntk := 0\<rparr> else crt)"

definition CostakerRewardsTracker_Validate :: "CostakerRewardsTracker \<Rightarrow> unit res" where
  "CostakerRewardsTracker_Validate crt =
     (if ct_total_score crt < 0 then Inl ErrInvalidCostakerRwdTracker
      else if ct_active_ntk crt < 0 then Inl ErrInvalidCostakerRwdTracker
      else if ct_active_satoshis crt < 0 then Inl ErrInvalidCostakerRwdTracker
      else Inr ())"

definition CurrentRewards_Validate :: "'c coins_ops \<Rightarrow> 'c CurrentRewards \<Rightarrow> unit res" where
  "CurrentRewards_Validate C cr =
     (if \<not> c_IsValid C (cur_rewards cr) then Inl (Errorf ''invalid rewards'')
      else if c_IsAnyNegative C (cur_rewards cr) then Inl (Errorf ''rewards cannot be negative'')
      else if cur_total_score cr < 0 then Inl (Errorf ''total score must be non-negative'')
      else Inr ())"

definition CurrentRewards_AddRewards :: "'c coins_ops \<Rightarrow> 'c \<Rightarrow> 'c CurrentRewards \<Rightarrow> 'c CurrentRewards res" where
  "CurrentRewards_AddRewards C coinsToAdd f =
     rbind (CoinsSafeMulInt C coinsToAdd DecimalRewards) (\<lambda>withDecimals.
       Inr (f\<lparr>cur_rewards := c_Add C (cur_rewards f) withDecimals\<rparr>))"

section \<open>Stores\<close>

definition GetHistoricalRewards :: "u64 \<Rightarrow> ('c cos_state, 'c) act" where
  "GetHistoricalRewards period s =
     (case kv_get (cs_historical s) period of None \<Rightarrow> (Inl ErrNotFound, s) | Some h \<Rightarrow> (Inr h, s))"

definition setHistoricalRewards :: "u64 \<Rightarrow> 'c \<Rightarrow> ('c cos_state, unit) act" where
  "setHistoricalRewards period histRwd =
     act_modify (\<lambda>s. s\<lparr>cs_historical := kv_set period histRwd (cs_historical s)\<rparr>)"

definition setCostakerRewardsTracker ::
  "bytes \<Rightarrow> CostakerRewardsTracker \<Rightarrow> ('c cos_state, unit) act" where
  "setCostakerRewardsTracker addr rwdTracker =
     act_modify (\<lambda>s. s\<lparr>cs_trackers := kv_set addr rwdTracker (cs_trackers s)\<rparr>)"

definition SetCurrentRewards :: "'c CurrentRewards \<Rightarrow> ('c cos_state, unit) act" where
  "SetCurrentRewards currentRwd = act_modify (\<lambda>s. s\<lparr>cs_current := Some currentRwd\<rparr>)"

definition GetCurrentRewards :: "('c cos_state, 'c CurrentRewards) act" where
  "GetCurrentRewards s =
     (case cs_current s of None \<Rightarrow> (Inl ErrNotFound, s) | Some r \<Rightarrow> (Inr r, s))"

definition GetCostakerRewards :: "bytes \<Rightarrow> ('c cos_state, CostakerRewardsTracker) act" where
  "GetCostakerRewards costaker s =
     (case kv_get (cs_trackers s) costaker of None \<Rightarrow> (Inl ErrNotFound, s) | Some t \<Rightarrow> (Inr t, s))"

definition initializeCurrentRewards :: "'c coins_ops \<Rightarrow> ('c cos_state, 'c CurrentRewards) act" where
  "initializeCurrentRewards C =
     act_bind (setHistoricalRewards 0 (c_NewCoins C)) (\<lambda>_.
       let curRwd = \<lparr>cur_rewards = c_NewCoins C, cur_period = 1, cur_total_score = 0\<rparr>
       in act_bind (SetCurrentRewards curRwd) (\<lambda>_. act_return curRwd))"

definition GetCurrentRewardsInitialized :: "'c coins_ops \<Rightarrow> ('c cos_state, 'c CurrentRewards) act" where
  "GetCurrentRewardsInitialized C s =
     (case cs_current s of None \<Rightarrow> initializeCurrentRewards C s | Some r \<Rightarrow> (Inr r, s))"

definition GetCostakerRewardsOrInitialize ::
  "'c coins_ops \<Rightarrow> bytes \<Rightarrow> ('c cos_state, CostakerRewardsTracker) act" where
  "GetCostakerRewardsOrInitialize C costaker s =
     (case kv_get (cs_trackers s) costaker of
        Some t \<Rightarrow> (Inr t, s)
      | None \<Rightarrow>
          act_bind (GetCurrentRewardsInitialized C) (\<lambda>currentRwd.
            act_return \<lparr>ct_start_period = cur_period currentRwd, ct_active_satoshis = 0,
                        ct_active_ntk = 0, ct_total_score = 0\<rparr>) s)"

section \<open>The reward pool\<close>

definition AddRewardsForCostakers :: "'c coins_ops \<Rightarrow> 'c \<Rightarrow> ('c cos_state, unit) act" where
  "AddRewardsForCostakers C rwdToAdd =
     act_bind (GetCurrentRewardsInitialized C) (\<lambda>currentRwd.
     act_bind (act_res (CurrentRewards_AddRewards C rwdToAdd currentRwd)) (\<lambda>r.
       SetCurrentRewards r))"

definition IncrementRewardsPeriod :: "'c coins_ops \<Rightarrow> ('c cos_state, u64) act" where
  "IncrementRewardsPeriod C =
     act_bind (GetCurrentRewardsInitialized C) (\<lambda>currentRwd.
     act_bind (act_res (if cur_total_score currentRwd \<noteq> 0
                        then c_QuoInt C (cur_rewards currentRwd) (cur_total_score currentRwd)
                        else Inr (c_NewCoins C))) (\<lambda>currentRewardsPerScore.
     act_bind (GetHistoricalRewards (cur_period currentRwd - 1)) (\<lambda>historicalRwd.
     act_bind (setHistoricalRewards (cur_period currentRwd)
                 (c_Add C historicalRwd currentRewardsPerScore)) (\<lambda>_.
     act_bind (SetCurrentRewards \<lparr>cur_rewards = c_NewCoins C, cur_period = cur_period currentRwd + 1,
                                  cur_total_score = cur_total_score currentRwd\<rparr>) (\<lambda>_.
       act_return (cur_period currentRwd))))))"

definition calculateCoStakerRewardsBetween ::
  "'c coins_ops \<Rightarrow> CostakerRewardsTracker \<Rightarrow> u64 \<Rightarrow> ('c cos_state, 'c) act" where
  "calculateCoStakerRewardsBetween C costakerRwdTracker endingPeriod =
     (if ct_start_period costakerRwdTracker > endingPeriod then act_fail ErrInvalidPeriod
      else
        act_bind (GetHistoricalRewards (ct_start_period costakerRwdTracker)) (\<lambda>starting.
        act_bind (GetHistoricalRewards endingPeriod) (\<lambda>ending.
        act_bind (act_res (case c_Sub C ending starting of Inl _ \<Rightarrow> Inl ErrNegativeRewards | Inr d \<Rightarrow> Inr d))
          (\<lambda>differenceWithDecimals.
        act_bind (act_res (CoinsSafeMulInt C differenceWithDecimals (ct_total_score costakerRwdTracker)))
          (\<lambda>rewardsWithDecimals. act_res (c_QuoInt C rewardsWithDecimals DecimalRewards))))))"

definition CalculateCostakerRewards :: "'c coins_ops \<Rightarrow> bytes \<Rightarrow> u64 \<Rightarrow> ('c cos_state, 'c) act" where
  "CalculateCostakerRewards C costaker endPeriod s =
     (case kv_get (cs_trackers s) costaker of
        None \<Rightarrow> (Inr (c_NewCoins C), s)
      | Some t \<Rightarrow>
          if ct_total_score t = 0 then (Inr (c_NewCoins C), s)
          else calculateCoStakerRewardsBetween C t endPeriod s)"

definition CalculateCostakerRewardsAndSendToGauge ::
  "'c coins_ops \<Rightarrow> bytes \<Rightarrow> u64 \<Rightarrow> ('c cos_state, unit) act" where
  "CalculateCostakerRewardsAndSendToGauge C costaker endPeriod =
     act_bind (CalculateCostakerRewards C costaker endPeriod) (\<lambda>rewards.
       if c_IsZero C rewards then act_return ()
       else act_bind (act_modify (\<lambda>s. s\<lparr>cs_inc := AccumulateRewardGaugeForCostaker C costaker rewards (cs_inc s)\<rparr>))
              (\<lambda>_. act_bind (act_res (c_SendCostakingToIncentive C rewards)) (\<lambda>_.
                 act_modify (\<lambda>s. s\<lparr>cs_inc := (cs_inc s)\<lparr>inc_deposits := inc_deposits (cs_inc s) @ [rewards]\<rparr>,
                                        cs_paid := cs_paid s @ [rewards]\<rparr>))))"

definition initializeCoStakerRwdTracker :: "bytes \<Rightarrow> ('c cos_state, unit) act" where
  "initializeCoStakerRwdTracker costaker =
     act_bind GetCurrentRewards (\<lambda>currentRwd.
     act_bind (GetCostakerRewards costaker) (\<lambda>t.
       setCostakerRewardsTracker costaker (t\<lparr>ct_start_period := cur_period currentRwd - 1\<rparr>)))"

definition costakerModifiedScoreWithPreInitalization ::
  "'c coins_ops \<Rightarrow> bytes \<Rightarrow> (bytes \<Rightarrow> ('c cos_state, unit) act) \<Rightarrow> ('c cos_state, unit) act" where
  "costakerModifiedScoreWithPreInitalization C costaker preInitializeCostaker =
     act_bind (IncrementRewardsPeriod C) (\<lambda>endedPeriod.
     act_bind (CalculateCostakerRewardsAndSendToGauge C costaker endedPeriod) (\<lambda>_.
     act_bind (preInitializeCostaker costaker) (\<lambda>_.
       initializeCoStakerRwdTracker costaker)))"

definition costakerModified ::
  "'c coins_ops \<Rightarrow> bytes \<Rightarrow> (CostakerRewardsTracker \<Rightarrow> CostakerRewardsTracker) \<Rightarrow> ('c cos_state, unit) act" where
  "costakerModified C costaker modifyCostaker =
     act_bind (GetCostakerRewardsOrInitialize C costaker) (\<lambda>rwdTracker0.
     let rwdTracker1 = Sanitize (modifyCostaker rwdTracker0)
     in act_bind (act_res (case CostakerRewardsTracker_Validate rwdTracker1 of
                             Inl _ \<Rightarrow> Inl (Errorf ''failed to validate costaker'')
                           | Inr u \<Rightarrow> Inr u)) (\<lambda>_.
        act_bind cos_GetParams (\<lambda>params.
        act_bind (act_res (case cp_score_ratio params of
                             None \<Rightarrow> Inl (Panic ''nil pointer dereference'')
                           | Some r \<Rightarrow> UpdateScore r rwdTracker1)) (\<lambda>(deltaScoreChange, rwdTracker).
          if deltaScoreChange = 0 then setCostakerRewardsTracker costaker rwdTracker
          else
            costakerModifiedScoreWithPreInitalization C costaker (\<lambda>costaker.
              act_bind (setCostakerRewardsTracker costaker rwdTracker) (\<lambda>_.
              act_bind GetCurrentRewards (\<lambda>curRwd0.
              let curRwd = curRwd0\<lparr>cur_total_score := cur_total_score curRwd0 + deltaScoreChange\<rparr>
              in act_bind (act_res (CurrentRewards_Validate C curRwd)) (\<lambda>_.
                   SetCurrentRewards curRwd)))))))) "

definition costakerModifiedActiveAmounts ::
  "'c coins_ops \<Rightarrow> bytes \<Rightarrow> int \<Rightarrow> int \<Rightarrow> ('c cos_state, unit) act" where
  "costakerModifiedActiveAmounts C costaker newActiveSatoshi newActiveNtk =
     costakerModified C costaker
       (\<lambda>t. t\<lparr>ct_active_ntk := newActiveNtk, ct_active_satoshis := newActiveSatoshi\<rparr>)"

definition costakerWithdrawRewards :: "'c coins_ops \<Rightarrow> bytes \<Rightarrow> ('c cos_state, unit) act" where
  "costakerWithdrawRewards C costaker =
     costakerModifiedScoreWithPreInitalization C costaker (\<lambda>costaker. act_return ())"

section \<open>Changing the score ratio\<close>

definition UpdateCurrentRewardsTotalScore :: "'c coins_ops \<Rightarrow> int \<Rightarrow> ('c cos_state, unit) act" where
  "UpdateCurrentRewardsTotalScore C totalScore =
     act_bind (IncrementRewardsPeriod C) (\<lambda>_.
     act_bind GetCurrentRewards (\<lambda>currentRwd.
       SetCurrentRewards (currentRwd\<lparr>cur_total_score := totalScore\<rparr>)))"

text \<open>The loop over all costakers; the running total is its accumulator.  The entries are those of
  the store when the walk starts: the body for one costaker writes no other costaker's tracker.\<close>

fun update_scores_loop ::
  "'c coins_ops \<Rightarrow> int \<Rightarrow> u64 \<Rightarrow> (bytes \<times> CostakerRewardsTracker) list \<Rightarrow> int \<Rightarrow> ('c cos_state, int) act" where
  "update_scores_loop C ratio endedPeriod [] totalScore = act_return totalScore"
| "update_scores_loop C ratio endedPeriod ((costaker, t) # rest) totalScore =
     act_bind (act_res (UpdateScore ratio t)) (\<lambda>(deltaScoreChange, rwdTracker).
     act_bind (if deltaScoreChange = 0 then setCostakerRewardsTracker costaker rwdTracker
               else
                 act_bind (CalculateCostakerRewardsAndSendToGauge C costaker endedPeriod) (\<lambda>_.
                 act_bind (setCostakerRewardsTracker costaker rwdTracker) (\<lambda>_.
                   initializeCoStakerRwdTracker costaker))) (\<lambda>_.
       update_scores_loop C ratio endedPeriod rest (totalScore + ct_total_score rwdTracker)))"

definition UpdateAllCostakersScore :: "'c coins_ops \<Rightarrow> int \<Rightarrow> ('c cos_state, unit) act" where
  "UpdateAllCostakersScore C scoreRatioBtcByNtk =
     act_bind (IncrementRewardsPeriod C) (\<lambda>endedPeriod.
     act_bind GetCurrentRewards (\<lambda>currentRwd.
     act_bind (act_get cs_trackers) (\<lambda>trackers.
     act_bind (update_scores_loop C scoreRatioBtcByNtk endedPeriod trackers 0) (\<lambda>totalScore.
     act_bind (act_res (CurrentRewards_Validate C (currentRwd\<lparr>cur_total_score := totalScore\<rparr>))) (\<lambda>_.
       UpdateCurrentRewardsTotalScore C totalScore)))))"

text \<open>\<open>UpdateParams\<close>; an error rejects the whole message, so that nothing of it is kept.\<close>

definition cos_UpdateParams ::
  "'c coins_ops \<Rightarrow> string \<Rightarrow> string \<Rightarrow> cos_params \<Rightarrow> 'c cos_state \<Rightarrow> 'c cos_state res" where
  "cos_UpdateParams C ms_authority authority p s =
     (if ms_authority \<noteq> authority then Inl ErrInvalidSigner
      else case cos_Params_Validate p of
             Inl _ \<Rightarrow> Inl ErrInvalidProposalMsg
           | Inr _ \<Rightarrow>
               (case cs_params s of
                  None \<Rightarrow> Inl (Panic ''params not found'')
                | Some currentParams \<Rightarrow>
                    (case cp_score_ratio p of
                       None \<Rightarrow> Inl (Panic ''nil pointer dereference'')
                     | Some ratio \<Rightarrow>
                         (case (if cp_score_ratio p \<noteq> cp_score_ratio currentParams
                                then UpdateAllCostakersScore C ratio s else (Inr (), s)) of
                            (Inl e, _) \<Rightarrow> Inl ErrInvalidProposalMsg
                          | (Inr _, s1) \<Rightarrow>
                              (case cos_SetParams p s1 of
                                 (Inl _, _) \<Rightarrow> Inl ErrInvalidProposalMsg
                               | (Inr _, s2) \<Rightarrow> Inr s2)))))"

section \<open>Finality hooks\<close>

definition AfterBtcDelegationUnbonded_cos ::
  "'c coins_ops \<Rightarrow> bytes \<Rightarrow> bool \<Rightarrow> u64 \<Rightarrow> ('c cos_state, unit) act" where
  "AfterBtcDelegationUnbonded_cos C btcDelAddr isFpActiveInPrevSet sats =
     (if \<not> isFpActiveInPrevSet then act_return ()
      else costakerModified C btcDelAddr
             (\<lambda>t. t\<lparr>ct_active_satoshis := ct_active_satoshis t - to_i64 sats\<rparr>))"

definition AfterBtcDelegationActivated_cos ::
  "'c coins_ops \<Rightarrow> bytes \<Rightarrow> bool \<Rightarrow> u64 \<Rightarrow> ('c cos_state, unit) act" where
  "AfterBtcDelegationActivated_cos C btcDelAddr isFpActiveInPrevSet sats =
     (if \<not> isFpActiveInPrevSet then act_return ()
      else costakerModified C btcDelAddr
             (\<lambda>t. t\<lparr>ct_active_satoshis := ct_active_satoshis t + to_i64 sats\<rparr>))"

text \<open>\<open>IterateBTCDelegationSatsUpdated\<close> of the incentive keeper: first the trackers of the
  finality provider, each with the satoshis of its pending events, then in the order of the
  addresses' text the delegators that only have pending events.\<close>

fun pending_walk ::
  "ext \<Rightarrow> (string, int) store \<Rightarrow> (bytes \<times> BTCDelegationRewardsTracker) list \<Rightarrow>
   (bytes \<times> int) list \<times> (string, int) store" where
  "pending_walk X compiledEvents [] = ([], compiledEvents)"
| "pending_walk X compiledEvents ((del, rwdTracker) # rest) =
     (let delStr = ext_AccAddressString X del;
          activeSats = rt_total_active_sat rwdTracker +
            (case kv_get compiledEvents delStr of None \<Rightarrow> 0 | Some pendingSats \<Rightarrow> pendingSats);
          (visited, remaining) = pending_walk X (kv_del delStr compiledEvents) rest
      in ((del, activeSats) # visited, remaining))"

definition IterateBTCDelegationSatsUpdated ::
  "ext \<Rightarrow> ctx \<Rightarrow> bytes \<Rightarrow> (bytes \<Rightarrow> int \<Rightarrow> ('c cos_state, unit) act) \<Rightarrow> ('c cos_state, unit) act" where
  "IterateBTCDelegationSatsUpdated X cx fp it =
     act_bind (act_get (\<lambda>s. (GetRewardTrackerEventsCompiledByBtcDel (cs_inc s) (to_u64 (ctx_height cx))
                               (\<lambda>fpAddr. fpAddr = ext_AccAddressString X fp),
                             kv_prefix fp (inc_trackers (cs_inc s))))) (\<lambda>(compiledEvents, trackers).
     let (visited, remaining) = pending_walk X compiledEvents trackers
     in act_bind (act_iter (\<lambda>(del, activeSats). it del activeSats) visited) (\<lambda>_.
          act_iter (\<lambda>(delStr, sats). act_bind (act_res (ext_AccAddressFromBech32 X delStr)) (\<lambda>delAddr. it delAddr sats))
            remaining))"

definition AfterAncFpEntersActiveSet_cos ::
  "ext \<Rightarrow> 'c coins_ops \<Rightarrow> ctx \<Rightarrow> bytes \<Rightarrow> ('c cos_state, unit) act" where
  "AfterAncFpEntersActiveSet_cos X C cx fpAddr =
     IterateBTCDelegationSatsUpdated X cx fpAddr (\<lambda>del activeSats.
       costakerModified C del (\<lambda>t. t\<lparr>ct_active_satoshis := ct_active_satoshis t + activeSats\<rparr>))"

definition AfterAncFpRemovedFromActiveSet_cos ::
  "ext \<Rightarrow> 'c coins_ops \<Rightarrow> ctx \<Rightarrow> bytes \<Rightarrow> ('c cos_state, unit) act" where
  "AfterAncFpRemovedFromActiveSet_cos X C cx fpAddr =
     IterateBTCDelegationSatsUpdated X cx fpAddr (\<lambda>del activeSats.
       costakerModified C del (\<lambda>t. t\<lparr>ct_active_satoshis := ct_active_satoshis t - activeSats\<rparr>))"

section \<open>Withdrawing rewards\<close>

definition BeforeRewardWithdraw ::
  "'c coins_ops \<Rightarrow> StakeholderType \<Rightarrow> bytes \<Rightarrow> ('c cos_state, unit) act" where
  "BeforeRewardWithdraw C sType addr =
     (if sType \<noteq> COSTAKER then act_return () else costakerWithdrawRewards C addr)"

text \<open>\<open>strings.ToUpper\<close> on UTF-8 text, as far as it can produce ASCII: besides the ASCII letters,
  only the runes U+0131 and U+017F have an ASCII upper case.\<close>

fun ToUpper :: "string \<Rightarrow> string" where
  "ToUpper [] = []"
| "ToUpper [c] = (if CHR ''a'' \<le> c \<and> c \<le> CHR ''z'' then [char_of (of_char c - 32 :: nat)] else [c])"
| "ToUpper (c # d # cs) =
     (if c = CHR 0xC4 \<and> d = CHR 0xB1 then CHR ''I'' # ToUpper cs
      else if c = CHR 0xC5 \<and> d = CHR 0xBF then CHR ''S'' # ToUpper cs
      else (if CHR ''a'' \<le> c \<and> c \<le> CHR ''z'' then char_of (of_char c - 32 :: nat) else c) # ToUpper (d # cs))"

definition NewStakeHolderTypeFromString :: "string \<Rightarrow> StakeholderType res" where
  "NewStakeHolderTypeFromString stStr0 =
     (let stStr = ToUpper stStr0
      in if stStr = ''FINALITY_PROVIDER'' then Inr FINALITY_PROVIDER
         else if stStr = ''BTC_STAKER'' then Inr BTC_STAKER
         else if stStr = ''COSTAKER'' then Inr COSTAKER
         else Inl (Errorf ''invalid stStr''))"

text \<open>A failing \<open>withdrawReward\<close> has written nothing; the writes of a failing costaker hook stay.
  A panic aborts the message.\<close>

definition withdraw_or_none ::
  "'c coins_ops \<Rightarrow> StakeholderType \<Rightarrow> bytes \<Rightarrow> 'c cos_state \<Rightarrow> ('c option \<times> 'c cos_state) res" where
  "withdraw_or_none C sType addr s =
     (case withdrawReward C sType addr (cs_inc s) of
        Inl (Panic m) \<Rightarrow> Inl (Panic m)
      | Inl _ \<Rightarrow> Inr (None, s)
      | Inr (coins, i) \<Rightarrow> Inr (Some coins, s\<lparr>cs_inc := i\<rparr>))"

definition WithdrawReward ::
  "ext \<Rightarrow> 'c coins_ops \<Rightarrow> string \<Rightarrow> string \<Rightarrow> 'c cos_state \<Rightarrow> ('c \<times> 'c cos_state) res" where
  "WithdrawReward X C req_type req_address s =
     rbind (NewStakeHolderTypeFromString req_type) (\<lambda>sType.
     rbind (ext_AccAddressFromBech32 X req_address) (\<lambda>addr.
     rbind (sendAllBtcDelegationTypeToRewardsGauge C sType addr (cs_inc s)) (\<lambda>i.
     (case BeforeRewardWithdraw C sType addr (s\<lparr>cs_inc := i\<rparr>) of
        (Inl e, _) \<Rightarrow> Inl e
      | (Inr _, s1) \<Rightarrow>
          rbind (withdraw_or_none C sType addr s1) (\<lambda>(w, s2).
          let withdrawnCoins = (case w of None \<Rightarrow> c_NewCoins C | Some c \<Rightarrow> c)
          in rbind (if sType \<noteq> BTC_STAKER then Inr (withdrawnCoins, s2)
                    else (case BeforeRewardWithdraw C COSTAKER addr s2 of
                            (Inl (Panic m), _) \<Rightarrow> Inl (Panic m)
                          | (_, s3) \<Rightarrow>
                              rbind (withdraw_or_none C COSTAKER addr s3) (\<lambda>(w', s4).
                                Inr (case w' of None \<Rightarrow> withdrawnCoins | Some c \<Rightarrow> c_Add C withdrawnCoins c, s4))))
               (\<lambda>(coins, s5).
                  if c_IsZero C coins then Inl ErrNoWithdrawableCoins else Inr (coins, s5)))))))"

section \<open>The staking cache\<close>

definition NewStakingCache :: StakingCache where
  "NewStakingCache = \<lparr>sc_stk_info = [], sc_active_val_set = None\<rparr>"

definition SetStakedInfo :: "string \<Rightarrow> string \<Rightarrow> dec \<Rightarrow> dec \<Rightarrow> StakingCache \<Rightarrow> StakingCache" where
  "SetStakedInfo delAddrStr valAddrStr amtStaked delShares sc =
     (let inner = (case kv_get (sc_stk_info sc) delAddrStr of None \<Rightarrow> [] | Some m \<Rightarrow> m)
      in sc\<lparr>sc_stk_info := kv_set delAddrStr
              (kv_set valAddrStr \<lparr>si_amount = amtStaked, si_shares = delShares\<rparr> inner) (sc_stk_info sc)\<rparr>)"

definition GetStakedInfo :: "StakingCache \<Rightarrow> string \<Rightarrow> string \<Rightarrow> StakeInfo" where
  "GetStakedInfo sc delAddrStr valAddrStr =
     (case kv_get (sc_stk_info sc) delAddrStr of
        None \<Rightarrow> \<lparr>si_amount = 0, si_shares = 0\<rparr>
      | Some m \<Rightarrow> (case kv_get m valAddrStr of None \<Rightarrow> \<lparr>si_amount = 0, si_shares = 0\<rparr> | Some i \<Rightarrow> i))"

definition StakingCache_Delete :: "string \<Rightarrow> string \<Rightarrow> StakingCache \<Rightarrow> StakingCache" where
  "StakingCache_Delete delAddrStr valAddrStr sc =
     (case kv_get (sc_stk_info sc) delAddrStr of
        None \<Rightarrow> sc
      | Some m \<Rightarrow> sc\<lparr>sc_stk_info := kv_set delAddrStr (kv_del valAddrStr m) (sc_stk_info sc)\<rparr>)"

definition StakingCache_Clear :: "StakingCache \<Rightarrow> StakingCache" where
  "StakingCache_Clear sc = \<lparr>sc_stk_info = [], sc_active_val_set = None\<rparr>"

definition cos_EndBlock :: "'c cos_state \<Rightarrow> 'c cos_state" where
  "cos_EndBlock s = s\<lparr>cs_stk_cache := StakingCache_Clear (cs_stk_cache s)\<rparr>"

definition set_of_addrs :: "stk_ext \<Rightarrow> bytes list \<Rightarrow> (string, unit) store" where
  "set_of_addrs S addrs = fold (\<lambda>a. kv_set (stk_ValAddressString S a) ()) addrs []"

definition buildCurrEpochValSetMap :: "stk_ext \<Rightarrow> ctx \<Rightarrow> ('c cos_state, (string, unit) store) act" where
  "buildCurrEpochValSetMap S cx s =
     (if ctx_height cx = 0 then (Inr [], s)
      else case cs_validator_set s of
             None \<Rightarrow> (Inl ErrNotFound, s)
           | Some vs \<Rightarrow> (Inr (set_of_addrs S (map cv_addr vs)), s))"

definition GetActiveValidatorSet :: "stk_ext \<Rightarrow> ctx \<Rightarrow> ('c cos_state, (string, unit) store) act" where
  "GetActiveValidatorSet S cx s =
     (case sc_active_val_set (cs_stk_cache s) of
        Some vs \<Rightarrow> (Inr vs, s)
      | None \<Rightarrow>
          act_bind (buildCurrEpochValSetMap S cx) (\<lambda>valSet.
          act_bind (act_modify (\<lambda>s. s\<lparr>cs_stk_cache := (cs_stk_cache s)\<lparr>sc_active_val_set := Some valSet\<rparr>\<rparr>)) (\<lambda>_.
            act_return valSet)) s)"

text \<open>At height 0 the validator is added to the cached map itself.\<close>

definition isActiveValidator :: "stk_ext \<Rightarrow> ctx \<Rightarrow> bytes \<Rightarrow> ('c cos_state, bool) act" where
  "isActiveValidator S cx valAddr =
     act_bind (GetActiveValidatorSet S cx) (\<lambda>valSet0.
     let valStr = stk_ValAddressString S valAddr;
         valSet = (if ctx_height cx = 0 then kv_set valStr () valSet0 else valSet0)
     in act_bind (act_modify (\<lambda>s. if ctx_height cx = 0
                     then s\<lparr>cs_stk_cache := (cs_stk_cache s)\<lparr>sc_active_val_set := Some valSet\<rparr>\<rparr> else s)) (\<lambda>_.
          act_return (kv_has valSet valStr)))"

section \<open>Staking hooks\<close>

definition TokensFromShares :: "stk_ext \<Rightarrow> bytes \<Rightarrow> dec \<Rightarrow> dec res" where
  "TokensFromShares S valAddr delShares =
     rbind (stk_GetValidator S valAddr) (\<lambda>val. Inr (stk_TokensFromShares S val delShares))"

definition deferred :: "('s \<Rightarrow> 's) \<Rightarrow> ('s, 'a) act \<Rightarrow> ('s, 'a) act" where
  "deferred f m s = (case m s of (r, t) \<Rightarrow> (r, f t))"

definition delete_cached :: "ext \<Rightarrow> stk_ext \<Rightarrow> bytes \<Rightarrow> bytes \<Rightarrow> 'c cos_state \<Rightarrow> 'c cos_state" where
  "delete_cached X S delAddr valAddr s =
     s\<lparr>cs_stk_cache := StakingCache_Delete (ext_AccAddressString X delAddr) (stk_ValAddressString S valAddr)
                         (cs_stk_cache s)\<rparr>"

definition AfterDelegationModified ::
  "ext \<Rightarrow> 'c coins_ops \<Rightarrow> stk_ext \<Rightarrow> ctx \<Rightarrow> bytes \<Rightarrow> bytes \<Rightarrow> ('c cos_state, unit) act" where
  "AfterDelegationModified X C S cx delAddr valAddr =
     deferred (delete_cached X S delAddr valAddr)
       (act_bind (isActiveValidator S cx valAddr) (\<lambda>active.
          if \<not> active then act_return ()
          else
            act_bind (act_res (stk_GetDelegation S delAddr valAddr)) (\<lambda>shares.
            act_bind (act_res (TokensFromShares S valAddr shares)) (\<lambda>delTokens.
            act_bind (act_get (\<lambda>s. GetStakedInfo (cs_stk_cache s) (ext_AccAddressString X delAddr)
                                     (stk_ValAddressString S valAddr))) (\<lambda>infoBefore.
            let delTokenChange = stk_TruncateInt S (delTokens - si_amount infoBefore)
            in costakerModified C delAddr (\<lambda>t. t\<lparr>ct_active_ntk := ct_active_ntk t + delTokenChange\<rparr>))))))"

definition BeforeDelegationRemoved ::
  "ext \<Rightarrow> 'c coins_ops \<Rightarrow> stk_ext \<Rightarrow> ctx \<Rightarrow> bytes \<Rightarrow> bytes \<Rightarrow> ('c cos_state, unit) act" where
  "BeforeDelegationRemoved X C S cx delAddr valAddr =
     deferred (delete_cached X S delAddr valAddr)
       (act_bind (isActiveValidator S cx valAddr) (\<lambda>active.
          if \<not> active then act_return ()
          else
            act_bind (act_res (stk_GetDelegation S delAddr valAddr)) (\<lambda>shares.
            act_bind (act_res (TokensFromShares S valAddr shares)) (\<lambda>delTokens.
            let delTokenChange = stk_TruncateInt S delTokens
            in if delTokenChange = 0 then act_return ()
               else costakerModified C delAddr (\<lambda>t. t\<lparr>ct_active_ntk := ct_active_ntk t - delTokenChange\<rparr>)))))"

definition BeforeDelegationSharesModified ::
  "ext \<Rightarrow> stk_ext \<Rightarrow> ctx \<Rightarrow> bytes \<Rightarrow> bytes \<Rightarrow> ('c cos_state, unit) act" where
  "BeforeDelegationSharesModified X S cx delAddr valAddr =
     act_bind (isActiveValidator S cx valAddr) (\<lambda>active.
       if \<not> active then act_return ()
       else case stk_GetDelegation S delAddr valAddr of
              Inl _ \<Rightarrow> act_return ()
            | Inr shares \<Rightarrow>
                act_bind (act_res (TokensFromShares S valAddr shares)) (\<lambda>delTokens.
                  act_modify (\<lambda>s. s\<lparr>cs_stk_cache :=
                    SetStakedInfo (ext_AccAddressString X delAddr) (stk_ValAddressString S valAddr)
                      delTokens shares (cs_stk_cache s)\<rparr>)))"

definition BeforeValidatorSlashed ::
  "ext \<Rightarrow> 'c coins_ops \<Rightarrow> stk_ext \<Rightarrow> ctx \<Rightarrow> bytes \<Rightarrow> dec \<Rightarrow> ('c cos_state, unit) act" where
  "BeforeValidatorSlashed X C S cx valAddr fraction =
     act_bind (isActiveValidator S cx valAddr) (\<lambda>active.
       if \<not> active then act_return ()
       else
         act_bind (act_res (stk_GetValidatorDelegations S valAddr)) (\<lambda>delegations.
         act_bind (act_res (stk_GetValidator S valAddr)) (\<lambda>val.
           act_iter (\<lambda>(delStr, shares).
             act_bind (act_res (MustAccAddressFromBech32 X delStr)) (\<lambda>delAddr.
             let delTokens = stk_TruncateInt S (stk_TokensFromShares S val shares);
                 slashAmount = stk_TruncateInt S (stk_DecMulInt S fraction delTokens)
             in costakerModified C delAddr (\<lambda>t. t\<lparr>ct_active_ntk := ct_active_ntk t - slashAmount\<rparr>)))
             delegations)))"

section \<open>Epoching hooks\<close>

fun validators_of :: "stk_ext \<Rightarrow> bytes list \<Rightarrow> cos_validator list res" where
  "validators_of S [] = Inr []"
| "validators_of S (valAddr # rest) =
     rbind (stk_GetValidator S valAddr) (\<lambda>val.
     rbind (validators_of S rest) (\<lambda>vs.
       Inr (\<lparr>cv_addr = valAddr, cv_tokens = sv_tokens val, cv_shares = sv_shares val\<rparr> # vs)))"

definition updateValidatorSet :: "stk_ext \<Rightarrow> bytes list \<Rightarrow> ('c cos_state, unit) act" where
  "updateValidatorSet S newValAddrs =
     act_bind (act_res (validators_of S newValAddrs)) (\<lambda>vs.
       act_modify (\<lambda>s. s\<lparr>cs_validator_set := Some vs\<rparr>))"

definition buildNewActiveValSetMap :: "stk_ext \<Rightarrow> ((string, unit) store \<times> bytes list) res" where
  "buildNewActiveValSetMap S =
     rbind (stk_LastValidators S) (\<lambda>valAddrs. Inr (set_of_addrs S valAddrs, valAddrs))"

definition updateCoStkTrackerForDelegators ::
  "ext \<Rightarrow> 'c coins_ops \<Rightarrow> stk_ext \<Rightarrow> stk_val \<Rightarrow> (CostakerRewardsTracker \<Rightarrow> int \<Rightarrow> CostakerRewardsTracker) \<Rightarrow>
   ('c cos_state, unit) act" where
  "updateCoStkTrackerForDelegators X C S val updateFn =
     act_bind (act_res (stk_ValAddressFromBech32 S (sv_operator val))) (\<lambda>valAddr.
     act_bind (act_res (stk_GetValidatorDelegations S valAddr)) (\<lambda>delegations.
       act_iter (\<lambda>(delStr, shares).
         act_bind (act_res (MustAccAddressFromBech32 X delStr)) (\<lambda>delAddr.
           costakerModified C delAddr
             (\<lambda>t. updateFn t (stk_TruncateInt S (stk_TokensFromShares S val shares))))) delegations))"

definition addNtkForDelegators ::
  "ext \<Rightarrow> 'c coins_ops \<Rightarrow> stk_ext \<Rightarrow> string \<Rightarrow> ('c cos_state, unit) act" where
  "addNtkForDelegators X C S valAddrStr =
     act_bind (act_res (case stk_ValAddressFromBech32 S valAddrStr of
                          Inl _ \<Rightarrow> Inl (Panic ''invalid bech32 address'') | Inr a \<Rightarrow> Inr a)) (\<lambda>valAddr.
     act_bind (act_res (stk_GetValidator S valAddr)) (\<lambda>val.
       updateCoStkTrackerForDelegators X C S val
         (\<lambda>t amount. t\<lparr>ct_active_ntk := ct_active_ntk t + amount\<rparr>)))"

definition removeNtkForDelegators ::
  "ext \<Rightarrow> 'c coins_ops \<Rightarrow> stk_ext \<Rightarrow> bytes \<Rightarrow> ('c cos_state, unit) act" where
  "removeNtkForDelegators X C S valAddr =
     act_bind (act_res (stk_GetValidator S valAddr)) (\<lambda>val.
       updateCoStkTrackerForDelegators X C S val
         (\<lambda>t amount. t\<lparr>ct_active_ntk := ct_active_ntk t - amount\<rparr>))"

text \<open>\<open>AfterEpochBegins\<close> and \<open>BeforeEpochEnds\<close> return nothing: their errors are logged.\<close>

definition AfterEpochBegins_cos :: "stk_ext \<Rightarrow> 'c cos_state \<Rightarrow> 'c cos_state" where
  "AfterEpochBegins_cos S s =
     (case cs_validator_set s of
        Some _ \<Rightarrow> s
      | None \<Rightarrow> (case buildNewActiveValSetMap S of
                   Inl _ \<Rightarrow> s
                 | Inr (_, valAddrs) \<Rightarrow> snd (updateValidatorSet S valAddrs s)))"

definition BeforeEpochEnds_cos :: "stk_ext \<Rightarrow> ctx \<Rightarrow> 'c cos_state \<Rightarrow> 'c cos_state" where
  "BeforeEpochEnds_cos S cx s = snd (GetActiveValidatorSet S cx s)"

definition AfterEpochEnds_cos ::
  "ext \<Rightarrow> 'c coins_ops \<Rightarrow> stk_ext \<Rightarrow> ctx \<Rightarrow> ('c cos_state, unit) act" where
  "AfterEpochEnds_cos X C S cx =
     act_bind (GetActiveValidatorSet S cx) (\<lambda>prevValMap.
     let prevValAddrs = map fst prevValMap
     in act_bind (act_res (buildNewActiveValSetMap S)) (\<lambda>(newValMap, newValAddrs).
        act_bind (act_iter (\<lambda>valAddr.
                    if \<not> kv_has prevValMap (stk_ValAddressString S valAddr)
                    then addNtkForDelegators X C S (stk_ValAddressString S valAddr) else act_return ())
                    newValAddrs) (\<lambda>_.
        act_bind (act_iter (\<lambda>prevValAddr.
                    if \<not> kv_has newValMap prevValAddr
                    then act_bind (act_res (case stk_ValAddressFromBech32 S prevValAddr of
                                     Inl _ \<Rightarrow> Inl (Panic ''invalid bech32 address'') | Inr a \<Rightarrow> Inr a))
                           (removeNtkForDelegators X C S)
                    else act_return ()) prevValAddrs) (\<lambda>_.
          updateValidatorSet S newValAddrs))))"

section \<open>Fees\<close>

definition accumulateCostakingRewards :: "'c coins_ops \<Rightarrow> 'c \<Rightarrow> ('c cos_state, unit) act" where
  "accumulateCostakingRewards C costakingRewards =
     (if \<not> c_IsAllPositive C costakingRewards then act_return ()
      else act_bind (act_res (c_SendFeesToCostaking C costakingRewards)) (\<lambda>_.
           act_bind (act_modify (\<lambda>s. s\<lparr>cs_deposits := cs_deposits s @ [costakingRewards]\<rparr>)) (\<lambda>_.
             AddRewardsForCostakers C costakingRewards)))"

end
