(* ===== verification/BtcStaking_Keeper.thy ===== *)
theory BtcStaking_Keeper
  imports BtcStaking_Params
begin

text \<open>
  The keeper of the BTC staking module (\<open>x/btcstaking/keeper\<close>): its stores, the life cycle of
  finality providers, the queue of power distribution events, the BTC height index, the versioned
  parameters and the largest BTC reorg.

  The operations take the third-party functions \<open>X\<close>, the block context \<open>c\<close> and the state, and
  return the new state or an error; an error leaves the caller with the old state, which is what a
  failed transaction does.  Logging, telemetry and emitted client events do not touch the stores
  and are left out.
\<close>

section \<open>State\<close>

record StoredParams =
  sp_version :: u32
  sp_params :: Params

record LargestBtcReOrg =
  lbr_block_diff :: u32
  lbr_rollback_from :: BTCHeaderInfo
  lbr_rollback_to :: BTCHeaderInfo

record bs_state =
  bs_fps :: "(bytes, FinalityProvider) store"
  bs_fp_anc_addr :: "(bytes, unit) store"
  bs_fps_deleted :: "(bytes, unit) store"
  bs_dels :: "(bytes, BTCDelegation) store"
  bs_delegators :: "(bytes \<times> bytes, BTCDelegatorDelegationIndex) store"
  bs_btc_heights :: "(u64, u64) store"
  bs_events :: "(u32 \<times> u64, EventPowerDistUpdate) store"
  bs_params :: "(u32, StoredParams) store"
  bs_htv :: "HeightToVersionMap option"
  bs_largest_reorg :: "LargestBtcReOrg option"
  bs_allowed_txs :: "(bytes, unit) store"

section \<open>Parameters\<close>

definition nextParamsVersion :: "bs_state \<Rightarrow> u32" where
  "nextParamsVersion s = (case kv_last (bs_params s) of None \<Rightarrow> 0 | Some e \<Rightarrow> fst e + 1)"

definition getLastParams :: "bs_state \<Rightarrow> StoredParams option" where
  "getLastParams s = map_option snd (kv_last (bs_params s))"

definition mustGetLastParams :: "bs_state \<Rightarrow> StoredParams res" where
  "mustGetLastParams s =
     (case getLastParams s of None \<Rightarrow> Inl (Panic ''last params not found'') | Some sp \<Rightarrow> Inr sp)"

definition GetParams :: "bs_state \<Rightarrow> Params res" where
  "GetParams s = rbind (mustGetLastParams s) (\<lambda>sp. Inr (sp_params sp))"

definition GetParamsByVersion :: "bs_state \<Rightarrow> u32 \<Rightarrow> Params option" where
  "GetParamsByVersion s v = map_option sp_params (kv_get (bs_params s) v)"

definition GetAllParams :: "bs_state \<Rightarrow> Params list" where
  "GetAllParams s = map (\<lambda>e. sp_params (snd e)) (bs_params s)"

definition MinCommissionRate :: "bs_state \<Rightarrow> dec option res" where
  "MinCommissionRate s = rbind (GetParams s) (\<lambda>p. Inr (p_min_commission_rate p))"

definition SetHeightToVersionMap :: "HeightToVersionMap \<Rightarrow> bs_state \<Rightarrow> bs_state res" where
  "SetHeightToVersionMap p s =
     rbind (HeightToVersionMap_Validate p) (\<lambda>_. Inr (s\<lparr>bs_htv := Some p\<rparr>))"

definition SetParams :: "ext \<Rightarrow> Params \<Rightarrow> bs_state \<Rightarrow> bs_state res" where
  "SetParams X p s =
     rbind (Params_Validate X p) (\<lambda>_.
       let heightToVersionMap = (case bs_htv s of None \<Rightarrow> [] | Some m \<Rightarrow> m);
           nextVersion = nextParamsVersion s
       in rbind (AddNewPair heightToVersionMap (ucast (p_btc_activation_height p)) nextVersion) (\<lambda>m.
            let sp = \<lparr>sp_version = nextVersion, sp_params = p\<rparr>
            in SetHeightToVersionMap m (s\<lparr>bs_params := kv_set nextVersion sp (bs_params s)\<rparr>)))"

text \<open>\<open>sort.Slice\<close> leaves the order of equal elements open; versions are distinct, so the stable
  sort gives its result.  \<open>v\<close> is compared with \<open>uint32(len(Pairs))\<close>.\<close>

definition OverwriteParamsAtVersion :: "ext \<Rightarrow> u32 \<Rightarrow> Params \<Rightarrow> bs_state \<Rightarrow> bs_state res" where
  "OverwriteParamsAtVersion X v p s =
     rbind (Params_Validate X p) (\<lambda>_.
       let sp = \<lparr>sp_version = v, sp_params = p\<rparr>;
           heightToVersionMap = (case bs_htv s of None \<Rightarrow> [] | Some m \<Rightarrow> m);
           pairs = slice_stable (\<lambda>a b. hv_version a < hv_version b) heightToVersionMap;
           pair = NewHeightVersionPair (ucast (p_btc_activation_height p)) v
       in rbind (if v \<ge> of_nat (length pairs) then AddPair pairs pair
                 else Inr (pairs[unat v := pair])) (\<lambda>m.
            SetHeightToVersionMap m (s\<lparr>bs_params := kv_set v sp (bs_params s)\<rparr>)))"

definition GetParamsForBtcHeight :: "bs_state \<Rightarrow> u64 \<Rightarrow> (Params option \<times> u32) res" where
  "GetParamsForBtcHeight s height =
     (case bs_htv s of
        None \<Rightarrow> Inl (Panic ''height to version map not found'')
      | Some m \<Rightarrow> rbind (GetVersionForHeight m height) (\<lambda>version.
                   Inr (GetParamsByVersion s version, version)))"

section \<open>The queue of power distribution events\<close>

definition addPowerDistUpdateEvent :: "u32 \<Rightarrow> EventPowerDistUpdate \<Rightarrow> bs_state \<Rightarrow> bs_state" where
  "addPowerDistUpdateEvent btcHeight event s =
     (let eventIdx = (case kv_last (kv_prefix btcHeight (bs_events s)) of
                        None \<Rightarrow> 0
                      | Some e \<Rightarrow> fst e + 1)
      in s\<lparr>bs_events := kv_set (btcHeight, eventIdx) event (bs_events s)\<rparr>)"

definition ClearPowerDistUpdateEvents :: "u32 \<Rightarrow> bs_state \<Rightarrow> bs_state" where
  "ClearPowerDistUpdateEvents btcHeight s =
     s\<lparr>bs_events := fold (\<lambda>k. kv_del (btcHeight, k)) (map fst (kv_prefix btcHeight (bs_events s)))
                     (bs_events s)\<rparr>"

definition PowerDistUpdateEvents :: "bs_state \<Rightarrow> u32 \<Rightarrow> EventPowerDistUpdate list" where
  "PowerDistUpdateEvents s btcHeight = map snd (kv_prefix btcHeight (bs_events s))"

definition GetAllPowerDistUpdateEvents :: "bs_state \<Rightarrow> u32 \<Rightarrow> u32 \<Rightarrow> EventPowerDistUpdate list" where
  "GetAllPowerDistUpdateEvents s lastBTCTip curBTCTip =
     concat (map (PowerDistUpdateEvents s) (range_u32 lastBTCTip curBTCTip))"

section \<open>The BTC height index and the largest reorg\<close>

definition IndexBTCHeight :: "ctx \<Rightarrow> bs_state \<Rightarrow> bs_state" where
  "IndexBTCHeight c s =
     (case ctx_btc_tip c of
        None \<Rightarrow> s
      | Some tip \<Rightarrow>
          s\<lparr>bs_btc_heights :=
              kv_set (to_u64 (ctx_height c)) (ucast (bhi_height tip)) (bs_btc_heights s)\<rparr>)"

definition GetBTCHeightAtAnonHeight :: "ctx \<Rightarrow> bs_state \<Rightarrow> u64 \<Rightarrow> u32 res" where
  "GetBTCHeightAtAnonHeight c s anonHeight =
     (case kv_get (bs_btc_heights s) anonHeight of
        None \<Rightarrow> Inr (bhi_height (ctx_btc_base c))
      | Some h \<Rightarrow>
          if h > 0xFFFFFFFF
          then Inl (Panic ''Storage involves a btc height that is larger than math.MaxUint32'')
          else Inr (ucast h))"

definition GetCurrentBTCHeight :: "ctx \<Rightarrow> bs_state \<Rightarrow> u32 res" where
  "GetCurrentBTCHeight c s = GetBTCHeightAtAnonHeight c s (to_u64 (ctx_height c))"

definition BeginBlocker_bs :: "ctx \<Rightarrow> bs_state \<Rightarrow> bs_state" where
  "BeginBlocker_bs c s = IndexBTCHeight c s"

definition NewLargestBtcReOrg :: "BTCHeaderInfo \<Rightarrow> BTCHeaderInfo \<Rightarrow> LargestBtcReOrg" where
  "NewLargestBtcReOrg rollbackFrom rollbackTo =
     \<lparr>lbr_block_diff = bhi_height rollbackFrom - bhi_height rollbackTo,
      lbr_rollback_from = rollbackFrom, lbr_rollback_to = rollbackTo\<rparr>"

definition SetLargestBtcReorg :: "LargestBtcReOrg \<Rightarrow> bs_state \<Rightarrow> bs_state" where
  "SetLargestBtcReorg new s =
     (case bs_largest_reorg s of
        None \<Rightarrow> s\<lparr>bs_largest_reorg := Some new\<rparr>
      | Some current \<Rightarrow>
          if lbr_block_diff current \<ge> lbr_block_diff new then s
          else s\<lparr>bs_largest_reorg := Some new\<rparr>)"

definition AfterBTCRollBack :: "BTCHeaderInfo \<Rightarrow> BTCHeaderInfo \<Rightarrow> bs_state \<Rightarrow> bs_state" where
  "AfterBTCRollBack rollbackFrom rollbackTo s =
     SetLargestBtcReorg (NewLargestBtcReOrg rollbackFrom rollbackTo) s"

definition HaltIfBtcReorgLargerThanConfirmationDepth :: "ctx \<Rightarrow> bs_state \<Rightarrow> unit res" where
  "HaltIfBtcReorgLargerThanConfirmationDepth c s =
     (case bs_largest_reorg s of
        None \<Rightarrow> Inr ()
      | Some r \<Rightarrow>
          if lbr_block_diff r \<ge> ctx_btc_confirmation_depth c
          then Inl (Panic ''Reorg is larger than BTC confirmation Depth'')
          else Inr ())"

section \<open>Finality providers\<close>

definition HasFinalityProvider :: "bs_state \<Rightarrow> bytes \<Rightarrow> bool" where
  "HasFinalityProvider s fpBTCPK \<longleftrightarrow> kv_has (bs_fps s) fpBTCPK"

definition SetFinalityProvider :: "FinalityProvider \<Rightarrow> bs_state \<Rightarrow> bs_state" where
  "SetFinalityProvider fp s = s\<lparr>bs_fps := kv_set (fp_btc_pk fp) fp (bs_fps s)\<rparr>"

definition SetFpAncAddr :: "bytes \<Rightarrow> bs_state \<Rightarrow> bs_state" where
  "SetFpAncAddr fpAddr s = s\<lparr>bs_fp_anc_addr := kv_set fpAddr () (bs_fp_anc_addr s)\<rparr>"

definition UpdateFinalityProvider :: "FinalityProvider \<Rightarrow> bs_state \<Rightarrow> bs_state res" where
  "UpdateFinalityProvider fp s =
     (if \<not> HasFinalityProvider s (fp_btc_pk fp) then Inl ErrFpNotFound
      else Inr (SetFinalityProvider fp s))"

definition GetFinalityProvider :: "bs_state \<Rightarrow> bytes \<Rightarrow> FinalityProvider res" where
  "GetFinalityProvider s fpBTCPK =
     (case kv_get (bs_fps s) fpBTCPK of None \<Rightarrow> Inl ErrFpNotFound | Some fp \<Rightarrow> Inr fp)"

definition IterateFinalityProvider ::
  "(FinalityProvider \<Rightarrow> 'a \<Rightarrow> 'a res) \<Rightarrow> bs_state \<Rightarrow> 'a \<Rightarrow> 'a res" where
  "IterateFinalityProvider f s a = rfold f (map snd (bs_fps s)) a"

definition IsFinalityProviderDeleted :: "bs_state \<Rightarrow> BIP340PubKey \<Rightarrow> bool" where
  "IsFinalityProviderDeleted s fpBtcPk \<longleftrightarrow> kv_has (bs_fps_deleted s) fpBtcPk"

definition SoftDeleteFinalityProvider :: "BIP340PubKey \<Rightarrow> bs_state \<Rightarrow> bs_state" where
  "SoftDeleteFinalityProvider fpBtcPk s = s\<lparr>bs_fps_deleted := kv_set fpBtcPk () (bs_fps_deleted s)\<rparr>"

definition HasFpRegistered :: "bs_state \<Rightarrow> bytes \<Rightarrow> bool" where
  "HasFpRegistered s fpAncAddr \<longleftrightarrow> kv_has (bs_fp_anc_addr s) fpAncAddr"

definition CheckDuplicatedFpAncAddr :: "bs_state \<Rightarrow> bytes \<Rightarrow> unit res" where
  "CheckDuplicatedFpAncAddr s fpAddr =
     (if HasFpRegistered s fpAddr then Inl ErrFpRegistered else Inr ())"

text \<open>A \<open>LegacyDec\<close> that is read: nil panics.\<close>

definition dec_val :: "dec option \<Rightarrow> dec res" where
  "dec_val d = (case d of None \<Rightarrow> Inl (Panic ''nil pointer dereference'') | Some x \<Rightarrow> Inr x)"

record MsgCreateFinalityProvider =
  mcf_addr :: string
  mcf_description :: "Description option"
  mcf_commission :: CommissionRates
  mcf_btc_pk :: BIP340PubKey
  mcf_pop :: "ProofOfPossessionBTC option"

text \<open>The event that announces the provider reads the description, so a nil one panics.\<close>

definition AddFinalityProvider ::
  "ext \<Rightarrow> ctx \<Rightarrow> MsgCreateFinalityProvider \<Rightarrow> bs_state \<Rightarrow> bs_state res" where
  "AddFinalityProvider X c msg s =
     rbind (GetParams s) (\<lambda>params.
     rbind (ext_AccAddressFromBech32 X (mcf_addr msg)) (\<lambda>fpAddr.
     rbind (CheckDuplicatedFpAncAddr s fpAddr) (\<lambda>_.
     rbind (dec_val (cr_rate (mcf_commission msg))) (\<lambda>rate.
     rbind (dec_val (p_min_commission_rate params)) (\<lambda>minRate.
     if rate < minRate then Inl ErrCommissionLTMinRate
     else
       rbind (dec_val (cr_max_rate (mcf_commission msg))) (\<lambda>maxRate.
       rbind (dec_val (cr_max_change_rate (mcf_commission msg))) (\<lambda>maxChangeRate.
       let commissionInfo = NewCommissionInfoWithTime maxRate maxChangeRate (ctx_time c)
       in rbind (CommissionInfo_Validate commissionInfo) (\<lambda>_.
          if rate > maxRate then Inl ErrCommissionGTMaxRate
          else if HasFinalityProvider s (mcf_btc_pk msg) then Inl ErrFpRegistered
          else
            let fp = \<lparr>fp_addr = mcf_addr msg, fp_description = mcf_description msg,
                      fp_commission = Some rate, fp_btc_pk = mcf_btc_pk msg,
                      fp_pop = mcf_pop msg, fp_slashed_anon_height = 0,
                      fp_slashed_btc_height = 0, fp_jailed = False,
                      fp_highest_voted_height = 0, fp_commission_info = Some commissionInfo\<rparr>
            in case mcf_description msg of
                 None \<Rightarrow> Inl (Panic ''nil pointer dereference'')
               | Some _ \<Rightarrow> Inr (SetFinalityProvider fp (SetFpAncAddr fpAddr s))))))))))"

definition SlashFinalityProvider :: "ctx \<Rightarrow> bytes \<Rightarrow> bs_state \<Rightarrow> bs_state res" where
  "SlashFinalityProvider c fpBTCPK s =
     rbind (GetFinalityProvider s fpBTCPK) (\<lambda>fp.
       if FinalityProvider_IsSlashed fp then Inl ErrFpAlreadySlashed
       else case ctx_btc_tip c of
              None \<Rightarrow> Inl (Errorf ''failed to get current BTC tip'')
            | Some btcTip \<Rightarrow>
                let fp' = fp\<lparr>fp_slashed_anon_height := to_u64 (ctx_height c),
                             fp_slashed_btc_height := bhi_height btcTip\<rparr>
                in Inr (addPowerDistUpdateEvent (bhi_height btcTip) (SlashedFp (fp_btc_pk fp'))
                     (SetFinalityProvider fp' s)))"

definition JailFinalityProvider :: "ctx \<Rightarrow> bytes \<Rightarrow> bs_state \<Rightarrow> bs_state res" where
  "JailFinalityProvider c fpBTCPK s =
     rbind (GetFinalityProvider s fpBTCPK) (\<lambda>fp.
       if FinalityProvider_IsSlashed fp then Inl ErrFpAlreadySlashed
       else if FinalityProvider_IsJailed fp then Inl ErrFpAlreadyJailed
       else
         let fp' = fp\<lparr>fp_jailed := True\<rparr>; s' = SetFinalityProvider fp' s
         in case ctx_btc_tip c of
              None \<Rightarrow> Inl (Errorf ''failed to get current BTC tip'')
            | Some btcTip \<Rightarrow>
                Inr (addPowerDistUpdateEvent (bhi_height btcTip) (JailedFp (fp_btc_pk fp')) s'))"

definition UnjailFinalityProvider_bs :: "ctx \<Rightarrow> bytes \<Rightarrow> bs_state \<Rightarrow> bs_state res" where
  "UnjailFinalityProvider_bs c fpBTCPK s =
     rbind (GetFinalityProvider s fpBTCPK) (\<lambda>fp.
       if FinalityProvider_IsSlashed fp then Inl ErrFpAlreadySlashed
       else if \<not> FinalityProvider_IsJailed fp then Inl ErrFpNotJailed
       else
         let fp' = fp\<lparr>fp_jailed := False\<rparr>; s' = SetFinalityProvider fp' s
         in case ctx_btc_tip c of
              None \<Rightarrow> Inl (Errorf ''failed to get current BTC tip'')
            | Some btcTip \<Rightarrow>
                Inr (addPowerDistUpdateEvent (bhi_height btcTip) (UnjailedFp (fp_btc_pk fp')) s'))"

text \<open>\<open>time.Time.Sub\<close> saturates at the range of a \<open>Duration\<close>; \<open>Hours() < 24\<close> on nanoseconds.\<close>

definition time_Sub :: "int \<Rightarrow> int \<Rightarrow> i64" where
  "time_Sub t u = max (- (2 ^ 63)) (min (2 ^ 63 - 1) (t - u))"

definition UpdateFinalityProviderCommission ::
  "ctx \<Rightarrow> dec option \<Rightarrow> FinalityProvider \<Rightarrow> bs_state \<Rightarrow> FinalityProvider res" where
  "UpdateFinalityProviderCommission c newCommission fp s =
     (case newCommission of
        None \<Rightarrow> Inr fp
      | Some new \<Rightarrow>
          (case fp_commission_info fp of
             None \<Rightarrow> Inl (Errorf ''Finality provider does not have commission info defined'')
           | Some info \<Rightarrow>
               if new < 0 then Inl ErrCommissionNegative
               else if time_Sub (ctx_time c) (ci_update_time info) < 24 * 3600 * 10 ^ 9
                 then Inl ErrCommissionUpdateTime
               else
                 rbind (MinCommissionRate s) (\<lambda>minc. rbind (dec_val minc) (\<lambda>minCommission.
                 if new < minCommission then Inl ErrCommissionLTMinRate
                 else if new > ci_max_rate info then Inl ErrCommissionGTMaxRate
                 else rbind (dec_val (fp_commission fp)) (\<lambda>old.
                   if \<bar>new - old\<bar> > ci_max_change_rate info then Inl ErrCommissionGTMaxChangeRate
                   else Inr (fp\<lparr>fp_commission := Some new,
                               fp_commission_info := Some (info\<lparr>ci_update_time := ctx_time c\<rparr>)\<rparr>))))))"

text \<open>\<open>strings.EqualFold\<close> on the ASCII text of addresses.\<close>

definition ascii_lower :: "char \<Rightarrow> char" where
  "ascii_lower ch =
     (let n = (of_char ch :: nat) in if 65 \<le> n \<and> n \<le> 90 then char_of (n + 32) else ch)"

definition EqualFold :: "string \<Rightarrow> string \<Rightarrow> bool" where
  "EqualFold a b \<longleftrightarrow> map ascii_lower a = map ascii_lower b"

record MsgEditFinalityProvider =
  mef_addr :: string
  mef_btc_pk :: bytes
  mef_description :: "Description option"
  mef_commission :: "dec option"

definition EditFinalityProvider ::
  "ext \<Rightarrow> ctx \<Rightarrow> MsgEditFinalityProvider \<Rightarrow> bs_state \<Rightarrow> bs_state res" where
  "EditFinalityProvider X c req s =
     (case ext_AccAddressFromBech32 X (mef_addr req) of
        Inl _ \<Rightarrow> Inl (Errorf ''invalid address'')
      | Inr fpAddr \<Rightarrow>
          rbind (GetFinalityProvider s (mef_btc_pk req)) (\<lambda>fp.
          if \<not> EqualFold (ext_AccAddressString X fpAddr) (fp_addr fp)
            then Inl (Errorf ''the signer does not correspond to the finality provider's Anon address'')
          else rbind (UpdateFinalityProviderCommission c (mef_commission req) fp s) (\<lambda>fp1.
            let fp2 = fp1\<lparr>fp_description := mef_description req\<rparr>
            in case (fp_commission fp2, fp_description fp2) of
                 (Some _, Some _) \<Rightarrow> Inr (SetFinalityProvider fp2 s)
               | _ \<Rightarrow> Inl (Panic ''nil pointer dereference''))))"

text \<open>A recovered secret key slashes its finality provider; \<open>pub\<close> derives the BIP-340 public key
  from the secret key bytes (\<open>btcec.PrivKeyFromBytes\<close> and \<open>schnorr.SerializePubKey\<close>).\<close>

definition SelectiveSlashingEvidence ::
  "(bytes \<Rightarrow> bytes) \<Rightarrow> ctx \<Rightarrow> bytes \<Rightarrow> bs_state \<Rightarrow> bs_state res" where
  "SelectiveSlashingEvidence pub c recoveredFpBtcSk s =
     SlashFinalityProvider c (pub recoveredFpBtcSk) s"

text \<open>The overlap of two covenant committees, counted with an early exit.\<close>

fun overlap_loop :: "string set \<Rightarrow> u32 \<Rightarrow> nat \<Rightarrow> BIP340PubKey list \<Rightarrow> bool" where
  "overlap_loop newSet required n [] = False"
| "overlap_loop newSet required n (pk # pks) =
     (if MarshalHex pk \<in> newSet
      then (if (of_nat (n + 1) :: u32) \<ge> required then True
            else overlap_loop newSet required (n + 1) pks)
      else overlap_loop newSet required n pks)"

definition hasSufficientCovenantOverlap ::
  "BIP340PubKey list \<Rightarrow> BIP340PubKey list \<Rightarrow> u32 \<Rightarrow> bool" where
  "hasSufficientCovenantOverlap covCommittee1 covCommittee2 requiredOverlap =
     (if requiredOverlap = 0 \<or> covCommittee1 = [] \<or> covCommittee2 = [] then False
      else overlap_loop (set (map MarshalHex covCommittee2)) requiredOverlap 0 covCommittee1)"

section \<open>Well-formed states\<close>

text \<open>Every store is in key order, a finality provider is filed under its own key, and the events of a
  BTC height are numbered from 0 without gaps.\<close>

definition events_ok :: "bs_state \<Rightarrow> bool" where
  "events_ok s \<longleftrightarrow> kv_ok (bs_events s) \<and>
     (\<forall>h. map fst (kv_prefix h (bs_events s)) =
            map of_nat [0 ..< length (kv_prefix h (bs_events s))])"

definition fps_ok :: "bs_state \<Rightarrow> bool" where
  "fps_ok s \<longleftrightarrow> kv_ok (bs_fps s) \<and> (\<forall>pk fp. kv_get (bs_fps s) pk = Some fp \<longrightarrow> fp_btc_pk fp = pk)"

section \<open>The event queue\<close>

text \<open>What the writers and the reader of the queue rely on: one first-in first-out list per BTC
  height, up to a capacity.\<close>

locale event_queue =
  fixes enq :: "'h \<Rightarrow> 'e \<Rightarrow> 's \<Rightarrow> 's"
    and clear :: "'h \<Rightarrow> 's \<Rightarrow> 's"
    and queue :: "'s \<Rightarrow> 'h \<Rightarrow> 'e list"
    and ok :: "'s \<Rightarrow> bool"
    and cap :: nat
  assumes queue_enq: "ok s \<Longrightarrow> length (queue s h) < cap \<Longrightarrow>
      queue (enq h e s) h' = (if h' = h then queue s h @ [e] else queue s h')"
    and ok_enq: "ok s \<Longrightarrow> length (queue s h) < cap \<Longrightarrow> ok (enq h e s)"
    and queue_clear: "ok s \<Longrightarrow> queue (clear h s) h' = (if h' = h then [] else queue s h')"
    and ok_clear: "ok s \<Longrightarrow> ok (clear h s)"
begin

lemma queue_enq_all:
  assumes "ok s" and "\<And>h. length (queue s h) + length es \<le> cap"
  shows "queue (fold (\<lambda>(h, e). enq h e) es s) h =
      queue s h @ map snd (filter (\<lambda>p. fst p = h) es) \<and> ok (fold (\<lambda>(h, e). enq h e) es s)"
  using assms
proof (induction es arbitrary: s)
  case Nil
  then show ?case by simp
next
  case (Cons p es)
  obtain h' e where p: "p = (h', e)" by (cases p)
  have room: "length (queue s h') < cap" using Cons.prems(2) [of h'] by simp
  have "length (queue (enq h' e s) k) + length es \<le> cap" for k
    using Cons.prems(2) [of k] by (auto simp: queue_enq [OF Cons.prems(1) room])
  from Cons.IH [OF ok_enq [OF Cons.prems(1) room] this] show ?case
    by (simp add: p queue_enq [OF Cons.prems(1) room])
qed

end

lemma next_index_above:
  assumes "map fst t = map of_nat [0 ..< length t]" and "length t < 2 ^ 64"
  shows "(case kv_last t of None \<Rightarrow> 0 | Some e \<Rightarrow> fst e + 1) = (of_nat (length t) :: u64)"
    and "e \<in> set t \<Longrightarrow> fst e < (of_nat (length t) :: u64)"
proof -
  show "(case kv_last t of None \<Rightarrow> 0 | Some e \<Rightarrow> fst e + 1) = (of_nat (length t) :: u64)"
  proof (cases t rule: rev_cases)
    case Nil
    then show ?thesis by simp
  next
    case (snoc t' e)
    from assms(1) have "fst e = of_nat (length t')" by (simp add: snoc)
    then show ?thesis by (simp add: snoc)
  qed
  assume "e \<in> set t"
  then have "fst e \<in> set (map of_nat [0 ..< length t])" using assms(1) by (metis image_eqI set_map)
  then obtain i where i: "i < length t" "fst e = of_nat i" by auto
  have "unat (of_nat i :: u64) = i" and "unat (of_nat (length t) :: u64) = length t"
    using i(1) assms(2) by (simp_all add: unat_of_nat)
  with i show "fst e < (of_nat (length t) :: u64)" by (simp add: word_less_nat_alt)
qed

lemma addPowerDistUpdateEvent_prefix:
  assumes "events_ok s" and "length (kv_prefix h (bs_events s)) < 2 ^ 64"
  shows "kv_prefix h' (bs_events (addPowerDistUpdateEvent h e s)) =
    (if h' = h then kv_prefix h (bs_events s) @ [(of_nat (length (kv_prefix h (bs_events s))), e)]
     else kv_prefix h' (bs_events s))"
proof -
  let ?t = "kv_prefix h (bs_events s)"
  have idx: "map fst ?t = map of_nat [0 ..< length ?t]" using assms(1) by (simp add: events_ok_def)
  note next_index = next_index_above [OF idx assms(2)]
  have "kv_set (of_nat (length ?t)) e ?t = ?t @ [(of_nat (length ?t), e)]"
    by (rule kv_set_above) (rule next_index(2))
  then show ?thesis
    using assms(1)
    by (simp add: addPowerDistUpdateEvent_def next_index(1) events_ok_def kv_prefix_set_same
        kv_prefix_set_other)
qed

lemma addPowerDistUpdateEvent_ok:
  assumes "events_ok s" and "length (kv_prefix h (bs_events s)) < 2 ^ 64"
  shows "events_ok (addPowerDistUpdateEvent h e s)"
proof -
  have "kv_ok (bs_events (addPowerDistUpdateEvent h e s))"
    using assms(1) by (simp add: addPowerDistUpdateEvent_def events_ok_def Let_def)
  moreover have "map fst (kv_prefix k (bs_events (addPowerDistUpdateEvent h e s))) =
      map of_nat [0 ..< length (kv_prefix k (bs_events (addPowerDistUpdateEvent h e s)))]" for k
    using assms(1) by (simp add: addPowerDistUpdateEvent_prefix [OF assms] events_ok_def)
  ultimately show ?thesis by (simp add: events_ok_def)
qed

lemma ClearPowerDistUpdateEvents_clear:
  "bs_events (ClearPowerDistUpdateEvents h s) = kv_clear_prefix h (bs_events s)"
proof -
  have "fold (\<lambda>k. kv_del (h, k)) ks t = fold kv_del (map (Pair h) ks) t"
    for ks :: "u64 list" and t :: "(u32 \<times> u64, EventPowerDistUpdate) store"
    by (induction ks arbitrary: t) simp_all
  then have "bs_events (ClearPowerDistUpdateEvents h s) =
      filter (\<lambda>e. fst e \<notin> set (map (Pair h) (map fst (kv_prefix h (bs_events s))))) (bs_events s)"
    by (simp only: ClearPowerDistUpdateEvents_def kv_del_fold) simp
  also have "\<dots> = kv_clear_prefix h (bs_events s)"
    unfolding kv_clear_prefix_def by (rule filter_cong) (force simp: kv_prefix_def)+
  finally show ?thesis .
qed

interpretation power_events: event_queue
  addPowerDistUpdateEvent ClearPowerDistUpdateEvents PowerDistUpdateEvents events_ok "2 ^ 64"
proof
  show "PowerDistUpdateEvents (addPowerDistUpdateEvent h e s) h' =
      (if h' = h then PowerDistUpdateEvents s h @ [e] else PowerDistUpdateEvents s h')"
    if "events_ok s" "length (PowerDistUpdateEvents s h) < 2 ^ 64" for s h e h'
    using that by (simp add: PowerDistUpdateEvents_def addPowerDistUpdateEvent_prefix)
  show "events_ok (addPowerDistUpdateEvent h e s)"
    if "events_ok s" "length (PowerDistUpdateEvents s h) < 2 ^ 64" for s h e
    using that by (simp add: PowerDistUpdateEvents_def addPowerDistUpdateEvent_ok)
  show "PowerDistUpdateEvents (ClearPowerDistUpdateEvents h s) h' =
      (if h' = h then [] else PowerDistUpdateEvents s h')" if "events_ok s" for s h h'
    by (simp add: PowerDistUpdateEvents_def ClearPowerDistUpdateEvents_clear kv_prefix_clear)
  show "events_ok (ClearPowerDistUpdateEvents h s)" if "events_ok s" for s h
    using that by (simp add: events_ok_def ClearPowerDistUpdateEvents_clear kv_prefix_clear)
qed

section \<open>Lemmas on finality providers\<close>

lemma bs_fps_event [simp]: "bs_fps (addPowerDistUpdateEvent h e s) = bs_fps s"
  by (simp add: addPowerDistUpdateEvent_def Let_def)

lemma bs_events_SetFinalityProvider [simp]:
  "bs_events (SetFinalityProvider fp s) = bs_events s"
  "events_ok (SetFinalityProvider fp s) = events_ok s"
  "PowerDistUpdateEvents (SetFinalityProvider fp s) h = PowerDistUpdateEvents s h"
  by (simp_all add: SetFinalityProvider_def events_ok_def PowerDistUpdateEvents_def)

lemma GetFinalityProvider_Inr [simp]:
  "GetFinalityProvider s pk = Inr fp \<longleftrightarrow> kv_get (bs_fps s) pk = Some fp"
  by (auto simp: GetFinalityProvider_def split: option.splits)

lemma bs_fps_SetFinalityProvider [simp]:
  "kv_get (bs_fps (SetFinalityProvider fp s)) pk =
    (if pk = fp_btc_pk fp then Some fp else kv_get (bs_fps s) pk)"
  by (simp add: SetFinalityProvider_def)

lemma fps_ok_get: "fps_ok s \<Longrightarrow> kv_get (bs_fps s) pk = Some fp \<Longrightarrow> fp_btc_pk fp = pk"
  by (simp add: fps_ok_def)

lemma fps_ok_Set [simp]: "fps_ok s \<Longrightarrow> fps_ok (SetFinalityProvider fp s)"
  by (auto simp: fps_ok_def SetFinalityProvider_def)

lemma fps_ok_irrelevant [simp]:
  "fps_ok (addPowerDistUpdateEvent h e s) = fps_ok s"
  "fps_ok (SetFpAncAddr a s) = fps_ok s"
  "fps_ok (SoftDeleteFinalityProvider pk s) = fps_ok s"
  "bs_fps (SetFpAncAddr a s) = bs_fps s"
  "bs_fps (SoftDeleteFinalityProvider pk s) = bs_fps s"
  by (simp_all add: fps_ok_def SetFpAncAddr_def SoftDeleteFinalityProvider_def)

text \<open>What each state-changing operation does when it succeeds.\<close>

lemma SlashFinalityProvider_Inr:
  assumes "SlashFinalityProvider c pk s = Inr s'"
  obtains fp tip where "kv_get (bs_fps s) pk = Some fp" "\<not> FinalityProvider_IsSlashed fp"
    "ctx_btc_tip c = Some tip"
    "s' = addPowerDistUpdateEvent (bhi_height tip) (SlashedFp (fp_btc_pk fp))
      (SetFinalityProvider (fp\<lparr>fp_slashed_anon_height := to_u64 (ctx_height c),
         fp_slashed_btc_height := bhi_height tip\<rparr>) s)"
  using assms
  by (auto simp: SlashFinalityProvider_def rbind_eq_Inr Let_def split: if_splits option.splits)

lemma JailFinalityProvider_Inr:
  assumes "JailFinalityProvider c pk s = Inr s'"
  obtains fp tip where "kv_get (bs_fps s) pk = Some fp" "\<not> FinalityProvider_IsSlashed fp"
    "\<not> fp_jailed fp" "ctx_btc_tip c = Some tip"
    "s' = addPowerDistUpdateEvent (bhi_height tip) (JailedFp (fp_btc_pk fp))
      (SetFinalityProvider (fp\<lparr>fp_jailed := True\<rparr>) s)"
  using assms
  by (auto simp: JailFinalityProvider_def FinalityProvider_IsJailed_def rbind_eq_Inr Let_def
      split: if_splits option.splits)

lemma UnjailFinalityProvider_Inr:
  assumes "UnjailFinalityProvider_bs c pk s = Inr s'"
  obtains fp tip where "kv_get (bs_fps s) pk = Some fp" "\<not> FinalityProvider_IsSlashed fp"
    "fp_jailed fp" "ctx_btc_tip c = Some tip"
    "s' = addPowerDistUpdateEvent (bhi_height tip) (UnjailedFp (fp_btc_pk fp))
      (SetFinalityProvider (fp\<lparr>fp_jailed := False\<rparr>) s)"
  using assms
  by (auto simp: UnjailFinalityProvider_bs_def FinalityProvider_IsJailed_def rbind_eq_Inr Let_def
      split: if_splits option.splits)

lemma AddFinalityProvider_Inr:
  assumes "AddFinalityProvider X c msg s = Inr s'"
  obtains fp fpAddr rate info params where "kv_get (bs_fps s) (fp_btc_pk fp) = None"
    "s' = SetFinalityProvider fp (SetFpAncAddr fpAddr s)" "\<not> HasFpRegistered s fpAddr"
    "\<not> FinalityProvider_IsSlashed fp" "\<not> fp_jailed fp" "fp_btc_pk fp = mcf_btc_pk msg"
    "fp_commission fp = Some rate" "fp_commission_info fp = Some info"
    "CommissionInfo_Validate info = Inr ()" "rate \<le> ci_max_rate info" "GetParams s = Inr params"
    "\<exists>m. p_min_commission_rate params = Some m \<and> m \<le> rate"
proof -
  from assms obtain params fpAddr rate minRate maxRate maxChange d where
    facts: "GetParams s = Inr params" "\<not> HasFpRegistered s fpAddr"
      "p_min_commission_rate params = Some minRate" "minRate \<le> rate" "rate \<le> maxRate"
      "CommissionInfo_Validate (NewCommissionInfoWithTime maxRate maxChange (ctx_time c)) = Inr ()"
      "kv_get (bs_fps s) (mcf_btc_pk msg) = None"
    and s': "s' = SetFinalityProvider
      \<lparr>fp_addr = mcf_addr msg, fp_description = Some d, fp_commission = Some rate,
       fp_btc_pk = mcf_btc_pk msg, fp_pop = mcf_pop msg, fp_slashed_anon_height = 0,
       fp_slashed_btc_height = 0, fp_jailed = False, fp_highest_voted_height = 0,
       fp_commission_info = Some (NewCommissionInfoWithTime maxRate maxChange (ctx_time c))\<rparr>
      (SetFpAncAddr fpAddr s)"
    by (auto simp: AddFinalityProvider_def rbind_eq_Inr Let_def HasFinalityProvider_def kv_has_def
        CheckDuplicatedFpAncAddr_def dec_val_def not_less split: if_splits option.splits)
  show thesis
    by (rule that [OF _ s' facts(2) _ _ _ _ _ facts(6) _ facts(1)])
      (use facts in \<open>simp_all add: FinalityProvider_IsSlashed_def NewCommissionInfoWithTime_def\<close>)
qed

lemma UpdateFinalityProviderCommission_Inr:
  assumes "UpdateFinalityProviderCommission c nc fp s = Inr fp'"
  shows "fp' = fp \<and> nc = None \<or>
    (\<exists>new old info m. nc = Some new \<and> fp_commission fp = Some old \<and>
       fp_commission_info fp = Some info \<and> 0 \<le> new \<and> MinCommissionRate s = Inr (Some m) \<and> m \<le> new \<and>
       new \<le> ci_max_rate info \<and> \<bar>new - old\<bar> \<le> ci_max_change_rate info \<and>
       24 * 3600 * 10 ^ 9 \<le> ctx_time c - ci_update_time info \<and>
       fp' = fp\<lparr>fp_commission := Some new,
               fp_commission_info := Some (info\<lparr>ci_update_time := ctx_time c\<rparr>)\<rparr>)"
  using assms
  by (auto simp: UpdateFinalityProviderCommission_def rbind_eq_Inr dec_val_def not_less time_Sub_def
      split: if_splits option.splits)

lemma EditFinalityProvider_Inr:
  assumes "EditFinalityProvider X c req s = Inr s'"
  obtains fp fp1 where "kv_get (bs_fps s) (mef_btc_pk req) = Some fp"
    "UpdateFinalityProviderCommission c (mef_commission req) fp s = Inr fp1"
    "s' = SetFinalityProvider (fp1\<lparr>fp_description := mef_description req\<rparr>) s"
  using assms
  by (auto simp: EditFinalityProvider_def rbind_eq_Inr Let_def split: sum.splits if_splits option.splits)

section \<open>The life cycle of finality providers\<close>

text \<open>The operations that write finality providers, in any order and with any block context.\<close>

inductive fp_step :: "ext \<Rightarrow> bs_state \<Rightarrow> bs_state \<Rightarrow> bool" for X where
  add: "AddFinalityProvider X c msg s = Inr s' \<Longrightarrow> fp_step X s s'"
| edit: "EditFinalityProvider X c req s = Inr s' \<Longrightarrow> fp_step X s s'"
| slash: "SlashFinalityProvider c pk s = Inr s' \<Longrightarrow> fp_step X s s'"
| jail: "JailFinalityProvider c pk s = Inr s' \<Longrightarrow> fp_step X s s'"
| unjail: "UnjailFinalityProvider_bs c pk s = Inr s' \<Longrightarrow> fp_step X s s'"
| delete: "fp_step X s (SoftDeleteFinalityProvider pk s)"

lemma EditFinalityProvider_keeps:
  assumes "UpdateFinalityProviderCommission c nc fp s = Inr fp'"
  shows "fp_btc_pk fp' = fp_btc_pk fp" and "fp_jailed fp' = fp_jailed fp"
    and "fp_slashed_anon_height fp' = fp_slashed_anon_height fp"
    and "fp_slashed_btc_height fp' = fp_slashed_btc_height fp"
  using UpdateFinalityProviderCommission_Inr [OF assms] by auto

lemma fp_step_ok: "fp_step X s s' \<Longrightarrow> fps_ok s \<Longrightarrow> fps_ok s'"
  by (induction rule: fp_step.induct)
    (auto elim: AddFinalityProvider_Inr EditFinalityProvider_Inr SlashFinalityProvider_Inr
      JailFinalityProvider_Inr UnjailFinalityProvider_Inr)

definition slashed_at :: "bs_state \<Rightarrow> bytes \<Rightarrow> u64 \<Rightarrow> u32 \<Rightarrow> bool" where
  "slashed_at s pk anonHeight btcHeight \<longleftrightarrow>
     (\<exists>fp. kv_get (bs_fps s) pk = Some fp \<and> FinalityProvider_IsSlashed fp \<and>
        fp_slashed_anon_height fp = anonHeight \<and> fp_slashed_btc_height fp = btcHeight)"

lemma fp_step_slashed:
  assumes "fp_step X s s'" and "fps_ok s" and "slashed_at s pk ah bh"
  shows "slashed_at s' pk ah bh"
  using assms
proof (induction rule: fp_step.induct)
  case (add c msg s s')
  from add(1) show ?case
    by (rule AddFinalityProvider_Inr) (use add(3) in \<open>auto simp: slashed_at_def\<close>)
next
  case (edit c req s s')
  from edit(1) obtain fp fp1 where e: "kv_get (bs_fps s) (mef_btc_pk req) = Some fp"
    "UpdateFinalityProviderCommission c (mef_commission req) fp s = Inr fp1"
    "s' = SetFinalityProvider (fp1\<lparr>fp_description := mef_description req\<rparr>) s"
    by (rule EditFinalityProvider_Inr)
  with edit(2,3) EditFinalityProvider_keeps [OF e(2)] show ?case
    by (auto simp: slashed_at_def FinalityProvider_IsSlashed_def dest: fps_ok_get)
next
  case (slash c pk' s s')
  from slash(1) show ?case
    by (rule SlashFinalityProvider_Inr) (use slash(2,3) in \<open>auto simp: slashed_at_def dest: fps_ok_get\<close>)
next
  case (jail c pk' s s')
  from jail(1) show ?case
    by (rule JailFinalityProvider_Inr) (use jail(2,3) in \<open>auto simp: slashed_at_def dest: fps_ok_get\<close>)
next
  case (unjail c pk' s s')
  from unjail(1) show ?case
    by (rule UnjailFinalityProvider_Inr) (use unjail(2,3) in \<open>auto simp: slashed_at_def dest: fps_ok_get\<close>)
next
  case (delete s pk')
  then show ?case by (simp add: slashed_at_def)
qed

text \<open>The commission of a registered provider stays within the bounds fixed at registration.\<close>

definition commission_ok :: "FinalityProvider \<Rightarrow> bool" where
  "commission_ok fp \<longleftrightarrow>
     (case (fp_commission fp, fp_commission_info fp) of
        (Some rate, Some info) \<Rightarrow>
          rate \<le> ci_max_rate info \<and> ci_max_rate info \<le> LegacyOneDec \<and>
          0 \<le> ci_max_change_rate info \<and> ci_max_change_rate info \<le> ci_max_rate info
      | _ \<Rightarrow> False)"

definition commissions_ok :: "bs_state \<Rightarrow> bool" where
  "commissions_ok s \<longleftrightarrow> (\<forall>pk fp. kv_get (bs_fps s) pk = Some fp \<longrightarrow> commission_ok fp)"

lemma commissions_ok_Set:
  "commissions_ok s \<Longrightarrow> commission_ok fp \<Longrightarrow> commissions_ok (SetFinalityProvider fp s)"
  by (auto simp: commissions_ok_def)

lemma commissions_ok_irrelevant [simp]:
  "commissions_ok (addPowerDistUpdateEvent h e s) = commissions_ok s"
  "commissions_ok (SetFpAncAddr a s) = commissions_ok s"
  "commissions_ok (SoftDeleteFinalityProvider pk s) = commissions_ok s"
  by (simp_all add: commissions_ok_def)

lemma commissions_ok_get:
  "commissions_ok s \<Longrightarrow> kv_get (bs_fps s) pk = Some fp \<Longrightarrow> commission_ok fp"
  by (auto simp: commissions_ok_def)

lemma CommissionInfo_Validate_Inr:
  "CommissionInfo_Validate info = Inr () \<longleftrightarrow> 0 \<le> ci_max_rate info \<and> ci_max_rate info \<le> LegacyOneDec \<and>
    0 \<le> ci_max_change_rate info \<and> ci_max_change_rate info \<le> ci_max_rate info"
  by (auto simp: CommissionInfo_Validate_def)

lemma UpdateFinalityProviderCommission_ok:
  "commission_ok fp \<Longrightarrow> UpdateFinalityProviderCommission c nc fp s = Inr fp' \<Longrightarrow> commission_ok fp'"
  by (drule UpdateFinalityProviderCommission_Inr) (auto simp: commission_ok_def)

lemma fp_step_commissions:
  assumes "fp_step X s s'" and "commissions_ok s"
  shows "commissions_ok s'"
  using assms
proof (induction rule: fp_step.induct)
  case (add c msg s s')
  from add(1) show ?case
    by (rule AddFinalityProvider_Inr)
      (use add(2) in \<open>auto simp: commission_ok_def CommissionInfo_Validate_Inr intro!: commissions_ok_Set\<close>)
next
  case (edit c req s s')
  from edit(1) obtain fp fp1 where e: "kv_get (bs_fps s) (mef_btc_pk req) = Some fp"
    "UpdateFinalityProviderCommission c (mef_commission req) fp s = Inr fp1"
    "s' = SetFinalityProvider (fp1\<lparr>fp_description := mef_description req\<rparr>) s"
    by (rule EditFinalityProvider_Inr)
  from UpdateFinalityProviderCommission_ok [OF commissions_ok_get [OF edit(2) e(1)] e(2)] edit(2)
  show ?case by (auto simp: e(3) commission_ok_def intro!: commissions_ok_Set)
next
  case (slash c pk s s')
  from slash(1) show ?case
    by (rule SlashFinalityProvider_Inr)
      (use slash(2) in \<open>auto simp: commission_ok_def dest: commissions_ok_get intro!: commissions_ok_Set\<close>)
next
  case (jail c pk s s')
  from jail(1) show ?case
    by (rule JailFinalityProvider_Inr)
      (use jail(2) in \<open>auto simp: commission_ok_def dest: commissions_ok_get intro!: commissions_ok_Set\<close>)
next
  case (unjail c pk s s')
  from unjail(1) show ?case
    by (rule UnjailFinalityProvider_Inr)
      (use unjail(2) in \<open>auto simp: commission_ok_def dest: commissions_ok_get intro!: commissions_ok_Set\<close>)
next
  case (delete s pk)
  then show ?case by simp
qed

section \<open>Lemmas on parameters, overlap and reorgs\<close>

text \<open>The stored parameter sets are numbered from 0 like the pairs of the height map, and a pair
  starts at the activation height of its parameters.\<close>

definition params_ok :: "bs_state \<Rightarrow> bool" where
  "params_ok s \<longleftrightarrow>
     (let m = (case bs_htv s of None \<Rightarrow> [] | Some m \<Rightarrow> m)
      in htv_ok m \<and> map fst (bs_params s) = map of_nat [0 ..< length m] \<and>
         map hv_start_height m =
           map (\<lambda>e. ucast (p_btc_activation_height (sp_params (snd e)))) (bs_params s))"

lemma u32_of_nat_inj: "i < 2 ^ 32 \<Longrightarrow> j < 2 ^ 32 \<Longrightarrow> (of_nat i :: u32) < of_nat j \<longleftrightarrow> i < j"
  by (simp add: word_less_nat_alt unat_of_nat)

lemma nextParamsVersion_eq:
  assumes "map fst (bs_params s) = map of_nat [0 ..< n]"
  shows "nextParamsVersion s = of_nat n"
proof (cases "bs_params s" rule: rev_cases)
  case Nil
  with assms show ?thesis by (simp add: nextParamsVersion_def)
next
  case (snoc t e)
  have "length (bs_params s) = n" using arg_cong [OF assms, of length] by simp
  then have n: "n = Suc (length t)" by (simp add: snoc)
  from assms have "fst e = of_nat (length t)" by (simp add: snoc n)
  then show ?thesis by (simp add: nextParamsVersion_def snoc n)
qed

lemma SetParams_ok:
  assumes "params_ok s" and "length (bs_params s) < 2 ^ 32" and "SetParams X p s = Inr s'"
  shows "params_ok s'"
proof -
  define m where "m = (case bs_htv s of None \<Rightarrow> [] | Some m \<Rightarrow> m)"
  let ?n = "length m"
  have ok: "htv_ok m" and keys: "map fst (bs_params s) = map of_nat [0 ..< ?n]"
    and starts: "map hv_start_height m =
      map (\<lambda>e. ucast (p_btc_activation_height (sp_params (snd e)))) (bs_params s)"
    using assms(1) by (simp_all add: params_ok_def m_def Let_def)
  have len: "length (bs_params s) = ?n" using arg_cong [OF keys, of length] by simp
  let ?p = "NewHeightVersionPair (ucast (p_btc_activation_height p)) (of_nat ?n)"
  from assms(3) obtain m' where add: "AddPair m ?p = Inr m'"
    and s': "s' = s\<lparr>bs_params := kv_set (of_nat ?n) \<lparr>sp_version = of_nat ?n, sp_params = p\<rparr> (bs_params s),
                   bs_htv := Some m'\<rparr>"
    by (auto simp: SetParams_def rbind_eq_Inr Let_def SetHeightToVersionMap_def AddNewPair_def
        nextParamsVersion_eq [OF keys] m_def [symmetric])
  have "m' = m @ [?p]" using add by (auto simp: AddPair_def Let_def split: if_splits)
  moreover have "kv_set (of_nat ?n) \<lparr>sp_version = of_nat ?n, sp_params = p\<rparr> (bs_params s) =
      bs_params s @ [(of_nat ?n, \<lparr>sp_version = of_nat ?n, sp_params = p\<rparr>)]"
  proof (rule kv_set_above)
    fix e assume "e \<in> set (bs_params s)"
    then have "fst e \<in> set (map of_nat [0 ..< ?n])" by (metis keys image_eqI set_map)
    then obtain i where "i < ?n" "fst e = of_nat i" by auto
    with assms(2) len show "fst e < of_nat ?n" by (simp add: u32_of_nat_inj)
  qed
  moreover have "htv_ok m'" by (rule AddPair_ok [OF ok add])
  ultimately show ?thesis
    using keys starts by (simp add: s' params_ok_def NewHeightVersionPair_def)
qed

lemma kv_get_nth:
  assumes "kv_ok t" and "i < length t"
  shows "kv_get t (fst (t ! i)) = Some (snd (t ! i))"
  using assms by (simp add: kv_get_iff)

lemma params_ok_map:
  assumes "params_ok s" and "bs_params s \<noteq> []"
  obtains m where "bs_htv s = Some m" and "htv_ok m" and "length m = length (bs_params s)"
    and "\<And>i. i < length m \<Longrightarrow>
      hv_start_height (m ! i) = ucast (p_btc_activation_height (sp_params (snd (bs_params s ! i))))"
proof (cases "bs_htv s")
  case None
  with assms show thesis by (simp add: params_ok_def)
next
  case (Some m)
  with assms(1) have ok: "htv_ok m" and starts: "map hv_start_height m =
      map (\<lambda>e. ucast (p_btc_activation_height (sp_params (snd e)))) (bs_params s)"
    by (simp_all add: params_ok_def)
  have len: "length m = length (bs_params s)" using arg_cong [OF starts, of length] by simp
  have "hv_start_height (m ! i) = ucast (p_btc_activation_height (sp_params (snd (bs_params s ! i))))"
    if "i < length m" for i
    using arg_cong [OF starts, of "\<lambda>xs. xs ! i"] that len by simp
  with Some ok len show thesis using that by blast
qed

text \<open>What a sequence of \<open>SetParams\<close> leaves in the parameter store.\<close>

definition stored_params :: "Params list \<Rightarrow> (u32, StoredParams) store" where
  "stored_params ps =
     map (\<lambda>i. (of_nat i, \<lparr>sp_version = of_nat i, sp_params = ps ! i\<rparr>)) [0 ..< length ps]"

lemma stored_params_snoc:
  assumes "length ps < 2 ^ 32"
  shows "kv_set (of_nat (length ps)) \<lparr>sp_version = of_nat (length ps), sp_params = p\<rparr>
      (stored_params ps) = stored_params (ps @ [p])"
  by (subst kv_set_above)
    (use assms in \<open>auto simp: stored_params_def nth_append u32_of_nat_inj\<close>)

lemma stored_params_get:
  assumes "length ps < 2 ^ 32" and "i < length ps"
  shows "kv_get (stored_params ps) (of_nat i) = Some \<lparr>sp_version = of_nat i, sp_params = ps ! i\<rparr>"
proof -
  have "kv_ok (stored_params ps)"
    using assms(1)
    by (auto simp: kv_ok_def stored_params_def sorted_wrt_map sorted_wrt_iff_nth_less u32_of_nat_inj)
  from kv_get_nth [OF this, of i] assms(2) show ?thesis by (simp add: stored_params_def)
qed

lemma SetParams_stored:
  assumes "rfold (SetParams X) ps s0 = Inr s" and "bs_params s0 = []" and "bs_htv s0 = None"
    and "length ps < 2 ^ 32"
  shows "params_ok s \<and> bs_params s = stored_params ps"
  using assms(1,4)
proof (induction ps arbitrary: s rule: rev_induct)
  case Nil
  then show ?case using assms(2,3) by (auto simp: stored_params_def params_ok_def)
next
  case (snoc p ps)
  from snoc.prems(1) obtain t where t: "rfold (SetParams X) ps s0 = Inr t" "SetParams X p t = Inr s"
    by (auto simp: rfold_append rbind_eq_Inr)
  from snoc.IH [OF t(1)] snoc.prems(2) have IH: "params_ok t" "bs_params t = stored_params ps" by simp_all
  have len: "length ps < 2 ^ 32" using snoc.prems(2) by simp
  have "params_ok s"
    by (rule SetParams_ok [OF IH(1) _ t(2)]) (use len in \<open>simp add: IH(2) stored_params_def\<close>)
  moreover have "nextParamsVersion t = of_nat (length ps)"
    by (rule nextParamsVersion_eq) (simp add: IH(2) stored_params_def)
  with t(2) have "bs_params s = kv_set (of_nat (length ps))
      \<lparr>sp_version = of_nat (length ps), sp_params = p\<rparr> (stored_params ps)"
    by (auto simp: SetParams_def rbind_eq_Inr Let_def SetHeightToVersionMap_def IH(2))
  ultimately show ?case by (simp add: stored_params_snoc [OF len])
qed

text \<open>The overlap loop counts the shared keys.\<close>

lemma overlap_loop_iff:
  assumes "n < unat required"
  shows "overlap_loop S required n pks \<longleftrightarrow>
    unat required \<le> n + length (filter (\<lambda>pk. MarshalHex pk \<in> S) pks)"
  using assms
proof (induction pks arbitrary: n)
  case Nil
  then show ?case by simp
next
  case (Cons pk pks)
  have "unat required < 2 ^ 32" using unsigned_less [of required] by simp
  then have "(of_nat (n + 1) :: u32) \<ge> required \<longleftrightarrow> unat required \<le> n + 1"
    using Cons.prems by (simp add: word_le_nat_alt unat_of_nat del: of_nat_Suc of_nat_add)
  with Cons show ?case by (cases "unat required \<le> n + 1") (auto simp del: of_nat_Suc of_nat_add)
qed

text \<open>After any number of rollbacks the recorded reorg is the deepest one.\<close>

definition reorg_depth :: "bs_state \<Rightarrow> u32" where
  "reorg_depth s = (case bs_largest_reorg s of None \<Rightarrow> 0 | Some r \<Rightarrow> lbr_block_diff r)"

lemma reorg_depth_AfterBTCRollBack:
  "reorg_depth (AfterBTCRollBack f t s) = max (reorg_depth s) (bhi_height f - bhi_height t)"
  by (auto simp: reorg_depth_def AfterBTCRollBack_def SetLargestBtcReorg_def NewLargestBtcReOrg_def
      max_def not_le word_less_def split: option.splits)

lemma reorg_depth_fold:
  "d \<le> reorg_depth (fold (\<lambda>(f, t). AfterBTCRollBack f t) rs s) \<longleftrightarrow>
    d \<le> reorg_depth s \<or> (\<exists>(f, t) \<in> set rs. d \<le> bhi_height f - bhi_height t)"
  by (induction rs arbitrary: s) (auto simp: reorg_depth_AfterBTCRollBack le_max_iff_disj)

lemma HaltIf_iff:
  "0 < ctx_btc_confirmation_depth c \<Longrightarrow>
    HaltIfBtcReorgLargerThanConfirmationDepth c s = Inr () \<longleftrightarrow>
      \<not> ctx_btc_confirmation_depth c \<le> reorg_depth s"
  by (auto simp: HaltIfBtcReorgLargerThanConfirmationDepth_def reorg_depth_def split: option.splits)

section \<open>Properties\<close>

text \<open>The state before genesis, and an example: one registered finality provider.\<close>

definition bs_empty :: bs_state where
  "bs_empty = \<lparr>bs_fps = [], bs_fp_anc_addr = [], bs_fps_deleted = [], bs_dels = [],
     bs_delegators = [], bs_btc_heights = [], bs_events = [], bs_params = [], bs_htv = None,
     bs_largest_reorg = None, bs_allowed_txs = []\<rparr>"

definition example_fp :: "BIP340PubKey \<Rightarrow> FinalityProvider" where
  "example_fp pk = \<lparr>fp_addr = ''addr'', fp_description = None, fp_commission = Some 0,
     fp_btc_pk = pk, fp_pop = None, fp_slashed_anon_height = 0, fp_slashed_btc_height = 0,
     fp_jailed = False, fp_highest_voted_height = 0,
     fp_commission_info = Some \<lparr>ci_max_rate = 0, ci_max_change_rate = 0, ci_update_time = 0\<rparr>\<rparr>"

definition example_bs :: bs_state where
  "example_bs = SetFinalityProvider (example_fp [7]) bs_empty"

definition example_ctx :: ctx where
  "example_ctx = \<lparr>ctx_height = 5, ctx_time = 0, ctx_app_hash = [],
     ctx_btc_tip = Some \<lparr>bhi_hash = [], bhi_height = 100\<rparr>,
     ctx_btc_base = \<lparr>bhi_hash = [], bhi_height = 1\<rparr>, ctx_btc_confirmation_depth = 10,
     ctx_epoch = 3, ctx_last_finalized_epoch = 2\<rparr>"

lemmas example_bs_simps = example_bs_def example_fp_def bs_empty_def example_ctx_def

lemma example_bs_ok: "fps_ok example_bs" "events_ok example_bs"
  by (auto simp: example_bs_simps fps_ok_def events_ok_def SetFinalityProvider_def kv_prefix_def
      kv_ok_def split: if_splits)



text \<open>C27: Commissions stay within bounds.  Starting from an empty registry, after any sequence of
  finality provider operations every registered provider's commission is at most its maximum
  rate, which is at most one, and its maximum change rate lies between zero and the maximum
  rate.\<close>

theorem commissions_bounded:
  assumes "(fp_step X)\<^sup>*\<^sup>* s0 s" and "bs_fps s0 = []" and "kv_get (bs_fps s) pk = Some fp"
  shows "\<exists>rate info. fp_commission fp = Some rate \<and> fp_commission_info fp = Some info \<and>
    rate \<le> ci_max_rate info \<and> ci_max_rate info \<le> LegacyOneDec \<and>
    0 \<le> ci_max_change_rate info \<and> ci_max_change_rate info \<le> ci_max_rate info"
proof -
  have "commissions_ok s"
    using assms(1)
    by (induction rule: rtranclp_induct)
      (use assms(2) in \<open>auto simp: commissions_ok_def [of s0] intro: fp_step_commissions\<close>)
  with assms(3) show ?thesis
    by (auto dest!: commissions_ok_get simp: commission_ok_def split: option.splits)
qed

definition bs_with_params :: bs_state where
  "bs_with_params = bs_empty\<lparr>bs_params := [(0, \<lparr>sp_version = 0, sp_params = example_params\<rparr>)],
     bs_htv := Some [NewHeightVersionPair 0 0]\<rparr>"

definition example_create :: MsgCreateFinalityProvider where
  "example_create = \<lparr>mcf_addr = ''addr'',
     mcf_description = Some \<lparr>d_moniker = ''m'', d_identity = [], d_website = [], d_security_contact = [],
       d_details = []\<rparr>,
     mcf_commission = \<lparr>cr_rate = Some 5, cr_max_rate = Some 10, cr_max_change_rate = Some 1\<rparr>,
     mcf_btc_pk = [7], mcf_pop = None\<rparr>"

lemma example_create_step:
  obtains s fp where "AddFinalityProvider ext_accepting example_ctx example_create bs_with_params = Inr s"
    and "kv_get (bs_fps s) [7] = Some fp"
proof -
  have "\<exists>s fp. AddFinalityProvider ext_accepting example_ctx example_create bs_with_params = Inr s \<and>
      kv_get (bs_fps s) [7] = Some fp"
    by (simp add: AddFinalityProvider_def bs_with_params_def bs_empty_def example_create_def
        example_ctx_def example_params_def ext_accepting_def GetParams_def mustGetLastParams_def
        getLastParams_def kv_last_def kv_first_def CheckDuplicatedFpAncAddr_def HasFpRegistered_def
        kv_has_def dec_val_def CommissionInfo_Validate_def NewCommissionInfoWithTime_def
        LegacyOneDec_def HasFinalityProvider_def SetFinalityProvider_def SetFpAncAddr_def)
  then show thesis using that by blast
qed

theorem commissions_bounded_witness:
  "\<exists>s fp rate info.
     AddFinalityProvider ext_accepting example_ctx example_create bs_with_params = Inr s \<and>
     kv_get (bs_fps s) [7] = Some fp \<and> fp_commission fp = Some rate \<and>
     fp_commission_info fp = Some info \<and> rate \<le> ci_max_rate info"
proof -
  obtain s fp where add: "AddFinalityProvider ext_accepting example_ctx example_create bs_with_params = Inr s"
    and fp: "kv_get (bs_fps s) [7] = Some fp"
    by (rule example_create_step)
  have "(fp_step ext_accepting)\<^sup>*\<^sup>* bs_with_params s"
    by (rule r_into_rtranclp) (rule fp_step.add [OF add])
  moreover have "bs_fps bs_with_params = []" by (simp add: bs_with_params_def bs_empty_def)
  ultimately show ?thesis using commissions_bounded [OF _ _ fp] add fp by blast
qed

text \<open>C26: The events of a BTC height form a first-in first-out queue: a successful slashing,
  jailing or unjailing appends exactly its own event to the queue of the BTC tip height and leaves
  the queues of all other heights alone.\<close>

theorem life_cycle_events_fifo:
  assumes "fps_ok s" and "events_ok s" and "ctx_btc_tip c = Some tip"
    and "length (PowerDistUpdateEvents s (bhi_height tip)) < 2 ^ 64"
    and "(op, ev) \<in> {(SlashFinalityProvider, SlashedFp pk), (JailFinalityProvider, JailedFp pk),
        (UnjailFinalityProvider_bs, UnjailedFp pk)}"
    and "op c pk s = Inr s'"
  shows "events_ok s' \<and> PowerDistUpdateEvents s' h =
    (if h = bhi_height tip then PowerDistUpdateEvents s h @ [ev] else PowerDistUpdateEvents s h)"
proof -
  have "\<exists>fp'. s' = addPowerDistUpdateEvent (bhi_height tip) ev (SetFinalityProvider fp' s)"
    using assms(5,6)
    by (auto elim!: SlashFinalityProvider_Inr JailFinalityProvider_Inr UnjailFinalityProvider_Inr
        simp: assms(3) fps_ok_get [OF assms(1), of pk])
  then obtain fp' where "s' = addPowerDistUpdateEvent (bhi_height tip) ev (SetFinalityProvider fp' s)" ..
  then show ?thesis
    using power_events.queue_enq [of "SetFinalityProvider fp' s" "bhi_height tip" ev h]
      power_events.ok_enq [of "SetFinalityProvider fp' s" "bhi_height tip" ev] assms(2,4)
    by simp
qed

theorem life_cycle_events_fifo_witness:
  "\<exists>s'. JailFinalityProvider example_ctx [7] example_bs = Inr s' \<and>
     PowerDistUpdateEvents s' 100 = [JailedFp [7]]"
proof -
  obtain s' where s': "JailFinalityProvider example_ctx [7] example_bs = Inr s'"
    by (simp add: JailFinalityProvider_def example_bs_simps SetFinalityProvider_def
        GetFinalityProvider_def FinalityProvider_IsSlashed_def FinalityProvider_IsJailed_def)
  have "PowerDistUpdateEvents example_bs 100 = []"
    by (simp add: example_bs_simps SetFinalityProvider_def PowerDistUpdateEvents_def kv_prefix_def)
  with life_cycle_events_fifo [OF example_bs_ok, of example_ctx "\<lparr>bhi_hash = [], bhi_height = 100\<rparr>"
      JailFinalityProvider "JailedFp [7]" "[7]" s' 100] s'
  show ?thesis by (simp add: example_ctx_def)
qed

text \<open>C28: The parameter lookup is total above the first activation height.  In a state reached
  by \<open>SetParams\<close> from an empty parameter store, \<open>GetParamsForBtcHeight\<close> at a height at or above
  the first activation height returns a stored parameter set, the one with the latest activation
  height that is not above the queried height.\<close>

theorem GetParamsForBtcHeight_in_force:
  assumes "rfold (SetParams X) ps s0 = Inr s" and "bs_params s0 = []" and "bs_htv s0 = None"
    and "ps \<noteq> []" and "length ps < 2 ^ 32" and "ucast (p_btc_activation_height (hd ps)) \<le> h"
  shows "\<exists>i < length ps. GetParamsForBtcHeight s h = Inr (Some (ps ! i), of_nat i) \<and>
    ucast (p_btc_activation_height (ps ! i)) \<le> h \<and>
    (\<forall>j < length ps. i < j \<longrightarrow> h < ucast (p_btc_activation_height (ps ! j)))"
proof -
  from SetParams_stored [OF assms(1,2,3,5)]
  have ok: "params_ok s" and params: "bs_params s = stored_params ps" by auto
  have "bs_params s \<noteq> []" using params assms(4) by (simp add: stored_params_def)
  from params_ok_map [OF ok this] obtain m where m: "bs_htv s = Some m" "htv_ok m"
    "length m = length ps" "\<And>i. i < length ps \<Longrightarrow>
      hv_start_height (m ! i) = ucast (p_btc_activation_height (sp_params (snd (bs_params s ! i))))"
    by (auto simp: params stored_params_def)
  then have starts: "hv_start_height (m ! i) = ucast (p_btc_activation_height (ps ! i))"
    if "i < length ps" for i
    using that by (simp add: params stored_params_def)
  have first: "hv_start_height (m ! 0) \<le> h"
    using starts [of 0] assms(4,6) by (simp add: hd_conv_nth)
  have "m \<noteq> []" using m(3) assms(4) by auto
  from GetVersionForHeight_found [OF m(2) this first] obtain i where i: "i < length m"
    "GetVersionForHeight m h = Inr (of_nat i)" "hv_start_height (m ! i) \<le> h"
    "\<And>j. i < j \<Longrightarrow> j < length m \<Longrightarrow> h < hv_start_height (m ! j)" by blast
  have "GetParamsForBtcHeight s h = Inr (Some (ps ! i), of_nat i)"
    using m(1) i(1,2) stored_params_get [OF assms(5), of i] m(3)
    by (simp add: GetParamsForBtcHeight_def GetParamsByVersion_def params)
  with i m(3) starts show ?thesis by auto
qed

theorem GetParamsForBtcHeight_in_force_witness:
  "\<exists>s. rfold (SetParams ext_accepting) [example_params] bs_empty = Inr s \<and>
     GetParamsForBtcHeight s 7 = Inr (Some example_params, 0)"
proof -
  have "\<exists>s. SetParams ext_accepting example_params bs_empty = Inr s"
    by (simp add: SetParams_def example_params_valid bs_empty_def AddNewPair_def AddPair_def
        NewHeightVersionPair_def nextParamsVersion_def SetHeightToVersionMap_def
        HeightToVersionMap_Validate_def)
  then obtain s where s: "rfold (SetParams ext_accepting) [example_params] bs_empty = Inr s" by auto
  with GetParamsForBtcHeight_in_force [OF s, of 7] show ?thesis
    by (auto simp: bs_empty_def example_params_def)
qed

text \<open>The committee overlap test is exact: with a positive requirement it holds exactly when at
  least that many keys of the old committee occur in the new one; the 32-bit counter never
  wraps.\<close>

theorem hasSufficientCovenantOverlap_exact:
  "hasSufficientCovenantOverlap old new required \<longleftrightarrow>
     required \<noteq> 0 \<and> unat required \<le> length (filter (\<lambda>pk. pk \<in> set new) old)"
proof (cases "required = 0 \<or> old = [] \<or> new = []")
  case True
  then show ?thesis by (auto simp: hasSufficientCovenantOverlap_def unat_eq_0)
next
  case False
  then have "0 < unat required" by (simp add: unat_gt_0)
  moreover have "(\<lambda>pk. MarshalHex pk \<in> set (map MarshalHex new)) = (\<lambda>pk. pk \<in> set new)"
    by (auto simp: fun_eq_iff)
  ultimately show ?thesis
    using False overlap_loop_iff [of 0 required "set (map MarshalHex new)" old]
    by (simp add: hasSufficientCovenantOverlap_def)
qed

text \<open>C29: The chain halts exactly on deep reorgs: starting without a recorded reorg and with a
  positive confirmation depth, after any sequence of BTC rollbacks the end-of-block check passes
  if and only if every rollback was shallower than the confirmation depth.\<close>

theorem halt_iff_deep_reorg:
  assumes "bs_largest_reorg s = None" and "0 < ctx_btc_confirmation_depth c"
  shows "HaltIfBtcReorgLargerThanConfirmationDepth c (fold (\<lambda>(f, t). AfterBTCRollBack f t) rs s) = Inr () \<longleftrightarrow>
    (\<forall>(f, t) \<in> set rs. bhi_height f - bhi_height t < ctx_btc_confirmation_depth c)"
proof -
  have "\<not> ctx_btc_confirmation_depth c \<le> reorg_depth s"
    using assms by (simp add: reorg_depth_def not_le)
  then show ?thesis
    by (simp only: HaltIf_iff [OF assms(2)] reorg_depth_fold) (auto simp: not_le)
qed

theorem halt_iff_deep_reorg_witness:
  "HaltIfBtcReorgLargerThanConfirmationDepth example_ctx
     (fold (\<lambda>(f, t). AfterBTCRollBack f t)
        [(\<lparr>bhi_hash = [], bhi_height = 20\<rparr>, \<lparr>bhi_hash = [], bhi_height = 18\<rparr>)] bs_empty) = Inr ()"
  by (subst halt_iff_deep_reorg) (simp_all add: bs_empty_def example_ctx_def)

end
