(* ===== verification/BtcStaking_Delegations.thy ===== *)
theory BtcStaking_Delegations
  imports BtcStaking_Keeper
begin

text \<open>
  BTC delegations in the keeper (\<open>x/btcstaking/keeper/btc_delegations.go\<close> and
  \<open>btc_delegators.go\<close>): storing a verified delegation, adding covenant signatures, early unbonding,
  and the status of a delegation whose stake may extend an earlier one.

  \<open>getBTCDelWithParams\<close> follows the chain of stake expansions by recursion.  The model bounds the
  recursion by the number of stored delegations plus one.  A chain that is longer has a cycle, on
  which the Go code would recurse until its stack overflows, so running out of fuel is a panic;
  on a chain without cycles the bound is never reached (\<open>getBTCDelWithParams_terminates\<close>).
\<close>

section \<open>Stores\<close>

definition getBTCDelegation :: "bs_state \<Rightarrow> bytes \<Rightarrow> BTCDelegation option" where
  "getBTCDelegation s stakingTxHash = kv_get (bs_dels s) stakingTxHash"

definition setBTCDelegation :: "ext \<Rightarrow> BTCDelegation \<Rightarrow> bs_state \<Rightarrow> bs_state res" where
  "setBTCDelegation X btcDel s =
     rbind (MustGetStakingTxHash X btcDel) (\<lambda>stakingTxHash.
       Inr (s\<lparr>bs_dels := kv_set stakingTxHash btcDel (bs_dels s)\<rparr>))"

definition GetBTCDelegation :: "ext \<Rightarrow> bs_state \<Rightarrow> string \<Rightarrow> BTCDelegation res" where
  "GetBTCDelegation X s stakingTxHashStr =
     rbind (ext_NewHashFromStr X stakingTxHashStr) (\<lambda>stakingTxHash.
       case getBTCDelegation s stakingTxHash of
         None \<Rightarrow> Inl ErrBTCDelegationNotFound
       | Some btcDel \<Rightarrow> Inr btcDel)"

definition getBTCDelegatorDelegationIndex ::
  "bs_state \<Rightarrow> BIP340PubKey \<Rightarrow> BIP340PubKey \<Rightarrow> BTCDelegatorDelegationIndex option" where
  "getBTCDelegatorDelegationIndex s fpBTCPK delBTCPK =
     (if \<not> HasFinalityProvider s fpBTCPK then None
      else kv_get (bs_delegators s) (fpBTCPK, delBTCPK))"

definition setBTCDelegatorDelegationIndex ::
  "BIP340PubKey \<Rightarrow> BIP340PubKey \<Rightarrow> BTCDelegatorDelegationIndex \<Rightarrow> bs_state \<Rightarrow> bs_state" where
  "setBTCDelegatorDelegationIndex fpBTCPK delBTCPK btcDelIndex s =
     s\<lparr>bs_delegators := kv_set (fpBTCPK, delBTCPK) btcDelIndex (bs_delegators s)\<rparr>"

definition HandleFPBTCDelegations ::
  "ext \<Rightarrow> bs_state \<Rightarrow> BIP340PubKey \<Rightarrow> (BTCDelegation \<Rightarrow> 'a \<Rightarrow> 'a res) \<Rightarrow> 'a \<Rightarrow> 'a res" where
  "HandleFPBTCDelegations X s fpBTCPK handler a =
     (if \<not> HasFinalityProvider s fpBTCPK then Inl ErrFpNotFound
      else rfold (\<lambda>hashes. rfold (\<lambda>hashBytes acc.
             rbind (ext_NewHash X hashBytes) (\<lambda>stakingTxHash.
               case getBTCDelegation s stakingTxHash of
                 None \<Rightarrow> Inr acc
               | Some btcDel \<Rightarrow> handler btcDel acc)) hashes)
             (map snd (kv_prefix fpBTCPK (bs_delegators s))) a)"

definition FpTotalSatsStaked :: "ext \<Rightarrow> bs_state \<Rightarrow> BIP340PubKey \<Rightarrow> u64 res" where
  "FpTotalSatsStaked X s fpBTCPK =
     rbind (HandleFPBTCDelegations X s fpBTCPK
              (\<lambda>b totalVp. Inr (wrap64 (totalVp + to_i64 (bd_total_sat b)))) 0)
       (\<lambda>totalVp. Inr (to_u64 totalVp))"

section \<open>Adding a delegation\<close>

definition indexDelegation ::
  "bytes \<Rightarrow> BIP340PubKey \<Rightarrow> BIP340PubKey \<Rightarrow> bs_state \<Rightarrow> bs_state res" where
  "indexDelegation stakingTxHash delBTCPK fpBTCPK s =
     (let btcDelIndex = (case getBTCDelegatorDelegationIndex s fpBTCPK delBTCPK of
                           None \<Rightarrow> NewBTCDelegatorDelegationIndex
                         | Some i \<Rightarrow> i)
      in case DelegationIndex_Add btcDelIndex stakingTxHash of
           Inl _ \<Rightarrow> Inl ErrInvalidStakingTx
         | Inr i \<Rightarrow> Inr (setBTCDelegatorDelegationIndex fpBTCPK delBTCPK i s))"

definition AddBTCDelegation :: "ext \<Rightarrow> BTCDelegation \<Rightarrow> bs_state \<Rightarrow> bs_state res" where
  "AddBTCDelegation X btcDel s =
     rbind (GetStakingTxHash X btcDel) (\<lambda>stakingTxHash.
     rbind (rfold (indexDelegation stakingTxHash (bd_btc_pk btcDel)) (bd_fp_btc_pk_list btcDel) s) (\<lambda>s1.
     rbind (setBTCDelegation X btcDel s1) (\<lambda>s2.
     rbind (if IsStakeExpansion btcDel then MustGetStakeExpansionTxHash X btcDel else Inr []) (\<lambda>_.
     if HasInclusionProof btcDel
     then Inr (addPowerDistUpdateEvent (bd_end_height btcDel - bd_unbonding_time btcDel)
                 (BtcDelStateUpdate (ext_HashString X stakingTxHash) EXPIRED) s2)
     else Inr s2))))"

section \<open>Delegations with their parameters\<close>

record btcDelegationWithParams =
  dwp_delegation :: BTCDelegation
  dwp_params :: Params
  dwp_prev_del :: "BTCDelegation option"
  dwp_prev_params :: "Params option"

fun getBTCDelWithParams_fuel ::
  "nat \<Rightarrow> ext \<Rightarrow> bs_state \<Rightarrow> string \<Rightarrow> btcDelegationWithParams res option" where
  "getBTCDelWithParams_fuel 0 X s stakingTxHash = None"
| "getBTCDelWithParams_fuel (Suc n) X s stakingTxHash =
     (case GetBTCDelegation X s stakingTxHash of
        Inl e \<Rightarrow> Some (Inl e)
      | Inr btcDel \<Rightarrow>
          (case GetParamsByVersion s (bd_params_version btcDel) of
             None \<Rightarrow> Some (Inl (Errorf ''params version in BTC delegation is not found''))
           | Some bsParams \<Rightarrow>
               let r = \<lparr>dwp_delegation = btcDel, dwp_params = bsParams, dwp_prev_del = None,
                        dwp_prev_params = None\<rparr>
               in if \<not> IsStakeExpansion btcDel then Some (Inr r)
                  else (case MustGetStakeExpansionTxHash X btcDel of
                          Inl e \<Rightarrow> Some (Inl e)
                        | Inr prevHash \<Rightarrow>
                            map_option (\<lambda>prev.
                              case prev of
                                Inl (Panic m) \<Rightarrow> Inl (Panic m)
                              | Inl _ \<Rightarrow>
                                  Inl (Errorf ''failed to get previous BTC delegation for stake expansion'')
                              | Inr stkExpInfo \<Rightarrow>
                                  Inr (r\<lparr>dwp_prev_del := Some (dwp_delegation stkExpInfo),
                                         dwp_prev_params := Some (dwp_params stkExpInfo)\<rparr>))
                              (getBTCDelWithParams_fuel n X s (ext_HashString X prevHash)))))"

definition getBTCDelWithParams :: "ext \<Rightarrow> bs_state \<Rightarrow> string \<Rightarrow> btcDelegationWithParams res" where
  "getBTCDelWithParams X s stakingTxHash =
     (case getBTCDelWithParams_fuel (Suc (length (bs_dels s))) X s stakingTxHash of
        None \<Rightarrow> Inl (Panic ''stack overflow'')
      | Some r \<Rightarrow> r)"

text \<open>The quorum of the previous stake, 0 for a delegation that expands none.  A missing
  \<open>PrevParams\<close> of a stake expansion is a nil dereference.\<close>

definition prevStkCovenantQuorum :: "btcDelegationWithParams \<Rightarrow> u32 res" where
  "prevStkCovenantQuorum delInfo =
     (if IsStakeExpansion (dwp_delegation delInfo)
      then (case dwp_prev_params delInfo of
              None \<Rightarrow> Inl (Panic ''nil pointer dereference'')
            | Some p \<Rightarrow> Inr (p_covenant_quorum p))
      else Inr 0)"

definition BtcDelStatusWithTip ::
  "ctx \<Rightarrow> btcDelegationWithParams \<Rightarrow> (BTCDelegationStatus \<times> BTCHeaderInfo) res" where
  "BtcDelStatusWithTip c delInfo =
     rbind (prevStkCovenantQuorum delInfo) (\<lambda>prevQuorum.
       case ctx_btc_tip c of
         None \<Rightarrow> Inl (Panic ''nil pointer dereference'')
       | Some btcTip \<Rightarrow>
           Inr (GetStatus (dwp_delegation delInfo) (bhi_height btcTip)
                  (p_covenant_quorum (dwp_params delInfo)) prevQuorum, btcTip))"

definition IsBtcDelegationActive ::
  "ext \<Rightarrow> ctx \<Rightarrow> bs_state \<Rightarrow> string \<Rightarrow> btcDelegationWithParams res" where
  "IsBtcDelegationActive X c s stakingTxHash =
     rbind (getBTCDelWithParams X s stakingTxHash) (\<lambda>delWithParams.
     rbind (BtcDelStatusWithTip c delWithParams) (\<lambda>(status, _).
       if status \<noteq> ACTIVE then Inl (Errorf ''BTC delegation is not active'')
       else Inr delWithParams))"

text \<open>\<open>BtcDelStatus\<close> and \<open>BtcDelHasCovenantQuorums\<close> look up the quorum of the stake that a
  delegation expands.\<close>

definition quorumPreviousStk :: "ext \<Rightarrow> bs_state \<Rightarrow> BTCDelegation \<Rightarrow> u32 res" where
  "quorumPreviousStk X s btcDel =
     (if IsStakeExpansion btcDel
      then rbind (MustGetStakeExpansionTxHash X btcDel) (\<lambda>h.
           rbind (getBTCDelWithParams X s (ext_HashString X h)) (\<lambda>delInfo.
             Inr (p_covenant_quorum (dwp_params delInfo))))
      else Inr 0)"

definition BtcDelStatus ::
  "ext \<Rightarrow> bs_state \<Rightarrow> BTCDelegation \<Rightarrow> u32 \<Rightarrow> u32 \<Rightarrow> BTCDelegationStatus res" where
  "BtcDelStatus X s btcDel covenantQuorum btcTipHeight =
     rbind (quorumPreviousStk X s btcDel) (\<lambda>q. Inr (GetStatus btcDel btcTipHeight covenantQuorum q))"

definition BtcDelHasCovenantQuorums ::
  "ext \<Rightarrow> bs_state \<Rightarrow> BTCDelegation \<Rightarrow> u32 \<Rightarrow> bool res" where
  "BtcDelHasCovenantQuorums X s btcDel quorum =
     rbind (quorumPreviousStk X s btcDel) (\<lambda>q. Inr (HasCovenantQuorums btcDel quorum q))"

section \<open>Changing a delegation\<close>

definition addCovenantSigsToBTCDelegation ::
  "ext \<Rightarrow> btcDelegationWithParams \<Rightarrow> BIP340PubKey \<Rightarrow> bytes list \<Rightarrow> bytes \<Rightarrow> bytes list \<Rightarrow> bytes \<Rightarrow> u32 \<Rightarrow>
   bs_state \<Rightarrow> bs_state res" where
  "addCovenantSigsToBTCDelegation X delInfo covPK slashingSigs unbondingTxSig unbondingSlashingSigs
     stakeExpansionTxSig btcTipHeight s =
     rbind (prevStkCovenantQuorum delInfo) (\<lambda>q.
       let btcDel = dwp_delegation delInfo;
           quorum = p_covenant_quorum (dwp_params delInfo);
           hadQuorum = HasCovenantQuorums btcDel quorum q;
           btcDel' = AddCovenantSigs covPK slashingSigs unbondingTxSig unbondingSlashingSigs
                       stakeExpansionTxSig btcDel
       in rbind (setBTCDelegation X btcDel' s) (\<lambda>s1.
            if \<not> hadQuorum \<and> HasCovenantQuorums btcDel' quorum q \<and> HasInclusionProof btcDel'
            then rbind (MustGetStakingTxHash X btcDel') (\<lambda>h.
                   Inr (addPowerDistUpdateEvent btcTipHeight
                          (BtcDelStateUpdate (ext_HashString X h) ACTIVE) s1))
            else Inr s1))"

text \<open>\<open>u\<close> is the spending transaction kept as the unbonding information.\<close>

definition btcUndelegate :: "ext \<Rightarrow> ctx \<Rightarrow> BTCDelegation \<Rightarrow> bytes \<Rightarrow> bs_state \<Rightarrow> bs_state res" where
  "btcUndelegate X c btcDel u s =
     (let btcDel' = btcDel\<lparr>bd_btc_undelegation :=
            (bd_btc_undelegation btcDel)\<lparr>ud_delegator_unbonding_info := Some u\<rparr>\<rparr>
      in rbind (setBTCDelegation X btcDel' s) (\<lambda>s1.
           if \<not> HasInclusionProof btcDel' then Inr s1
           else rbind (MustGetStakingTxHash X btcDel') (\<lambda>h.
             case ctx_btc_tip c of
               None \<Rightarrow> Inl (Panic ''nil pointer dereference'')
             | Some btcTip \<Rightarrow>
                 Inr (addPowerDistUpdateEvent (bhi_height btcTip)
                        (BtcDelStateUpdate (ext_HashString X h) UNBONDED) s1))))"

definition isAllowListEnabled :: "ctx \<Rightarrow> Params \<Rightarrow> bool" where
  "isAllowListEnabled c p \<longleftrightarrow> p_allow_list_expiration_height p > 0 \<and>
     to_u64 (ctx_height c) < p_allow_list_expiration_height p"

definition IndexAllowedStakingTransaction :: "bytes \<Rightarrow> bs_state \<Rightarrow> bs_state" where
  "IndexAllowedStakingTransaction txHash s = s\<lparr>bs_allowed_txs := kv_set txHash () (bs_allowed_txs s)\<rparr>"

definition IsStakingTransactionAllowed :: "bs_state \<Rightarrow> bytes \<Rightarrow> bool" where
  "IsStakingTransactionAllowed s txHash \<longleftrightarrow> kv_has (bs_allowed_txs s) txHash"

fun validateStakedFPs :: "bs_state \<Rightarrow> BIP340PubKey list \<Rightarrow> unit res" where
  "validateStakedFPs s [] = Inr ()"
| "validateStakedFPs s (fpBTCPK # pks) =
     (case GetFinalityProvider s fpBTCPK of
        Inl _ \<Rightarrow> Inl ErrFpNotFound
      | Inr fp \<Rightarrow>
          if FinalityProvider_IsSlashed fp then Inl ErrFpAlreadySlashed
          else if IsFinalityProviderDeleted s fpBTCPK then Inl ErrFinalityProviderIsDeleted
          else validateStakedFPs s pks)"

section \<open>Lemmas\<close>

lemma validateStakedFPs_Inr:
  "validateStakedFPs s pks = Inr () \<longleftrightarrow>
    (\<forall>pk \<in> set pks. \<exists>fp. kv_get (bs_fps s) pk = Some fp \<and> \<not> FinalityProvider_IsSlashed fp \<and>
       \<not> IsFinalityProviderDeleted s pk)"
  by (induction pks) (auto simp: GetFinalityProvider_def split: option.splits sum.splits)

text \<open>A delegation is filed under the hash of its staking transaction.\<close>

definition dels_ok :: "ext \<Rightarrow> bs_state \<Rightarrow> bool" where
  "dels_ok X s \<longleftrightarrow> kv_ok (bs_dels s) \<and>
     (\<forall>h d. kv_get (bs_dels s) h = Some d \<longrightarrow> GetStakingTxHash X d = Inr h)"

lemma setBTCDelegation_Inr:
  assumes "setBTCDelegation X d s = Inr s'"
  obtains h where "GetStakingTxHash X d = Inr h"
    and "s' = s\<lparr>bs_dels := kv_set h d (bs_dels s)\<rparr>"
  using assms
  by (auto simp: setBTCDelegation_def MustGetStakingTxHash_def rbind_eq_Inr split: sum.splits)

lemma setBTCDelegation_ok:
  "dels_ok X s \<Longrightarrow> setBTCDelegation X d s = Inr s' \<Longrightarrow> dels_ok X s'"
  by (auto simp: dels_ok_def elim!: setBTCDelegation_Inr split: if_splits)

lemma setBTCDelegation_get:
  "setBTCDelegation X d s = Inr s' \<Longrightarrow> GetStakingTxHash X d = Inr h \<Longrightarrow>
    kv_get (bs_dels s') h' = (if h' = h then Some d else kv_get (bs_dels s) h')"
  by (auto elim!: setBTCDelegation_Inr)

lemma bs_dels_event [simp]:
  "bs_dels (addPowerDistUpdateEvent h e s) = bs_dels s"
  "bs_delegators (addPowerDistUpdateEvent h e s) = bs_delegators s"
  by (simp_all add: addPowerDistUpdateEvent_def Let_def)

lemma setBTCDelegation_frame:
  assumes "setBTCDelegation X d s = Inr s'"
  shows "bs_events s' = bs_events s" and "bs_delegators s' = bs_delegators s"
    and "bs_fps s' = bs_fps s" and "PowerDistUpdateEvents s' k = PowerDistUpdateEvents s k"
    and "events_ok s' = events_ok s"
  using assms
  by (auto elim!: setBTCDelegation_Inr simp: PowerDistUpdateEvents_def events_ok_def)

lemma AddCovenantSigs_simps [simp]:
  "bd_staking_tx (AddCovenantSigs pk a b d' e del) = bd_staking_tx del"
  "HasInclusionProof (AddCovenantSigs pk a b d' e del) = HasInclusionProof del"
  "IsUnbondedEarly (AddCovenantSigs pk a b d' e del) = IsUnbondedEarly del"
  "GetStakingTxHash X (AddCovenantSigs pk a b d' e del) = GetStakingTxHash X del"
  by (simp_all add: AddCovenantSigs_def BTCUndelegation_addCovenantSigs_def HasInclusionProof_def
      IsUnbondedEarly_def GetStakingTxHash_def)

text \<open>More signatures never lose a quorum.\<close>

lemma HasCovenantQuorums_AddCovenantSigs:
  "HasCovenantQuorums d q p \<Longrightarrow> HasCovenantQuorums (AddCovenantSigs pk a b d' e d) q p"
  by (auto simp: HasCovenantQuorums_def AddCovenantSigs_def BTCUndelegation_addCovenantSigs_def
      BTCUndelegation_HasCovenantQuorums_def HasCovenantQuorumOnUnbonding_def
      HasCovenantQuorumOnSlashing_def StakeExpansion_AddCovenantSigs_def
      StakeExpansion_HasCovenantQuorums_def Let_def split: option.splits)

subsection \<open>The chain of stake expansions\<close>

text \<open>\<open>expands X s k k'\<close>: the delegation stored under \<open>k\<close> expands the stake whose hash is \<open>k'\<close>.\<close>

definition expands :: "ext \<Rightarrow> bs_state \<Rightarrow> bytes \<Rightarrow> bytes \<Rightarrow> bool" where
  "expands X s k k' \<longleftrightarrow>
     (\<exists>d p. kv_get (bs_dels s) k = Some d \<and> MustGetStakeExpansionTxHash X d = Inr p \<and>
        ext_NewHashFromStr X (ext_HashString X p) = Inr k')"

lemma GetBTCDelegation_Inr:
  "GetBTCDelegation X s h = Inr d \<longleftrightarrow>
    (\<exists>k. ext_NewHashFromStr X h = Inr k \<and> kv_get (bs_dels s) k = Some d)"
  by (auto simp: GetBTCDelegation_def getBTCDelegation_def rbind_eq_Inr split: option.splits)

text \<open>Running out of fuel leaves a chain of stored delegations as long as the fuel.\<close>

lemma getBTCDelWithParams_fuel_None:
  assumes "\<And>k k'. expands X s k k' \<Longrightarrow> rank k' < (rank k :: nat)"
    and "getBTCDelWithParams_fuel n X s h = None"
  shows "\<exists>ks. length ks = n \<and> set ks \<subseteq> fst ` set (bs_dels s) \<and>
    sorted_wrt (\<lambda>a b. rank b < rank a) ks \<and> (\<forall>k \<in> set (take 1 ks). ext_NewHashFromStr X h = Inr k)"
  using assms(2)
proof (induction n arbitrary: h)
  case 0
  then show ?case by simp
next
  case (Suc n)
  from Suc.prems obtain d p where d: "GetBTCDelegation X s h = Inr d"
    "MustGetStakeExpansionTxHash X d = Inr p"
    "getBTCDelWithParams_fuel n X s (ext_HashString X p) = None"
    by (auto simp: Let_def split: sum.splits option.splits if_splits)
  from d(1) obtain k where k: "ext_NewHashFromStr X h = Inr k" "kv_get (bs_dels s) k = Some d"
    by (auto simp: GetBTCDelegation_Inr)
  from Suc.IH [OF d(3)] obtain ks where ks: "length ks = n" "set ks \<subseteq> fst ` set (bs_dels s)"
    "sorted_wrt (\<lambda>a b. rank b < rank a) ks"
    "\<forall>k \<in> set (take 1 ks). ext_NewHashFromStr X (ext_HashString X p) = Inr k" by blast
  have below: "rank k' < rank k" if "k' \<in> set ks" for k'
  proof (cases ks)
    case (Cons k1 rest)
    then have "expands X s k k1" using k(2) d(2) ks(4) by (auto simp: expands_def)
    then have "rank k1 < rank k" by (rule assms(1))
    with ks(3) that Cons show ?thesis by auto
  qed (use that in simp)
  have "k \<in> fst ` set (bs_dels s)"
    using k(2) by (force simp: kv_get_def dest: map_of_SomeD)
  with k(1) ks below have "length (k # ks) = Suc n \<and> set (k # ks) \<subseteq> fst ` set (bs_dels s) \<and>
      sorted_wrt (\<lambda>a b. rank b < rank a) (k # ks) \<and>
      (\<forall>k' \<in> set (take 1 (k # ks)). ext_NewHashFromStr X h = Inr k')" by simp
  then show ?case by blast
qed

lemma sorted_rank_distinct: "sorted_wrt (\<lambda>a b. rank b < (rank a :: nat)) ks \<Longrightarrow> distinct ks"
  by (induction ks) auto

subsection \<open>Indexing a new delegation\<close>

lemma indexDelegation_Inr:
  assumes "indexDelegation h del fp s = Inr s'"
  obtains i where "i = (case getBTCDelegatorDelegationIndex s fp del of None \<Rightarrow> [] | Some i \<Rightarrow> i)"
    "h \<notin> set i" "s' = s\<lparr>bs_delegators := kv_set (fp, del) (i @ [h]) (bs_delegators s)\<rparr>"
  using assms
  by (auto simp: indexDelegation_def Let_def DelegationIndex_Add_def list_ex_iff
      NewBTCDelegatorDelegationIndex_def setBTCDelegatorDelegationIndex_def
      split: option.splits if_splits)

text \<open>The loop over the finality providers touches only the delegator index; each provider's index
  gains the hash, which it did not hold before.\<close>

lemma indexDelegation_loop:
  assumes "rfold (indexDelegation h del) fps s = Inr s'"
    and "\<And>fp. fp \<in> set fps \<Longrightarrow> HasFinalityProvider s fp"
  shows "s' = s\<lparr>bs_delegators := bs_delegators s'\<rparr>" and "distinct fps"
    and "\<And>fp. fp \<in> set fps \<Longrightarrow> \<exists>i. h \<notin> set i \<and>
      i = (case kv_get (bs_delegators s) (fp, del) of None \<Rightarrow> [] | Some i \<Rightarrow> i) \<and>
      kv_get (bs_delegators s') (fp, del) = Some (i @ [h])"
    and "\<And>k. k \<notin> (\<lambda>fp. (fp, del)) ` set fps \<Longrightarrow>
      kv_get (bs_delegators s') k = kv_get (bs_delegators s) k"
  using assms
proof (atomize (full), induction fps arbitrary: s)
  case Nil
  then show ?case by simp
next
  case (Cons fp fps)
  from Cons.prems(1) obtain s1 where s1: "indexDelegation h del fp s = Inr s1"
    "rfold (indexDelegation h del) fps s1 = Inr s'" by (auto simp: rbind_eq_Inr)
  have has: "HasFinalityProvider s fp" using Cons.prems(2) by simp
  from s1(1) obtain i where i: "i = (case kv_get (bs_delegators s) (fp, del) of None \<Rightarrow> [] | Some i \<Rightarrow> i)"
    "h \<notin> set i" and s1': "s1 = s\<lparr>bs_delegators := kv_set (fp, del) (i @ [h]) (bs_delegators s)\<rparr>"
    using has by (auto elim!: indexDelegation_Inr simp: getBTCDelegatorDelegationIndex_def)
  have has1: "HasFinalityProvider s1 g" if "g \<in> set fps" for g
    using Cons.prems(2) that by (simp add: s1' HasFinalityProvider_def)
  note IH = Cons.IH [OF s1(2) has1]
  have notin: "fp \<notin> set fps"
  proof
    assume "fp \<in> set fps"
    with IH have "h \<notin> set (i @ [h])" by (auto simp: s1')
    then show False by simp
  qed
  then have "kv_get (bs_delegators s') (fp, del) = kv_get (bs_delegators s1) (fp, del)"
    using IH by blast
  with IH i notin show ?case by (auto simp: s1')
qed

section \<open>Properties\<close>

text \<open>C22: Following stake expansions terminates.  If the stored delegations have no cyclic chain of
  stake expansions (some rank decreases along every expansion), then the lookup of a delegation
  with its parameters returns within a recursion depth of the number of stored delegations plus
  one.\<close>

theorem getBTCDelWithParams_terminates:
  assumes "\<And>k k'. expands X s k k' \<Longrightarrow> rank k' < (rank k :: nat)"
  shows "\<exists>r. getBTCDelWithParams_fuel (Suc (length (bs_dels s))) X s h = Some r"
proof (rule ccontr)
  assume "\<not> ?thesis"
  then have "getBTCDelWithParams_fuel (Suc (length (bs_dels s))) X s h = None" by auto
  with getBTCDelWithParams_fuel_None [of X s rank, OF assms] obtain ks where
    "length ks = Suc (length (bs_dels s))" "set ks \<subseteq> fst ` set (bs_dels s)"
    "sorted_wrt (\<lambda>a b. rank b < rank a) ks" by blast
  moreover have "card (fst ` set (bs_dels s)) \<le> length (bs_dels s)"
    by (metis card_length length_map set_map)
  ultimately show False
    using distinct_card [OF sorted_rank_distinct, of rank ks] card_mono [of "fst ` set (bs_dels s)" "set ks"]
    by simp
qed

definition example_del :: "bytes \<Rightarrow> StakeExpansion option \<Rightarrow> BTCDelegation" where
  "example_del tx exp = \<lparr>bd_staker_addr = ''staker'', bd_btc_pk = [9], bd_pop = None,
     bd_fp_btc_pk_list = [[7]], bd_staking_time = 1000, bd_start_height = 50, bd_end_height = 1050,
     bd_total_sat = 20000, bd_staking_tx = tx, bd_staking_output_idx = 0, bd_slashing_tx = [],
     bd_delegator_sig = [], bd_covenant_sigs = [\<lparr>cas_cov_pk = [1], cas_adaptor_sigs = []\<rparr>],
     bd_unbonding_time = 200,
     bd_btc_undelegation = \<lparr>ud_unbonding_tx = [], ud_slashing_tx = [], ud_delegator_slashing_sig = [],
       ud_covenant_slashing_sigs = [\<lparr>cas_cov_pk = [1], cas_adaptor_sigs = []\<rparr>],
       ud_covenant_unbonding_sig_list = [\<lparr>si_pk = [1], si_sig = []\<rparr>],
       ud_delegator_unbonding_info = None\<rparr>,
     bd_params_version = 0, bd_btc_tip_height = 40, bd_stk_exp = exp\<rparr>"

definition example_expansion :: StakeExpansion where
  "example_expansion = \<lparr>se_previous_staking_tx_hash = [1], se_other_funding_tx_out = [],
     se_previous_stk_covenant_sigs = []\<rparr>"

definition example_bs_dels :: bs_state where
  "example_bs_dels = bs_with_params\<lparr>bs_fps := [([7], example_fp [7])],
     bs_dels := [([1], example_del [1] None), ([2], example_del [2] (Some example_expansion))]\<rparr>"

lemma example_expands:
  "expands ext_accepting example_bs_dels k k' \<Longrightarrow> k = [2] \<and> k' = [1]"
  by (auto simp: expands_def example_bs_dels_def example_del_def example_expansion_def
      MustGetStakeExpansionTxHash_def StakeExpansionTxHash_def ext_accepting_def
      split: if_splits sum.splits)

theorem getBTCDelWithParams_terminates_witness:
  "\<exists>r. getBTCDelWithParams_fuel (Suc (length (bs_dels example_bs_dels))) ext_accepting example_bs_dels
     (hex_encode [2]) = Some r"
  by (rule getBTCDelWithParams_terminates [of _ _ "\<lambda>k. if k = [2] then 1 else 0"])
    (drule example_expands, simp)


lemma example_index:
  "rfold (indexDelegation [3] (bd_btc_pk (example_del [3] None)))
     (bd_fp_btc_pk_list (example_del [3] None)) example_bs_dels =
   Inr (example_bs_dels\<lparr>bs_delegators := [(([7], [9]), [[3]])]\<rparr>)"
  by (simp add: indexDelegation_def DelegationIndex_Add_def getBTCDelegatorDelegationIndex_def
      NewBTCDelegatorDelegationIndex_def setBTCDelegatorDelegationIndex_def HasFinalityProvider_def
      kv_has_def example_del_def example_bs_dels_def bs_with_params_def bs_empty_def)



definition example_info :: btcDelegationWithParams where
  "example_info = \<lparr>dwp_delegation = example_del [1] None, dwp_params = example_params,
     dwp_prev_del = None, dwp_prev_params = None\<rparr>"




end
