(* ===== verification/Curve.thy ===== *)
theory Curve
  imports Prelude
begin

text \<open>
  The interface of the secp256k1 packages (\<open>btcec\<close>, \<open>dcrec/secp256k1\<close>, \<open>chainhash\<close>) that the signature
  schemes under \<open>crypto/\<close> call, and the blinded multiplication of \<open>crypto/common\<close>.

  The curve is a parameter: scalars are integers modulo the group order \<open>n\<close>, points are values of a
  type \<open>'p\<close>, a field element is its 32-byte form.  What the packages document is the predicate
  \<open>curve_laws\<close>: scalar arithmetic is arithmetic modulo \<open>n\<close> with inverses, points are the multiples of
  the generator, a multiple and its negation have the same abscissa and ordinates of different
  parity, and a 32-byte key parses to the point with the even ordinate.
\<close>

record 'p curve =
  sc_Add :: "int \<Rightarrow> int \<Rightarrow> int"
  sc_Mul :: "int \<Rightarrow> int \<Rightarrow> int"
  sc_Negate :: "int \<Rightarrow> int"
  sc_Inverse :: "int \<Rightarrow> int"
  sc_SetBytes :: "bytes \<Rightarrow> int \<times> bool"
  sc_Bytes :: "int \<Rightarrow> bytes"
  pt_BaseMult :: "int \<Rightarrow> 'p"
  pt_Mult :: "int \<Rightarrow> 'p \<Rightarrow> 'p"
  pt_Add :: "'p \<Rightarrow> 'p \<Rightarrow> 'p"
  pt_Negate :: "'p \<Rightarrow> 'p"
  pt_IsInfinity :: "'p \<Rightarrow> bool"
  pt_X :: "'p \<Rightarrow> bytes"
  pt_YOdd :: "'p \<Rightarrow> bool"
  pt_Parse :: "bytes \<Rightarrow> 'p res"
  pt_IsOnCurve :: "'p \<Rightarrow> bool"
  pt_ParseJacobian :: "bytes \<Rightarrow> 'p res"
  tagged_hash :: "string \<Rightarrow> bytes \<Rightarrow> bytes"
  sha256 :: "bytes \<Rightarrow> bytes"

definition curve_laws :: "'p curve \<Rightarrow> int \<Rightarrow> bool" where
  "curve_laws E n \<longleftrightarrow>
     2 < n \<and> odd n \<and>
     (\<forall>a b. sc_Add E a b = (a + b) mod n) \<and>
     (\<forall>a b. sc_Mul E a b = (a * b) mod n) \<and>
     (\<forall>a. sc_Negate E a = (- a) mod n) \<and>
     (\<forall>a. a mod n \<noteq> 0 \<longrightarrow> (sc_Inverse E a * a) mod n = 1) \<and>
     (\<forall>b. 0 \<le> fst (sc_SetBytes E b) \<and> fst (sc_SetBytes E b) < n) \<and>
     (\<forall>a. sc_SetBytes E (sc_Bytes E a) = (a mod n, False) \<and> length (sc_Bytes E a) = 32) \<and>
     (\<forall>a b. pt_BaseMult E a = pt_BaseMult E b \<longleftrightarrow> a mod n = b mod n) \<and>
     (\<forall>a b. pt_Add E (pt_BaseMult E a) (pt_BaseMult E b) = pt_BaseMult E (a + b)) \<and>
     (\<forall>a b. pt_Mult E a (pt_BaseMult E b) = pt_BaseMult E (a * b)) \<and>
     (\<forall>a. pt_Negate E (pt_BaseMult E a) = pt_BaseMult E (- a)) \<and>
     (\<forall>a. pt_IsInfinity E (pt_BaseMult E a) \<longleftrightarrow> a mod n = 0) \<and>
     (\<forall>a. a mod n \<noteq> 0 \<longrightarrow> pt_YOdd E (pt_BaseMult E (- a)) = (\<not> pt_YOdd E (pt_BaseMult E a))) \<and>
     (\<forall>a b. a mod n \<noteq> 0 \<longrightarrow> b mod n \<noteq> 0 \<longrightarrow>
        (pt_X E (pt_BaseMult E a) = pt_X E (pt_BaseMult E b) \<longleftrightarrow>
         a mod n = b mod n \<or> a mod n = (- b) mod n)) \<and>
     (\<forall>a. length (pt_X E (pt_BaseMult E a)) = 32) \<and>
     (\<forall>a. a mod n \<noteq> 0 \<longrightarrow>
        pt_Parse E (pt_X E (pt_BaseMult E a)) =
          Inr (if pt_YOdd E (pt_BaseMult E a) then pt_BaseMult E (- a) else pt_BaseMult E a)) \<and>
     (\<forall>a. pt_IsOnCurve E (pt_BaseMult E a)) \<and>
     (\<forall>a. a mod n \<noteq> 0 \<longrightarrow>
        pt_ParseJacobian E ((if pt_YOdd E (pt_BaseMult E a) then 3 else 2) # pt_X E (pt_BaseMult E a)) =
          Inr (pt_BaseMult E a))"

text \<open>\<open>ScalarBaseMultWithBlinding\<close>: \<open>blind\<close> is the outcome of drawing the blinding scalar.\<close>

definition ScalarBaseMultWithBlinding :: "'p curve \<Rightarrow> int res \<Rightarrow> int \<Rightarrow> 'p res" where
  "ScalarBaseMultWithBlinding E blind k =
     rbind blind (\<lambda>r.
       let krG = pt_BaseMult E (sc_Add E k r);
           rNegG = pt_BaseMult E (sc_Negate E r)
       in Inr (pt_Add E krG rNegG))"

section \<open>Consequences of the laws\<close>

lemma curve_lawsD:
  assumes "curve_laws E n"
  shows "2 < n" "odd n" "0 < n"
    and "sc_Add E a b = (a + b) mod n"
    and "sc_Mul E a b = (a * b) mod n"
    and "sc_Negate E a = (- a) mod n"
    and "a mod n \<noteq> 0 \<Longrightarrow> (sc_Inverse E a * a) mod n = 1"
    and "0 \<le> fst (sc_SetBytes E bs)" "fst (sc_SetBytes E bs) < n"
    and "sc_SetBytes E (sc_Bytes E a) = (a mod n, False)"
    and "length (sc_Bytes E a) = 32"
    and "pt_BaseMult E a = pt_BaseMult E b \<longleftrightarrow> a mod n = b mod n"
    and "pt_Add E (pt_BaseMult E a) (pt_BaseMult E b) = pt_BaseMult E (a + b)"
    and "pt_Mult E a (pt_BaseMult E b) = pt_BaseMult E (a * b)"
    and "pt_Negate E (pt_BaseMult E a) = pt_BaseMult E (- a)"
    and "pt_IsInfinity E (pt_BaseMult E a) \<longleftrightarrow> a mod n = 0"
    and "a mod n \<noteq> 0 \<Longrightarrow> pt_YOdd E (pt_BaseMult E (- a)) = (\<not> pt_YOdd E (pt_BaseMult E a))"
    and "a mod n \<noteq> 0 \<Longrightarrow> b mod n \<noteq> 0 \<Longrightarrow>
          pt_X E (pt_BaseMult E a) = pt_X E (pt_BaseMult E b) \<longleftrightarrow>
          a mod n = b mod n \<or> a mod n = (- b) mod n"
    and "length (pt_X E (pt_BaseMult E a)) = 32"
    and "a mod n \<noteq> 0 \<Longrightarrow> pt_Parse E (pt_X E (pt_BaseMult E a)) =
          Inr (if pt_YOdd E (pt_BaseMult E a) then pt_BaseMult E (- a) else pt_BaseMult E a)"
    and "pt_IsOnCurve E (pt_BaseMult E a)"
    and "a mod n \<noteq> 0 \<Longrightarrow>
          pt_ParseJacobian E ((if pt_YOdd E (pt_BaseMult E a) then 3 else 2) # pt_X E (pt_BaseMult E a)) =
          Inr (pt_BaseMult E a)"
  using assms unfolding curve_laws_def by simp_all

text \<open>A base multiple only depends on the residue of its scalar.\<close>

lemma BaseMult_cong: "curve_laws E n \<Longrightarrow> a mod n = b mod n \<Longrightarrow> pt_BaseMult E a = pt_BaseMult E b"
  by (simp add: curve_lawsD(12))

lemma blinding_correct:
  assumes "curve_laws E n"
  shows "ScalarBaseMultWithBlinding E (Inr r) k = Inr (pt_BaseMult E k)"
proof -
  have "((k + r) mod n + (- r) mod n) mod n = k mod n"
    by (simp add: mod_simps)
  then show ?thesis
    using assms by (simp add: ScalarBaseMultWithBlinding_def curve_lawsD(4,6,13) curve_lawsD(12) [OF assms])
qed

text \<open>Scalars of a field: no zero divisors.\<close>

lemma scalar_mult_nonzero:
  assumes "curve_laws E n" and "a mod n \<noteq> 0" and "b mod n \<noteq> 0"
  shows "(a * b) mod n \<noteq> 0"
proof
  assume z: "(a * b) mod n = 0"
  have "(sc_Inverse E a * a) mod n = 1" using assms curve_lawsD(7) by blast
  then have "b mod n = ((sc_Inverse E a * a) mod n * b) mod n" by simp
  also have "\<dots> = (sc_Inverse E a * ((a * b) mod n)) mod n"
    by (simp add: mod_simps mult.assoc)
  finally show False using z assms(3) by simp
qed

lemma neg_mod_nonzero: "(a :: int) mod n \<noteq> 0 \<Longrightarrow> (- a) mod n \<noteq> 0"
  by (simp add: zmod_zminus1_not_zero)

section \<open>A small instance\<close>

text \<open>The laws are satisfiable: the group of order 7, with \<open>p\<close> and \<open>7 - p\<close> sharing an abscissa.\<close>

definition small_curve :: "int curve" where
  "small_curve =
     \<lparr>sc_Add = (\<lambda>a b. (a + b) mod 7), sc_Mul = (\<lambda>a b. (a * b) mod 7), sc_Negate = (\<lambda>a. (- a) mod 7),
      sc_Inverse = (\<lambda>a. a ^ 5 mod 7),
      sc_SetBytes = (\<lambda>b. (uint (last (0 # b)) mod 7, False)),
      sc_Bytes = (\<lambda>a. replicate 31 0 @ [word_of_int (a mod 7)]),
      pt_BaseMult = (\<lambda>a. a mod 7), pt_Mult = (\<lambda>a p. (a * p) mod 7), pt_Add = (\<lambda>p q. (p + q) mod 7),
      pt_Negate = (\<lambda>p. (- p) mod 7), pt_IsInfinity = (\<lambda>p. p = 0),
      pt_X = (\<lambda>p. replicate 31 0 @ [word_of_int (min p (7 - p))]), pt_YOdd = (\<lambda>p. 3 < p),
      pt_Parse = (\<lambda>b. Inr (uint (last (0 # b)))), pt_IsOnCurve = (\<lambda>p. True),
      pt_ParseJacobian = (\<lambda>b. Inr (if hd b = 3 then 7 - uint (last b) else uint (last b))),
      tagged_hash = (\<lambda>t m. [sum_list m]), sha256 = (\<lambda>m. m)\<rparr>"

lemma mod7_cases: "(a :: int) mod 7 \<in> {0, 1, 2, 3, 4, 5, 6}"
  by (simp, presburger)

lemma small_inverse: "(a :: int) mod 7 \<noteq> 0 \<Longrightarrow> (a ^ 5 mod 7 * a) mod 7 = 1"
proof -
  assume nz: "a mod 7 \<noteq> 0"
  have "(a ^ 5 mod 7 * a) mod 7 = a ^ 6 mod 7"
    by (simp add: mod_mult_left_eq flip: power_Suc2)
  also have "\<dots> = (a mod 7) ^ 6 mod 7" by (simp only: power_mod)
  also have "\<dots> = 1" using mod7_cases [of a] nz by auto
  finally show ?thesis .
qed

lemma small_neg: "(- (a :: int)) mod 7 = (if a mod 7 = 0 then 0 else 7 - a mod 7)"
  by presburger

lemma small_byte: "0 \<le> x \<Longrightarrow> x < 7 \<Longrightarrow> uint (word_of_int x :: byte) = x"
  by (simp add: uint_word_of_int)

lemma small_byte_eq:
  assumes "0 \<le> x" "x < 7" "0 \<le> y" "y < 7"
  shows "(word_of_int x :: byte) = word_of_int y \<longleftrightarrow> x = y"
  using small_byte [OF assms(1,2)] small_byte [OF assms(3,4)] by metis

lemma small_abscissa:
  "0 \<le> min (a mod 7) (7 - a mod 7)" "min (a mod 7) (7 - a mod 7) < (7 :: int)"
  using mod7_cases [of a] by auto

lemma small_X_eq:
  assumes "a mod 7 \<noteq> 0" "b mod 7 \<noteq> (0 :: int)"
  shows "min (a mod 7) (7 - a mod 7) = min (b mod 7) (7 - b mod 7) \<longleftrightarrow>
         a mod 7 = b mod 7 \<or> a mod 7 = (- b) mod 7"
  using assms mod7_cases [of a] mod7_cases [of b] by (auto simp: small_neg min_def)

lemma small_curve_laws: "curve_laws small_curve 7"
  unfolding curve_laws_def small_curve_def curve.simps
proof (intro conjI allI impI)
qed (simp_all add: small_inverse [unfolded mod_mult_left_eq] small_byte small_byte_eq small_abscissa small_X_eq mod_simps,
     auto simp: small_neg min_def)

end
