(* ===== verification/Eots.thy ===== *)
theory Eots
  imports Curve
begin

text \<open>
  Extractable one-time signatures (\<open>crypto/eots/eots.go\<close>): a Schnorr signature whose nonce point is
  committed in advance, so that two signatures under the same nonce reveal the private key.  A
  \<open>Signature\<close> and a \<open>PrivateKey\<close> are scalars, a \<open>PublicRand\<close> is the abscissa of the nonce point.

  \<open>Extract\<close> negates the scalar its second signature points to; the model returns that scalar too.
\<close>

definition challenge :: "'p curve \<Rightarrow> bytes \<Rightarrow> bytes \<Rightarrow> bytes \<Rightarrow> int res" where
  "challenge E rBytes pBytes hash =
     (let (e, overflow) = sc_SetBytes E (tagged_hash E ''BIP0340/challenge'' (rBytes @ pBytes @ hash))
      in if overflow then Inl (Errorf ''hash of (r || P || m) too big'') else Inr e)"

definition PubGen :: "'p curve \<Rightarrow> int \<Rightarrow> 'p" where
  "PubGen E k = pt_BaseMult E k"

definition eots_hash :: "'p curve \<Rightarrow> bytes \<Rightarrow> bytes" where
  "eots_hash E message = sha256 E message"

definition signHash :: "'p curve \<Rightarrow> int res \<Rightarrow> int \<Rightarrow> int \<Rightarrow> bytes \<Rightarrow> int res" where
  "signHash E blind sk privateRand hash =
     (if sk = 0 then Inl (Errorf ''private key is zero'')
      else
        let pubKey = PubGen E sk; isPyOdd = pt_YOdd E pubKey
        in rbind (ScalarBaseMultWithBlinding E blind privateRand) (\<lambda>R.
           let isRyOdd = pt_YOdd E R
           in rbind (challenge E (pt_X E R) (pt_X E pubKey) hash) (\<lambda>e.
                Inr (if isPyOdd \<and> isRyOdd then sc_Add E (sc_Mul E e (sc_Negate E sk)) (sc_Negate E privateRand)
                     else if isPyOdd then sc_Add E (sc_Mul E e (sc_Negate E sk)) privateRand
                     else if isRyOdd then sc_Add E (sc_Mul E e sk) (sc_Negate E privateRand)
                     else sc_Add E (sc_Mul E e sk) privateRand))))"

definition eots_Sign :: "'p curve \<Rightarrow> int res \<Rightarrow> int \<Rightarrow> int \<Rightarrow> bytes \<Rightarrow> int res" where
  "eots_Sign E blind sk privateRand message = signHash E blind sk privateRand (eots_hash E message)"

definition verifyHash :: "'p curve \<Rightarrow> bytes \<Rightarrow> bytes \<Rightarrow> bytes \<Rightarrow> int \<Rightarrow> unit res" where
  "verifyHash E pubKeyBytes r hash sig =
     rbind (pt_Parse E pubKeyBytes) (\<lambda>pubKey.
       if \<not> pt_IsOnCurve E pubKey then Inl (Errorf ''pubkey point is not on curve'')
       else
         rbind (challenge E r (pt_X E pubKey) hash) (\<lambda>e.
         let R = pt_Add E (pt_BaseMult E sig) (pt_Mult E (sc_Negate E e) pubKey)
         in if pt_IsInfinity E R then Inl (Errorf ''calculated R point is the point at infinity'')
            else if pt_YOdd E R then Inl (Errorf ''calculated R y-value is odd'')
            else if r \<noteq> pt_X E R then Inl (Errorf ''calculated R point was not given R'')
            else Inr ()))"

definition eots_Verify :: "'p curve \<Rightarrow> 'p \<Rightarrow> bytes \<Rightarrow> bytes \<Rightarrow> int \<Rightarrow> unit res" where
  "eots_Verify E pubKey r message sig = verifyHash E (pt_X E pubKey) r (eots_hash E message) sig"

definition extractFromHashes ::
  "'p curve \<Rightarrow> 'p \<Rightarrow> bytes \<Rightarrow> bytes \<Rightarrow> int \<Rightarrow> bytes \<Rightarrow> int \<Rightarrow> int res \<times> int" where
  "extractFromHashes E pubKey r hash1 sig1 hash2 sig2 =
     (if sig1 = sig2
      then (Inl (Errorf ''The two signatures need to be different in order to extract''), sig2)
      else case challenge E r (pt_X E pubKey) hash1 of
             Inl err \<Rightarrow> (Inl err, sig2)
           | Inr e1 \<Rightarrow>
               (case challenge E r (pt_X E pubKey) hash2 of
                  Inl err \<Rightarrow> (Inl err, sig2)
                | Inr e2 \<Rightarrow>
                    let denom = sc_Add E e1 (sc_Negate E e2);
                        sig2' = sc_Negate E sig2;
                        x0 = sc_Mul E (sc_Add E sig1 sig2') (sc_Inverse E denom);
                        x = (if pt_YOdd E pubKey then sc_Negate E x0 else x0)
                    in (if PubGen E x = pubKey then Inr x
                        else Inl (Errorf ''Extracted private key does not match public key''), sig2')))"

definition eots_Extract ::
  "'p curve \<Rightarrow> 'p \<Rightarrow> bytes \<Rightarrow> bytes \<Rightarrow> int \<Rightarrow> bytes \<Rightarrow> int \<Rightarrow> int res \<times> int" where
  "eots_Extract E pubKey r message1 sig1 message2 sig2 =
     extractFromHashes E pubKey r (eots_hash E message1) sig1 (eots_hash E message2) sig2"

section \<open>Verification\<close>

text \<open>The scalar of the point a public key with scalar \<open>d\<close> is lifted to.\<close>

definition even_scalar :: "'p curve \<Rightarrow> int \<Rightarrow> int" where
  "even_scalar E d = (if pt_YOdd E (pt_BaseMult E d) then - d else d)"

lemma even_scalar_facts:
  assumes "curve_laws E n" and "d mod n \<noteq> 0"
  shows "even_scalar E d mod n \<noteq> 0"
    and "pt_Parse E (pt_X E (pt_BaseMult E d)) = Inr (pt_BaseMult E (even_scalar E d))"
    and "pt_X E (pt_BaseMult E (even_scalar E d)) = pt_X E (pt_BaseMult E d)"
    and "\<not> pt_YOdd E (pt_BaseMult E (even_scalar E d))"
  using assms curve_lawsD(17,18,20) [OF assms(1)] neg_mod_nonzero [OF assms(2)]
  by (auto simp: even_scalar_def)

lemma challenge_range:
  assumes "curve_laws E n" and "challenge E r p h = Inr e"
  shows "0 \<le> e" and "e < n"
  using assms curve_lawsD(8,9) [OF assms(1), of "tagged_hash E ''BIP0340/challenge'' (r @ p @ h)"]
  by (auto simp: challenge_def Let_def split: prod.splits if_splits)

lemma neg_mul_mod: "((- e) mod n * x + s) mod n = (s - e * x) mod (n :: int)"
proof -
  have "((- e) mod n * x + s) mod n = ((- e) * x + s) mod n"
    by (metis mod_add_left_eq mod_mult_left_eq)
  then show ?thesis by simp
qed

text \<open>What a successful verification says of the scalars.\<close>

lemma verifyHash_Inr:
  assumes laws: "curve_laws E n" and d: "d mod n \<noteq> 0"
    and v: "verifyHash E (pt_X E (pt_BaseMult E d)) r h s = Inr u"
  obtains e where "challenge E r (pt_X E (pt_BaseMult E d)) h = Inr e"
    and "(s - e * even_scalar E d) mod n \<noteq> 0"
    and "\<not> pt_YOdd E (pt_BaseMult E (s - e * even_scalar E d))"
    and "r = pt_X E (pt_BaseMult E (s - e * even_scalar E d))"
proof -
  let ?P = "pt_BaseMult E (even_scalar E d)"
  note f = even_scalar_facts [OF laws d]
  from v obtain e where e: "challenge E r (pt_X E (pt_BaseMult E d)) h = Inr e"
    by (auto simp: verifyHash_def f curve_lawsD(21) [OF laws] rbind_eq_Inr)
  have "((- e) mod n * even_scalar E d + s) mod n = (s - e * even_scalar E d) mod n"
    by (rule neg_mul_mod)
  then have R: "pt_Add E (pt_BaseMult E s) (pt_Mult E (sc_Negate E e) ?P) =
      pt_BaseMult E (s - e * even_scalar E d)"
    by (simp add: curve_lawsD(6,13,14) [OF laws] curve_lawsD(12) [OF laws] add.commute)
  from v have "\<not> pt_IsInfinity E (pt_BaseMult E (s - e * even_scalar E d))"
    and "\<not> pt_YOdd E (pt_BaseMult E (s - e * even_scalar E d))"
    and "r = pt_X E (pt_BaseMult E (s - e * even_scalar E d))"
    by (auto simp: verifyHash_def f curve_lawsD(21) [OF laws] e R Let_def split: if_splits)
  then show ?thesis using that [OF e] by (simp add: curve_lawsD(16) [OF laws])
qed

lemma verifyHash_facts:
  assumes "curve_laws E n" and "d mod n \<noteq> 0"
    and "verifyHash E (pt_X E (pt_BaseMult E d)) r h s = Inr u"
    and "challenge E r (pt_X E (pt_BaseMult E d)) h = Inr e"
  shows "(s - e * even_scalar E d) mod n \<noteq> 0"
    and "\<not> pt_YOdd E (pt_BaseMult E (s - e * even_scalar E d))"
    and "r = pt_X E (pt_BaseMult E (s - e * even_scalar E d))"
proof -
  obtain e' where "challenge E r (pt_X E (pt_BaseMult E d)) h = Inr e'"
    and f: "(s - e' * even_scalar E d) mod n \<noteq> 0"
      "\<not> pt_YOdd E (pt_BaseMult E (s - e' * even_scalar E d))"
      "r = pt_X E (pt_BaseMult E (s - e' * even_scalar E d))"
    by (rule verifyHash_Inr [OF assms(1-3)])
  with assms(4) have "e' = e" by simp
  with f show "(s - e * even_scalar E d) mod n \<noteq> 0"
    and "\<not> pt_YOdd E (pt_BaseMult E (s - e * even_scalar E d))"
    and "r = pt_X E (pt_BaseMult E (s - e * even_scalar E d))" by simp_all
qed

lemma verifyHash_InrI:
  assumes laws: "curve_laws E n" and d: "d mod n \<noteq> 0"
    and e: "challenge E r (pt_X E (pt_BaseMult E d)) h = Inr e"
    and nz: "(s - e * even_scalar E d) mod n \<noteq> 0"
    and even: "\<not> pt_YOdd E (pt_BaseMult E (s - e * even_scalar E d))"
    and x: "r = pt_X E (pt_BaseMult E (s - e * even_scalar E d))"
  shows "verifyHash E (pt_X E (pt_BaseMult E d)) r h s = Inr ()"
proof -
  let ?P = "pt_BaseMult E (even_scalar E d)"
  note f = even_scalar_facts [OF laws d]
  have "((- e) mod n * even_scalar E d + s) mod n = (s - e * even_scalar E d) mod n"
    by (rule neg_mul_mod)
  then have R: "pt_Add E (pt_BaseMult E s) (pt_Mult E (sc_Negate E e) ?P) =
      pt_BaseMult E (s - e * even_scalar E d)"
    by (simp add: curve_lawsD(6,13,14) [OF laws] curve_lawsD(12) [OF laws] add.commute)
  show ?thesis
    using nz even
    by (simp add: verifyHash_def f curve_lawsD(21) [OF laws] e R Let_def curve_lawsD(16) [OF laws] x [symmetric])
qed

section \<open>Extraction\<close>

text \<open>Two accepted signatures under one nonce determine the private scalar.\<close>

lemma two_signatures:
  assumes laws: "curve_laws E n" and d: "d mod n \<noteq> 0"
    and v1: "verifyHash E (pt_X E (pt_BaseMult E d)) r h1 s1 = Inr u1"
    and v2: "verifyHash E (pt_X E (pt_BaseMult E d)) r h2 s2 = Inr u2"
    and e1: "challenge E r (pt_X E (pt_BaseMult E d)) h1 = Inr e1"
    and e2: "challenge E r (pt_X E (pt_BaseMult E d)) h2 = Inr e2"
  shows "(s1 - s2) mod n = ((e1 - e2) * even_scalar E d) mod n"
proof -
  let ?x = "even_scalar E d"
  define a1 where "a1 = s1 - e1 * ?x"
  define a2 where "a2 = s2 - e2 * ?x"
  have A: "a1 mod n \<noteq> 0" "\<not> pt_YOdd E (pt_BaseMult E a1)" "r = pt_X E (pt_BaseMult E a1)"
    unfolding a1_def by (rule verifyHash_facts [OF laws d v1 e1])+
  have B: "a2 mod n \<noteq> 0" "\<not> pt_YOdd E (pt_BaseMult E a2)" "r = pt_X E (pt_BaseMult E a2)"
    unfolding a2_def by (rule verifyHash_facts [OF laws d v2 e2])+
  have "a1 mod n \<noteq> (- a2) mod n"
  proof
    assume "a1 mod n = (- a2) mod n"
    then have "pt_BaseMult E a1 = pt_BaseMult E (- a2)" by (rule BaseMult_cong [OF laws])
    with A(2) B(2) curve_lawsD(17) [OF laws B(1)] show False by simp
  qed
  with A(3) B(3) curve_lawsD(18) [OF laws A(1) B(1)] have "a1 mod n = a2 mod n" by simp
  then have "(a1 - a2) mod n = 0" by (simp add: mod_eq_dvd_iff)
  then have "n dvd ((s1 - s2) - (e1 - e2) * ?x)"
    by (simp add: a1_def a2_def algebra_simps dvd_eq_mod_eq_0)
  then show ?thesis by (simp add: mod_eq_dvd_iff)
qed

lemma challenges_differ:
  assumes laws: "curve_laws E n"
    and e1: "challenge E r p h1 = Inr e1" and e2: "challenge E r p h2 = Inr e2" and ne: "e1 \<noteq> e2"
  shows "(e1 - e2) mod n \<noteq> 0"
proof
  assume "(e1 - e2) mod n = 0"
  then have "e1 mod n = e2 mod n" by (simp add: mod_eq_dvd_iff dvd_eq_mod_eq_0)
  with challenge_range [OF laws e1] challenge_range [OF laws e2] ne show False by simp
qed

lemma division_recovers:
  assumes laws: "curve_laws E n" and c: "c mod n \<noteq> 0" and eq: "a mod n = (c * x) mod n"
  shows "(a * sc_Inverse E c) mod n = x mod n"
proof -
  have inv: "(sc_Inverse E c * c) mod n = 1" by (rule curve_lawsD(7) [OF laws c])
  have "(a * sc_Inverse E c) mod n = ((a mod n) * sc_Inverse E c) mod n" by (simp add: mod_simps)
  also have "\<dots> = (c * x * sc_Inverse E c) mod n" by (simp add: eq mod_simps)
  also have "\<dots> = ((sc_Inverse E c * c) mod n * x) mod n" by (simp add: mod_simps ac_simps)
  also have "\<dots> = x mod n" by (simp add: inv)
  finally show ?thesis .
qed

lemma extract_key:
  assumes laws: "curve_laws E n"
    and pk: "pk = pt_BaseMult E d" and d: "d mod n \<noteq> 0"
    and v1: "eots_Verify E pk r m1 s1 = Inr ()" and v2: "eots_Verify E pk r m2 s2 = Inr ()"
    and differ: "challenge E r (pt_X E pk) (eots_hash E m1) \<noteq> challenge E r (pt_X E pk) (eots_hash E m2)"
  shows "\<exists>x. fst (eots_Extract E pk r m1 s1 m2 s2) = Inr x \<and> PubGen E x = pk"
proof -
  let ?x = "even_scalar E d" and ?p = "pt_X E (pt_BaseMult E d)"
  note V1 = v1 [unfolded eots_Verify_def pk] and V2 = v2 [unfolded eots_Verify_def pk]
  obtain e1 where e1: "challenge E r ?p (eots_hash E m1) = Inr e1"
    by (rule verifyHash_Inr [OF laws d V1])
  obtain e2 where e2: "challenge E r ?p (eots_hash E m2) = Inr e2"
    by (rule verifyHash_Inr [OF laws d V2])
  have nz: "(e1 - e2) mod n \<noteq> 0"
    using challenges_differ [OF laws e1 e2] differ e1 e2 by (auto simp: pk)
  have rel: "(s1 - s2) mod n = ((e1 - e2) * ?x) mod n"
    by (rule two_signatures [OF laws d V1 V2 e1 e2])
  have "s1 \<noteq> s2"
    using rel scalar_mult_nonzero [OF laws nz even_scalar_facts(1) [OF laws d]] by auto
  define c where "c = sc_Add E e1 (sc_Negate E e2)"
  have c: "c = (e1 - e2) mod n" by (simp add: c_def curve_lawsD(4,6) [OF laws] mod_simps)
  define x0 where "x0 = sc_Mul E (sc_Add E s1 (sc_Negate E s2)) (sc_Inverse E c)"
  have "((s1 + (- s2) mod n) mod n) mod n = (c * ?x) mod n"
    using rel by (simp add: c mod_simps)
  moreover have "c mod n \<noteq> 0" using nz by (simp add: c)
  ultimately have "(((s1 + (- s2) mod n) mod n) * sc_Inverse E c) mod n = ?x mod n"
    by (intro division_recovers [OF laws])
  then have x0: "x0 mod n = ?x mod n"
    by (simp add: x0_def curve_lawsD(4,5,6) [OF laws])
  define x where "x = (if pt_YOdd E pk then sc_Negate E x0 else x0)"
  have "x mod n = d mod n"
  proof (cases "pt_YOdd E pk")
    case True
    then have "x mod n = (- x0) mod n" by (simp add: x_def curve_lawsD(6) [OF laws])
    also have "\<dots> = (- (x0 mod n)) mod n" by (simp add: mod_simps)
    also have "\<dots> = d mod n" using True by (simp add: x0 even_scalar_def pk mod_simps)
    finally show ?thesis .
  next
    case False
    then show ?thesis using x0 by (simp add: x_def even_scalar_def pk)
  qed
  then have "PubGen E x = pk" by (simp add: PubGen_def pk curve_lawsD(12) [OF laws])
  then have "fst (eots_Extract E pk r m1 s1 m2 s2) = Inr x"
    using \<open>s1 \<noteq> s2\<close> e1 e2
    by (simp add: eots_Extract_def extractFromHashes_def pk Let_def c_def [symmetric]
        x0_def [symmetric] x_def split: if_splits)
  with \<open>PubGen E x = pk\<close> show ?thesis by blast
qed

text \<open>C31: accountability of extractable one-time signatures.  If two signatures under the same public
  randomness are accepted for two messages whose challenges differ, then \<open>Extract\<close> succeeds and
  returns a private key of exactly the signer's public key.\<close>

theorem Extract_accountable:
  assumes laws: "curve_laws E n"
    and pk: "pk = pt_BaseMult E d" and d: "d mod n \<noteq> 0"
    and v1: "eots_Verify E pk r m1 s1 = Inr ()" and v2: "eots_Verify E pk r m2 s2 = Inr ()"
    and differ: "challenge E r (pt_X E pk) (eots_hash E m1) \<noteq> challenge E r (pt_X E pk) (eots_hash E m2)"
  shows "\<exists>x. fst (eots_Extract E pk r m1 s1 m2 s2) = Inr x \<and> PubGen E x = pk"
  using assms by (rule extract_key)

section \<open>Signing\<close>

text \<open>The signing equation in terms of the even representatives of key and nonce.\<close>

lemma signHash_Inr:
  assumes laws: "curve_laws E n" and s: "signHash E (Inr b) sk k h = Inr sig"
  obtains e where "challenge E (pt_X E (pt_BaseMult E k)) (pt_X E (pt_BaseMult E sk)) h = Inr e"
    and "sig = (e * even_scalar E sk + even_scalar E k) mod n"
proof -
  from s obtain e where e: "challenge E (pt_X E (pt_BaseMult E k)) (pt_X E (pt_BaseMult E sk)) h = Inr e"
    by (auto simp: signHash_def blinding_correct [OF laws] PubGen_def Let_def rbind_eq_Inr split: if_splits)
  have "sig = (e * even_scalar E sk + even_scalar E k) mod n"
    using s e by (simp add: signHash_def blinding_correct [OF laws] PubGen_def Let_def even_scalar_def
        curve_lawsD(4,5,6) [OF laws] mod_simps split: if_splits)
  with e show ?thesis by (rule that)
qed

text \<open>C32: sign and verify.  A signature made with a nonzero key and nonce is accepted for the
  message, the public key and the abscissa of the nonce point, whatever the blinding scalar.\<close>

theorem Sign_Verify:
  assumes laws: "curve_laws E n" and sk: "sk mod n \<noteq> 0" and k: "k mod n \<noteq> 0"
    and s: "eots_Sign E (Inr b) sk k m = Inr sig"
  shows "eots_Verify E (PubGen E sk) (pt_X E (PubGen E k)) m sig = Inr ()"
proof -
  obtain e where e: "challenge E (pt_X E (pt_BaseMult E k)) (pt_X E (pt_BaseMult E sk)) (eots_hash E m) = Inr e"
    and sig: "sig = (e * even_scalar E sk + even_scalar E k) mod n"
    using signHash_Inr [OF laws s [unfolded eots_Sign_def]] .
  have r: "(sig - e * even_scalar E sk) mod n = even_scalar E k mod n"
    by (simp add: sig mod_simps)
  then have R: "pt_BaseMult E (sig - e * even_scalar E sk) = pt_BaseMult E (even_scalar E k)"
    by (rule BaseMult_cong [OF laws])
  note f = even_scalar_facts [OF laws k]
  have "verifyHash E (pt_X E (pt_BaseMult E sk)) (pt_X E (pt_BaseMult E k)) (eots_hash E m) sig = Inr ()"
    by (rule verifyHash_InrI [OF laws sk e]) (use f in \<open>simp_all add: r R\<close>)
  then show ?thesis by (simp add: eots_Verify_def PubGen_def)
qed

section \<open>Examples\<close>

lemma small_signatures:
  "eots_Sign small_curve (Inr 4) 3 2 [1] = Inr 6"
  "eots_Sign small_curve (Inr 1) 3 2 [2] = Inr 2"
  by code_simp+

lemma small_challenges:
  "challenge small_curve (pt_X small_curve (PubGen small_curve 2)) (pt_X small_curve (PubGen small_curve 3))
     (eots_hash small_curve [1]) = Inr 6"
  "challenge small_curve (pt_X small_curve (PubGen small_curve 2)) (pt_X small_curve (PubGen small_curve 3))
     (eots_hash small_curve [2]) = Inr 0"
  by code_simp+

theorem Sign_Verify_witness:
  "eots_Verify small_curve (PubGen small_curve 3) (pt_X small_curve (PubGen small_curve 2)) [1] 6 = Inr ()"
  using Sign_Verify [OF small_curve_laws _ _ small_signatures(1)] by simp

theorem Extract_accountable_witness:
  "\<exists>x. fst (eots_Extract small_curve (PubGen small_curve 3) (pt_X small_curve (PubGen small_curve 2))
             [1] 6 [2] 2) = Inr x \<and> PubGen small_curve x = PubGen small_curve 3"
proof (rule Extract_accountable [OF small_curve_laws])
  show "PubGen small_curve 3 = pt_BaseMult small_curve 3" by (simp add: PubGen_def)
  show "(3 :: int) mod 7 \<noteq> 0" by simp
  show "eots_Verify small_curve (PubGen small_curve 3) (pt_X small_curve (PubGen small_curve 2)) [1] 6 = Inr ()"
    by code_simp
  show "eots_Verify small_curve (PubGen small_curve 3) (pt_X small_curve (PubGen small_curve 2)) [2] 2 = Inr ()"
    by code_simp
qed (simp add: small_challenges)

text \<open>\<open>Extract\<close> overwrites the second signature it is given with its negation, so that a caller
  that keeps the scalar no longer holds the signature it passed in.\<close>

theorem Extract_clobbers_second:
  assumes laws: "curve_laws E n" and ne: "s1 \<noteq> s2"
    and e1: "challenge E r (pt_X E pk) (eots_hash E m1) = Inr e1"
    and e2: "challenge E r (pt_X E pk) (eots_hash E m2) = Inr e2"
  shows "snd (eots_Extract E pk r m1 s1 m2 s2) = (- s2) mod n"
  using ne e1 e2
  by (simp add: eots_Extract_def extractFromHashes_def Let_def curve_lawsD(6) [OF laws])

theorem Extract_clobbers_second_witness:
  "snd (eots_Extract small_curve (PubGen small_curve 3) (pt_X small_curve (PubGen small_curve 2))
          [1] 6 [2] 2) = 5"
  using Extract_clobbers_second [OF small_curve_laws _ small_challenges, of 6 2] by simp

end
