(* ===== verification/Finality_Types.thy ===== *)
theory Finality_Types
  imports Costaking BtcStaking_Delegations Eots
begin

text \<open>
  The data of the finality module (\<open>x/finality/types\<close>): parameters, public randomness commitments,
  indexed blocks, evidence, signing information, and the messages with their stateless checks.

  A nil \<open>*SchnorrPubRand\<close>, \<open>*SchnorrEOTSSig\<close> or \<open>*Proof\<close> is \<open>None\<close>.  Merkle proofs, BIP-340
  signatures and the conversions of byte strings to curve values belong to other packages: they are
  the fields of \<open>fin_ext\<close>.
\<close>

section \<open>Other packages\<close>

record Proof =
  pf_total :: i64
  pf_index :: i64
  pf_leaf_hash :: bytes
  pf_aunts :: "bytes list"

record 'p fin_ext =
  fx_curve :: "'p curve"
  fx_ProofFromProto :: "Proof \<Rightarrow> unit res"
  fx_ProofVerify :: "Proof \<Rightarrow> bytes \<Rightarrow> bytes \<Rightarrow> unit res"
  fx_FieldSetByteSlice :: "bytes \<Rightarrow> bytes \<times> bool"
  fx_FieldNormalize :: "bytes \<Rightarrow> bytes"
  fx_tmhash :: "bytes \<Rightarrow> bytes"
  fx_ParseSignature :: "bytes \<Rightarrow> bytes res"
  fx_SchnorrVerify :: "bytes \<Rightarrow> bytes \<Rightarrow> 'p \<Rightarrow> bool"
  fx_MulInt64Round :: "dec \<Rightarrow> i64 \<Rightarrow> i64"

definition ToModNScalar :: "'p fin_ext \<Rightarrow> bytes \<Rightarrow> int" where
  "ToModNScalar F sig = fst (sc_SetBytes (fx_curve F) sig)"

definition ToFieldValNormalized :: "'p fin_ext \<Rightarrow> bytes \<Rightarrow> bytes" where
  "ToFieldValNormalized F pr =
     (let (r, overflow) = fx_FieldSetByteSlice F pr in if overflow then fx_FieldNormalize F r else r)"

definition ToBTCSig :: "'p fin_ext \<Rightarrow> bytes \<Rightarrow> bytes res" where
  "ToBTCSig F sig = fx_ParseSignature F sig"

definition SchnorrEOTSSigLen :: nat where "SchnorrEOTSSigLen = 32"
definition SchnorrPubRandLen :: nat where "SchnorrPubRandLen = 32"

definition NewSchnorrEOTSSig :: "bytes \<Rightarrow> bytes res" where
  "NewSchnorrEOTSSig data =
     (if length data \<noteq> SchnorrEOTSSigLen then Inl (Errorf ''invalid data length'') else Inr data)"

definition NewSchnorrPubRand :: "bytes \<Rightarrow> bytes res" where
  "NewSchnorrPubRand data =
     (if length data \<noteq> SchnorrPubRandLen then Inl (Errorf ''invalid data length'') else Inr data)"

text \<open>\<open>sdk.Uint64ToBigEndian\<close>.\<close>

definition Uint64ToBigEndian :: "u64 \<Rightarrow> bytes" where
  "Uint64ToBigEndian i = map (\<lambda>k. ucast (drop_bit (8 * (7 - k)) i)) [0 ..< 8]"

section \<open>Parameters\<close>

record fin_params =
  pm_max_active_fps :: u32
  pm_sig_timeout :: i64
  pm_signed_blocks_window :: i64
  pm_min_signed_per_window :: "dec option"
  pm_min_pub_rand :: u64
  pm_jail_duration :: i64
  pm_activation_height :: u64

definition validateMaxActiveFinalityProviders :: "u32 \<Rightarrow> unit res" where
  "validateMaxActiveFinalityProviders m =
     (if m = 0 then Inl (Errorf ''max finality providers must be positive'') else Inr ())"

definition validateSignedBlocksWindow :: "i64 \<Rightarrow> unit res" where
  "validateSignedBlocksWindow v =
     (if v \<le> 0 then Inl (Errorf ''signed blocks window must be positive'') else Inr ())"

definition validateFinalitySigTimeout :: "i64 \<Rightarrow> unit res" where
  "validateFinalitySigTimeout v =
     (if v \<le> 0 then Inl (Errorf ''finality vote delay must be positive'') else Inr ())"

definition validateMinSignedPerWindow :: "dec option \<Rightarrow> unit res" where
  "validateMinSignedPerWindow v =
     (case v of
        None \<Rightarrow> Inl (Errorf ''min signed per window cannot be nil'')
      | Some d \<Rightarrow>
          if d < 0 then Inl (Errorf ''min signed per window cannot be negative'')
          else if d > LegacyOneDec then Inl (Errorf ''min signed per window too large'')
          else Inr ())"

definition validateMinPubRand :: "u64 \<Rightarrow> unit res" where
  "validateMinPubRand m = (if m = 0 then Inl (Errorf ''min Pub Rand cannot be 0'') else Inr ())"

definition fin_Params_Validate :: "fin_params \<Rightarrow> unit res" where
  "fin_Params_Validate p =
     rbind (validateMaxActiveFinalityProviders (pm_max_active_fps p)) (\<lambda>_.
     rbind (validateSignedBlocksWindow (pm_signed_blocks_window p)) (\<lambda>_.
     rbind (validateFinalitySigTimeout (pm_sig_timeout p)) (\<lambda>_.
     rbind (validateMinSignedPerWindow (pm_min_signed_per_window p)) (\<lambda>_.
       validateMinPubRand (pm_min_pub_rand p)))))"

definition MinSignedPerWindowInt :: "'p fin_ext \<Rightarrow> fin_params \<Rightarrow> i64 res" where
  "MinSignedPerWindowInt F p =
     (case pm_min_signed_per_window p of
        None \<Rightarrow> Inl (Panic ''nil pointer dereference'')
      | Some d \<Rightarrow> Inr (fx_MulInt64Round F d (pm_signed_blocks_window p)))"

section \<open>Public randomness commitments\<close>

record PubRandCommit =
  pc_start_height :: u64
  pc_num_pub_rand :: u64
  pc_commitment :: bytes
  pc_epoch_num :: u64

definition EndHeight :: "PubRandCommit \<Rightarrow> u64" where
  "EndHeight c = pc_start_height c + pc_num_pub_rand c - 1"

definition Range :: "PubRandCommit \<Rightarrow> u64 \<times> u64" where
  "Range c = (pc_start_height c, EndHeight c)"

definition IsInRange :: "PubRandCommit \<Rightarrow> u64 \<Rightarrow> bool" where
  "IsInRange c height = (let (start, endh) = Range c in start \<le> height \<and> height \<le> endh)"

definition GetIndex :: "PubRandCommit \<Rightarrow> u64 \<Rightarrow> u64 res" where
  "GetIndex c height =
     (let (start, endh) = Range c
      in if start \<le> height \<and> height \<le> endh then Inr (height - start) else Inl ErrPubRandNotFound)"

definition MaxPubRandCommitOffset :: u64 where "MaxPubRandCommitOffset = 160000"

definition PubRandCommit_Validate :: "PubRandCommit \<Rightarrow> unit res" where
  "PubRandCommit_Validate c = (if pc_commitment c = [] then Inl ErrInvalidPubRandCommit else Inr ())"

section \<open>Blocks and evidence\<close>

definition msgToSignForVote :: "u64 \<Rightarrow> bytes \<Rightarrow> bytes" where
  "msgToSignForVote blockHeight blockHash = Uint64ToBigEndian blockHeight @ blockHash"

record IndexedBlock =
  ib_height :: u64
  ib_app_hash :: bytes
  ib_finalized :: bool

definition IndexedBlock_Equal :: "IndexedBlock \<Rightarrow> IndexedBlock \<Rightarrow> bool" where
  "IndexedBlock_Equal ib ib2 \<longleftrightarrow> ib_app_hash ib = ib_app_hash ib2 \<and> ib_height ib = ib_height ib2"

definition IndexedBlock_MsgToSign :: "IndexedBlock \<Rightarrow> bytes" where
  "IndexedBlock_MsgToSign ib = msgToSignForVote (ib_height ib) (ib_app_hash ib)"

definition IndexedBlock_Validate :: "IndexedBlock \<Rightarrow> unit res" where
  "IndexedBlock_Validate ib =
     (if ib_height ib > 0 \<and> ib_app_hash ib = [] then Inl (Errorf ''invalid indexed block. Empty app hash'')
      else Inr ())"

record Evidence =
  ev_fp_btc_pk :: BIP340PubKey
  ev_block_height :: u64
  ev_pub_rand :: "bytes option"
  ev_canonical_app_hash :: bytes
  ev_fork_app_hash :: bytes
  ev_canonical_sig :: "bytes option"
  ev_fork_sig :: "bytes option"

definition canonicalMsgToSign :: "Evidence \<Rightarrow> bytes" where
  "canonicalMsgToSign e = msgToSignForVote (ev_block_height e) (ev_canonical_app_hash e)"

definition forkMsgToSign :: "Evidence \<Rightarrow> bytes" where
  "forkMsgToSign e = msgToSignForVote (ev_block_height e) (ev_fork_app_hash e)"

definition Evidence_ValidateBasic :: "'p fin_ext \<Rightarrow> Evidence \<Rightarrow> unit res" where
  "Evidence_ValidateBasic F e =
     (if ev_fp_btc_pk e = [] then Inl (Errorf ''empty FpBtcPk'')
      else rbind (pt_Parse (fx_curve F) (ev_fp_btc_pk e)) (\<lambda>_.
        if ev_pub_rand e = None then Inl (Errorf ''empty PubRand'')
        else if length (ev_canonical_app_hash e) \<noteq> 32 then Inl (Errorf ''malformed CanonicalAppHash'')
        else if length (ev_fork_app_hash e) \<noteq> 32 then Inl (Errorf ''malformed ForkAppHash'')
        else case ev_fork_sig e of
               None \<Rightarrow> Inl (Errorf ''empty ForkFinalitySig'')
             | Some sig \<Rightarrow>
                 if length sig \<noteq> SchnorrEOTSSigLen then Inl (Errorf ''malformed ForkFinalitySig'') else Inr ()))"

definition IsSlashable :: "'p fin_ext \<Rightarrow> Evidence \<Rightarrow> bool" where
  "IsSlashable F e =
     (case Evidence_ValidateBasic F e of Inl _ \<Rightarrow> False | Inr _ \<Rightarrow> ev_canonical_sig e \<noteq> None)"

definition ExtractBTCSK :: "'p fin_ext \<Rightarrow> Evidence \<Rightarrow> int res" where
  "ExtractBTCSK F e =
     (if \<not> IsSlashable F e
      then Inl (Errorf ''the evidence lacks some fields so does not allow extracting BTC SK'')
      else rbind (pt_Parse (fx_curve F) (ev_fp_btc_pk e)) (\<lambda>btcPK.
        fst (eots_Extract (fx_curve F) btcPK (ToFieldValNormalized F (the (ev_pub_rand e)))
               (canonicalMsgToSign e) (ToModNScalar F (the (ev_canonical_sig e)))
               (forkMsgToSign e) (ToModNScalar F (the (ev_fork_sig e))))))"

section \<open>Signing information\<close>

record FinalityProviderSigningInfo =
  sg_fp_btc_pk :: BIP340PubKey
  sg_start_height :: i64
  sg_missed_blocks_counter :: i64
  sg_jailed_until :: int

definition NewFinalityProviderSigningInfo ::
  "BIP340PubKey \<Rightarrow> i64 \<Rightarrow> i64 \<Rightarrow> FinalityProviderSigningInfo" where
  "NewFinalityProviderSigningInfo fpPk startHeight missedBlocksCounter =
     \<lparr>sg_fp_btc_pk = fpPk, sg_start_height = startHeight,
      sg_missed_blocks_counter = missedBlocksCounter, sg_jailed_until = 0\<rparr>"

text \<open>Times are nanoseconds since the Unix epoch; Go's zero time is the first of January of year 1.\<close>

definition zero_time :: int where
  "zero_time = - 62135596800 * 10 ^ 9"

definition IsJailingPeriodPassed :: "FinalityProviderSigningInfo \<Rightarrow> int \<Rightarrow> bool res" where
  "IsJailingPeriodPassed si curBlockTime =
     (if sg_jailed_until si = zero_time then Inl ErrFpNotJailed
      else Inr (sg_jailed_until si < curBlockTime))"

definition IncrementMissedBlocksCounter :: "FinalityProviderSigningInfo \<Rightarrow> FinalityProviderSigningInfo" where
  "IncrementMissedBlocksCounter si =
     si\<lparr>sg_missed_blocks_counter := wrap64 (sg_missed_blocks_counter si + 1)\<rparr>"

definition DecrementMissedBlocksCounter :: "FinalityProviderSigningInfo \<Rightarrow> FinalityProviderSigningInfo" where
  "DecrementMissedBlocksCounter si =
     si\<lparr>sg_missed_blocks_counter := wrap64 (sg_missed_blocks_counter si - 1)\<rparr>"

definition ResetMissedBlocksCounter :: "FinalityProviderSigningInfo \<Rightarrow> FinalityProviderSigningInfo" where
  "ResetMissedBlocksCounter si = si\<lparr>sg_missed_blocks_counter := 0\<rparr>"

definition SigningInfo_Validate :: "FinalityProviderSigningInfo \<Rightarrow> unit res" where
  "SigningInfo_Validate si =
     (if sg_fp_btc_pk si = [] then Inl (Errorf ''invalid signing info. empty finality provider BTC public key'')
      else if length (sg_fp_btc_pk si) \<noteq> BIP340PubKeyLen
      then Inl (Errorf ''invalid signing info. finality provider BTC public key length'')
      else if sg_start_height si < 0 then Inl (Errorf ''invalid start height'')
      else if sg_missed_blocks_counter si < 0 then Inl (Errorf ''invalid missed blocks counter'')
      else Inr ())"

section \<open>Messages\<close>

record MsgAddFinalitySig =
  fsg_signer :: string
  fsg_fp_btc_pk :: BIP340PubKey
  fsg_block_height :: u64
  fsg_pub_rand :: "bytes option"
  fsg_proof :: "Proof option"
  fsg_block_app_hash :: bytes
  fsg_finality_sig :: "bytes option"

definition MsgAddFinalitySig_MsgToSign :: "MsgAddFinalitySig \<Rightarrow> bytes" where
  "MsgAddFinalitySig_MsgToSign m = msgToSignForVote (fsg_block_height m) (fsg_block_app_hash m)"

definition MsgAddFinalitySig_ValidateBasic :: "ext \<Rightarrow> MsgAddFinalitySig \<Rightarrow> unit res" where
  "MsgAddFinalitySig_ValidateBasic X m =
     (case ext_AccAddressFromBech32 X (fsg_signer m) of
        Inl _ \<Rightarrow> Inl ErrInvalidAddress
      | Inr _ \<Rightarrow>
          if fsg_fp_btc_pk m = [] then Inl ErrInvalidFinalitySig
          else if length (fsg_fp_btc_pk m) \<noteq> BIP340PubKeyLen then Inl ErrInvalidFinalitySig
          else case fsg_pub_rand m of
                 None \<Rightarrow> Inl ErrInvalidFinalitySig
               | Some pr \<Rightarrow>
                   if length pr \<noteq> SchnorrPubRandLen then Inl ErrInvalidFinalitySig
                   else if fsg_proof m = None then Inl ErrInvalidFinalitySig
                   else case fsg_finality_sig m of
                          None \<Rightarrow> Inl ErrInvalidFinalitySig
                        | Some sig \<Rightarrow>
                            if length sig \<noteq> SchnorrEOTSSigLen then Inl ErrInvalidFinalitySig
                            else if length (fsg_block_app_hash m) \<noteq> 32 then Inl ErrInvalidFinalitySig
                            else Inr ())"

text \<open>The function dereferences the fields of the message that may be nil: each is a panic where it is read.\<close>

definition VerifyFinalitySig :: "'p fin_ext \<Rightarrow> MsgAddFinalitySig \<Rightarrow> PubRandCommit \<Rightarrow> unit res" where
  "VerifyFinalitySig F m prCommit =
     (case fsg_proof m of
        None \<Rightarrow> Inl (Panic ''nil pointer dereference'')
      | Some proof \<Rightarrow>
          if fsg_block_height m \<noteq> pc_start_height prCommit + to_u64 (pf_index proof)
          then Inl ErrInvalidFinalitySig
          else if to_u64 (pf_total proof) \<noteq> pc_num_pub_rand prCommit then Inl ErrInvalidFinalitySig
          else case fx_ProofFromProto F proof of
                 Inl _ \<Rightarrow> Inl ErrInvalidFinalitySig
               | Inr _ \<Rightarrow>
                   (case fsg_pub_rand m of
                      None \<Rightarrow> Inl (Panic ''nil pointer dereference'')
                    | Some pubRand \<Rightarrow>
                        (case fx_ProofVerify F proof (pc_commitment prCommit) pubRand of
                           Inl _ \<Rightarrow> Inl ErrInvalidFinalitySig
                         | Inr _ \<Rightarrow>
                             if fsg_fp_btc_pk m = [] then Inl (Panic ''nil pointer dereference'')
                             else rbind (pt_Parse (fx_curve F) (fsg_fp_btc_pk m)) (\<lambda>pk.
                               case fsg_finality_sig m of
                                 None \<Rightarrow> Inl (Panic ''nil pointer dereference'')
                               | Some finalitySig \<Rightarrow>
                                   eots_Verify (fx_curve F) pk (ToFieldValNormalized F pubRand)
                                     (MsgAddFinalitySig_MsgToSign m) (ToModNScalar F finalitySig)))))"

record MsgCommitPubRandList =
  cpr_signer :: string
  cpr_fp_btc_pk :: BIP340PubKey
  cpr_start_height :: u64
  cpr_num_pub_rand :: u64
  cpr_commitment :: bytes
  cpr_sig :: "bytes option"

definition HashToSign :: "'p fin_ext \<Rightarrow> MsgCommitPubRandList \<Rightarrow> bytes" where
  "HashToSign F m =
     fx_tmhash F (Uint64ToBigEndian (cpr_start_height m) @ Uint64ToBigEndian (cpr_num_pub_rand m) @
                  cpr_commitment m)"

definition VerifySig :: "'p fin_ext \<Rightarrow> MsgCommitPubRandList \<Rightarrow> unit res" where
  "VerifySig F m =
     (if cpr_fp_btc_pk m = [] then Inl (Panic ''nil pointer dereference'')
      else rbind (pt_Parse (fx_curve F) (cpr_fp_btc_pk m)) (\<lambda>pk.
       case cpr_sig m of
         None \<Rightarrow> Inl (Errorf ''empty signature'')
       | Some sig \<Rightarrow>
           rbind (ToBTCSig F sig) (\<lambda>schnorrSig.
             if \<not> fx_SchnorrVerify F schnorrSig (HashToSign F m) pk
             then Inl (Errorf ''failed to verify signature'') else Inr ())))"

definition ExpectedCommitmentLengthBytes :: nat where "ExpectedCommitmentLengthBytes = 32"

definition MsgCommitPubRandList_ValidateBasic :: "ext \<Rightarrow> MsgCommitPubRandList \<Rightarrow> unit res" where
  "MsgCommitPubRandList_ValidateBasic X m =
     (case ext_AccAddressFromBech32 X (cpr_signer m) of
        Inl _ \<Rightarrow> Inl ErrInvalidAddress
      | Inr _ \<Rightarrow>
          if length (cpr_commitment m) \<noteq> ExpectedCommitmentLengthBytes then Inl ErrInvalidPubRand
          else if cpr_start_height m \<ge> cpr_start_height m + cpr_num_pub_rand m then Inl ErrOverflowInBlockHeight
          else Inr ())"

fun check_fp_pks :: "string list \<Rightarrow> string list \<Rightarrow> unit res" where
  "check_fp_pks seen [] = Inr ()"
| "check_fp_pks seen (fpPkHex # rest) =
     (case NewBIP340PubKeyFromHex fpPkHex of
        Inl _ \<Rightarrow> Inl ErrInvalidResumeFinality
      | Inr _ \<Rightarrow>
          if fpPkHex \<in> set seen then Inl ErrInvalidResumeFinality
          else check_fp_pks (fpPkHex # seen) rest)"

definition MsgResumeFinalityProposal_ValidateBasic ::
  "ext \<Rightarrow> string \<Rightarrow> string list \<Rightarrow> u32 \<Rightarrow> unit res" where
  "MsgResumeFinalityProposal_ValidateBasic X authority fpPksHex haltingHeight =
     (case ext_AccAddressFromBech32 X authority of
        Inl _ \<Rightarrow> Inl ErrInvalidAddress
      | Inr _ \<Rightarrow>
          if haltingHeight = 0 then Inl ErrInvalidResumeFinality
          else if fpPksHex = [] then Inl ErrInvalidResumeFinality
          else check_fp_pks [] fpPksHex)"

end
