(* ===== verification/Finality_State.thy ===== *)
theory Finality_State
  imports Finality_Types
begin

text \<open>
  The state of the finality keeper (\<open>x/finality/keeper\<close>) and its stores: votes (\<open>votes.go\<close>), indexed
  blocks (\<open>indexed_blocks.go\<close>), the voting power table (\<open>power_table.go\<close>) and the cache of its
  distribution (\<open>power_dist_change.go\<close>), parameters, evidence and the activation of finality.

  The record holds the state of the modules the keeper calls: BTC staking in \<open>fs_bs\<close>, costaking with
  the incentive module inside it in \<open>fs_cos\<close>.  A store of signatures or powers is keyed by the
  height and the public key, one of evidence or randomness by the public key and the height, as the
  prefixes of the code are nested.  A panic in a begin or end blocker stops the block: it is an \<open>Inl\<close>.
\<close>

record 'c fin_state =
  fs_bs :: bs_state
  fs_cos :: "'c cos_state"
  fs_params :: "fin_params option"
  fs_votes :: "(u64 \<times> bytes, bytes) store"
  fs_blocks :: "(u64, IndexedBlock) store"
  fs_power :: "(u64 \<times> bytes, u64) store"
  fs_dist_cache :: "(u64, VotingPowerDistCache) store"
  fs_next_finalize :: "u64 option"
  fs_next_reward :: "u64 option"
  fs_pub_rand_commits :: "(bytes \<times> u64, PubRandCommit) store"
  fs_pub_rand_idx :: "(bytes, u64 list) store"
  fs_pub_rands :: "(bytes \<times> u64, bytes) store"
  fs_evidences :: "(bytes \<times> u64, Evidence) store"
  fs_signing_infos :: "(bytes, FinalityProviderSigningInfo) store"
  fs_bitmap :: "(bytes \<times> u64, bytes) store"
  fs_refundable :: "(bytes, unit) store"

section \<open>Parameters\<close>

text \<open>The zero value of the parameters, which is read before they are set.\<close>

definition zero_params :: fin_params where
  "zero_params = \<lparr>pm_max_active_fps = 0, pm_sig_timeout = 0, pm_signed_blocks_window = 0,
     pm_min_signed_per_window = None, pm_min_pub_rand = 0, pm_jail_duration = 0, pm_activation_height = 0\<rparr>"

definition fin_GetParams :: "'c fin_state \<Rightarrow> fin_params" where
  "fin_GetParams s = (case fs_params s of None \<Rightarrow> zero_params | Some p \<Rightarrow> p)"

definition fin_SetParams :: "fin_params \<Rightarrow> 'c fin_state \<Rightarrow> 'c fin_state res" where
  "fin_SetParams p s = rbind (fin_Params_Validate p) (\<lambda>_. Inr (s\<lparr>fs_params := Some p\<rparr>))"

section \<open>Votes\<close>

definition SetSig :: "u64 \<Rightarrow> BIP340PubKey \<Rightarrow> bytes \<Rightarrow> 'c fin_state \<Rightarrow> 'c fin_state" where
  "SetSig height fpBtcPK sig s = s\<lparr>fs_votes := kv_set (height, fpBtcPK) sig (fs_votes s)\<rparr>"

definition HasSig :: "'c fin_state \<Rightarrow> u64 \<Rightarrow> BIP340PubKey \<Rightarrow> bool" where
  "HasSig s height fpBtcPK \<longleftrightarrow> kv_has (fs_votes s) (height, fpBtcPK)"

definition GetSig :: "ctx \<Rightarrow> 'c fin_state \<Rightarrow> u64 \<Rightarrow> BIP340PubKey \<Rightarrow> bytes res" where
  "GetSig cx s height fpBtcPK =
     (if to_u64 (ctx_height cx) < height then Inl ErrHeightTooHigh
      else case kv_get (fs_votes s) (height, fpBtcPK) of
             None \<Rightarrow> Inl ErrVoteNotFound
           | Some sigBytes \<Rightarrow>
               if sigBytes = [] then Inl ErrVoteNotFound
               else case NewSchnorrEOTSSig sigBytes of
                      Inl _ \<Rightarrow> Inl (Panic ''failed to unmarshal EOTS signature'')
                    | Inr sig \<Rightarrow> Inr sig)"

fun hex_keys :: "(bytes \<times> 'v) list \<Rightarrow> (string \<times> 'v) list res" where
  "hex_keys [] = Inr []"
| "hex_keys ((k, v) # rest) =
     (case NewBIP340PubKey k of
        Inl _ \<Rightarrow> Inl (Panic ''failed to unmarshal finality provider BTC PK'')
      | Inr pk \<Rightarrow> rbind (hex_keys rest) (\<lambda>r. Inr ((MarshalHex pk, v) # r)))"

text \<open>A Go map built in the order of the iterator; a nil map has no entries.\<close>

definition to_map :: "('k::linorder \<times> 'v) list \<Rightarrow> ('k, 'v) store" where
  "to_map es = fold (\<lambda>(k, v). kv_set k v) es []"

definition GetVoters :: "'c fin_state \<Rightarrow> u64 \<Rightarrow> (string, unit) store res" where
  "GetVoters s height =
     rbind (hex_keys (kv_prefix height (fs_votes s))) (\<lambda>es. Inr (to_map (map (\<lambda>e. (fst e, ())) es)))"

section \<open>Indexed blocks\<close>

definition SetBlock :: "IndexedBlock \<Rightarrow> 'c fin_state \<Rightarrow> 'c fin_state" where
  "SetBlock b s = s\<lparr>fs_blocks := kv_set (ib_height b) b (fs_blocks s)\<rparr>"

definition HasBlock :: "'c fin_state \<Rightarrow> u64 \<Rightarrow> bool" where
  "HasBlock s height \<longleftrightarrow> kv_has (fs_blocks s) height"

definition GetBlock :: "'c fin_state \<Rightarrow> u64 \<Rightarrow> IndexedBlock res" where
  "GetBlock s height =
     (case kv_get (fs_blocks s) height of None \<Rightarrow> Inl ErrBlockNotFound | Some b \<Rightarrow> Inr b)"

definition IndexBlock :: "ctx \<Rightarrow> 'c fin_state \<Rightarrow> 'c fin_state" where
  "IndexBlock cx s =
     SetBlock \<lparr>ib_height = to_u64 (ctx_height cx), ib_app_hash = ctx_app_hash cx, ib_finalized = False\<rparr> s"

section \<open>Voting power\<close>

definition SetVotingPower :: "bytes \<Rightarrow> u64 \<Rightarrow> u64 \<Rightarrow> 'c fin_state \<Rightarrow> 'c fin_state" where
  "SetVotingPower fpBTCPK height vp s = s\<lparr>fs_power := kv_set (height, fpBTCPK) vp (fs_power s)\<rparr>"

definition GetVotingPower :: "'c fin_state \<Rightarrow> bytes \<Rightarrow> u64 \<Rightarrow> u64" where
  "GetVotingPower s fpBTCPK height =
     (case kv_get (fs_power s) (height, fpBTCPK) of None \<Rightarrow> 0 | Some p \<Rightarrow> p)"

definition GetCurrentVotingPower :: "'c fin_state \<Rightarrow> bytes \<Rightarrow> u64 \<times> u64" where
  "GetCurrentVotingPower s fpBTCPK =
     (case kv_last (fs_power s) of
        None \<Rightarrow> (0, 0)
      | Some ((lastHeight, _), _) \<Rightarrow>
          if \<not> HasFinalityProvider (fs_bs s) fpBTCPK then (lastHeight, 0)
          else case kv_get (fs_power s) (lastHeight, fpBTCPK) of
                 None \<Rightarrow> (lastHeight, 0)
               | Some p \<Rightarrow> (lastHeight, p))"

definition HasVotingPowerTable :: "'c fin_state \<Rightarrow> u64 \<Rightarrow> bool" where
  "HasVotingPowerTable s height \<longleftrightarrow> kv_prefix height (fs_power s) \<noteq> []"

text \<open>\<open>None\<close> is the nil map returned when no finality provider has power at the height.\<close>

definition GetVotingPowerTable :: "'c fin_state \<Rightarrow> u64 \<Rightarrow> (string, u64) store option res" where
  "GetVotingPowerTable s height =
     (let entries = kv_prefix height (fs_power s)
      in if entries = [] then Inr None
         else rbind (hex_keys entries) (\<lambda>es. Inr (Some (to_map es))))"

fun pk_entries :: "(bytes \<times> 'v) list \<Rightarrow> (BIP340PubKey \<times> 'v) list res" where
  "pk_entries [] = Inr []"
| "pk_entries ((k, v) # rest) =
     (case NewBIP340PubKey k of
        Inl _ \<Rightarrow> Inl (Panic ''failed to unmarshal finality provider BTC PK'')
      | Inr pk \<Rightarrow> rbind (pk_entries rest) (\<lambda>r. Inr ((pk, v) # r)))"

definition GetVotingPowerTableOrdered :: "'c fin_state \<Rightarrow> u64 \<Rightarrow> (BIP340PubKey \<times> u64) list res" where
  "GetVotingPowerTableOrdered s height = pk_entries (kv_prefix height (fs_power s))"

definition GetBTCStakingActivatedHeight :: "'c fin_state \<Rightarrow> u64 res" where
  "GetBTCStakingActivatedHeight s =
     (case kv_first (fs_power s) of
        None \<Rightarrow> Inl ErrBTCStakingNotActivated
      | Some ((h, _), _) \<Rightarrow> Inr h)"

definition IsBTCStakingActivated :: "'c fin_state \<Rightarrow> bool" where
  "IsBTCStakingActivated s \<longleftrightarrow> kv_first (fs_power s) \<noteq> None"

definition IsFinalityActive :: "ctx \<Rightarrow> 'c fin_state \<Rightarrow> bool" where
  "IsFinalityActive cx s \<longleftrightarrow>
     (if to_u64 (ctx_height cx) < pm_activation_height (fin_GetParams s) then False
      else case GetBTCStakingActivatedHeight s of Inl _ \<Rightarrow> False | Inr _ \<Rightarrow> True)"

section \<open>Distribution cache\<close>

definition SetVotingPowerDistCache :: "u64 \<Rightarrow> VotingPowerDistCache \<Rightarrow> 'c fin_state \<Rightarrow> 'c fin_state" where
  "SetVotingPowerDistCache height dc s = s\<lparr>fs_dist_cache := kv_set height dc (fs_dist_cache s)\<rparr>"

definition GetVotingPowerDistCache :: "'c fin_state \<Rightarrow> u64 \<Rightarrow> VotingPowerDistCache option" where
  "GetVotingPowerDistCache s height = kv_get (fs_dist_cache s) height"

definition RemoveVotingPowerDistCache :: "u64 \<Rightarrow> 'c fin_state \<Rightarrow> 'c fin_state" where
  "RemoveVotingPowerDistCache height s = s\<lparr>fs_dist_cache := kv_del height (fs_dist_cache s)\<rparr>"

section \<open>Evidence\<close>

definition SetEvidence :: "Evidence \<Rightarrow> 'c fin_state \<Rightarrow> 'c fin_state" where
  "SetEvidence e s = s\<lparr>fs_evidences := kv_set (ev_fp_btc_pk e, ev_block_height e) e (fs_evidences s)\<rparr>"

definition HasEvidence :: "'c fin_state \<Rightarrow> BIP340PubKey \<Rightarrow> u64 \<Rightarrow> bool" where
  "HasEvidence s fpBtcPK height \<longleftrightarrow> kv_has (fs_evidences s) (fpBtcPK, height)"

definition GetEvidence :: "ctx \<Rightarrow> 'c fin_state \<Rightarrow> BIP340PubKey \<Rightarrow> u64 \<Rightarrow> Evidence res" where
  "GetEvidence cx s fpBtcPK height =
     (if to_u64 (ctx_height cx) < height then Inl ErrHeightTooHigh
      else case kv_get (fs_evidences s) (fpBtcPK, height) of
             None \<Rightarrow> Inl ErrEvidenceNotFound
           | Some e \<Rightarrow> Inr e)"

definition GetFirstSlashableEvidence :: "'p fin_ext \<Rightarrow> 'c fin_state \<Rightarrow> BIP340PubKey \<Rightarrow> Evidence option" where
  "GetFirstSlashableEvidence F s fpBtcPK =
     find (IsSlashable F) (map snd (kv_prefix fpBtcPK (fs_evidences s)))"

end
