(* ===== verification/Finality_Tally.thy ===== *)
theory Finality_Tally
  imports Finality_State
begin

text \<open>
  Finalisation (\<open>keeper/tallying.go\<close>) and the rewarding of finalised blocks (\<open>keeper/rewarding.go\<close>).

  \<open>fin_abs\<close> reads a state as the set of its finalised heights and the next height to finalise;
  \<open>spec_finalize\<close> is what one call promises on that view, and \<open>TallyBlocks\<close> is shown to implement it.
  \<open>tally_ok\<close> is the invariant: keys of the stores are well formed, and the heights from activation to the
  next one to finalise are finalised or have no finality providers.
\<close>

definition tally_step :: "(string, unit) store \<Rightarrow> string \<times> u64 \<Rightarrow> u64 \<times> u64 \<Rightarrow> u64 \<times> u64" where
  "tally_step voterBTCPKs e acc =
     (fst acc + snd e, if kv_has voterBTCPKs (fst e) then snd acc + snd e else snd acc)"

definition tally :: "(string, u64) store \<Rightarrow> (string, unit) store \<Rightarrow> bool" where
  "tally fpSet voterBTCPKs =
     (let (totalPower, votedPower) = fold (tally_step voterBTCPKs) fpSet (0, 0)
      in votedPower * 3 > totalPower * 2)"

definition getNextHeightToFinalize :: "'c fin_state \<Rightarrow> u64" where
  "getNextHeightToFinalize s = (case fs_next_finalize s of None \<Rightarrow> 0 | Some h \<Rightarrow> h)"

definition setNextHeightToFinalize :: "u64 \<Rightarrow> 'c fin_state \<Rightarrow> 'c fin_state" where
  "setNextHeightToFinalize height s = s\<lparr>fs_next_finalize := Some height\<rparr>"

definition finalizeBlock :: "IndexedBlock \<Rightarrow> 'c fin_state \<Rightarrow> 'c fin_state" where
  "finalizeBlock b s =
     setNextHeightToFinalize (ib_height b + 1) (SetBlock (b\<lparr>ib_finalized := True\<rparr>) s)"

text \<open>The body of the loop, once for each height: a break ends the recursion.\<close>

fun finalization_loop :: "u64 list \<Rightarrow> 'c fin_state \<Rightarrow> 'c fin_state res" where
  "finalization_loop [] s = Inr s"
| "finalization_loop (i # rest) s =
     (case GetBlock s i of
        Inl _ \<Rightarrow> Inl (Panic ''failed to get block'')
      | Inr ib \<Rightarrow>
          rbind (GetVotingPowerTable s (ib_height ib)) (\<lambda>fpSet.
            case fpSet of
              Some powers \<Rightarrow>
                if \<not> ib_finalized ib then
                  rbind (GetVoters s (ib_height ib)) (\<lambda>voterBTCPKs.
                    if tally powers voterBTCPKs then finalization_loop rest (finalizeBlock ib s) else Inr s)
                else Inl (Panic ''block is finalized, but last finalized height in DB does not reach here'')
            | None \<Rightarrow>
                if \<not> ib_finalized ib
                then finalization_loop rest (setNextHeightToFinalize (ib_height ib + 1) s)
                else Inl (Panic ''block is finalized, but does not have a finality provider set'')))"

definition TallyBlocks :: "ctx \<Rightarrow> u64 \<Rightarrow> 'c fin_state \<Rightarrow> 'c fin_state res" where
  "TallyBlocks cx maxFinalizedBlocks s =
     (case GetBTCStakingActivatedHeight s of
        Inl _ \<Rightarrow> Inl (Panic ''cannot tally a block when the BTC staking protocol has not been activated yet'')
      | Inr activatedHeight \<Rightarrow>
          let next = getNextHeightToFinalize s;
              startHeight = (if next < activatedHeight then activatedHeight else next);
              current = to_u64 (ctx_height cx);
              s1 = (if \<not> HasBlock s current then IndexBlock cx s else s);
              maxHeightToFinalize = min (startHeight + maxFinalizedBlocks - 1) current
          in finalization_loop (range_u64 startHeight maxHeightToFinalize) s1)"

section \<open>Rewarding\<close>

definition GetNextHeightToReward :: "'c fin_state \<Rightarrow> u64" where
  "GetNextHeightToReward s = (case fs_next_reward s of None \<Rightarrow> 0 | Some h \<Rightarrow> h)"

definition SetNextHeightToReward :: "u64 \<Rightarrow> 'c fin_state \<Rightarrow> 'c fin_state" where
  "SetNextHeightToReward height s = s\<lparr>fs_next_reward := Some height\<rparr>"

definition rewardBTCStaking :: "ext \<Rightarrow> 'c coins_ops \<Rightarrow> u64 \<Rightarrow> 'c fin_state \<Rightarrow> 'c fin_state res" where
  "rewardBTCStaking X C height s =
     (case GetVotingPowerDistCache s height of
        None \<Rightarrow> Inl (Panic ''voting power distribution cache not found'')
      | Some dc \<Rightarrow>
          rbind (GetVoters s height) (\<lambda>voterBTCPKs.
          rbind (RewardBTCStaking X C height dc voterBTCPKs (cs_inc (fs_cos s))) (\<lambda>i.
            Inr (RemoveVotingPowerDistCache height (s\<lparr>fs_cos := (fs_cos s)\<lparr>cs_inc := i\<rparr>\<rparr>)))))"

fun rewarding_loop ::
  "ext \<Rightarrow> 'c coins_ops \<Rightarrow> u64 list \<Rightarrow> u64 \<Rightarrow> 'c fin_state \<Rightarrow> (u64 \<times> 'c fin_state) res" where
  "rewarding_loop X C [] nextHeightToReward s = Inr (nextHeightToReward, s)"
| "rewarding_loop X C (height # rest) nextHeightToReward s =
     (case GetBlock s height of
        Inl _ \<Rightarrow> Inl (Panic ''failed to get block'')
      | Inr block \<Rightarrow>
          if \<not> ib_finalized block then rewarding_loop X C rest nextHeightToReward s
          else rbind (rewardBTCStaking X C height s) (\<lambda>t. rewarding_loop X C rest (height + 1) t))"

definition HandleRewarding ::
  "ext \<Rightarrow> 'c coins_ops \<Rightarrow> i64 \<Rightarrow> u64 \<Rightarrow> 'c fin_state \<Rightarrow> 'c fin_state res" where
  "HandleRewarding X C targetHeight maxRewardedBlocks s =
     rbind (if GetNextHeightToReward s = 0
            then (case GetBTCStakingActivatedHeight s of
                    Inl _ \<Rightarrow> Inl (Panic ''the BTC staking protocol is not activated yet'')
                  | Inr h \<Rightarrow> Inr h)
            else Inr (GetNextHeightToReward s)) (\<lambda>start.
     let maxHeightToReward = min (start + maxRewardedBlocks - 1) (to_u64 targetHeight)
     in rbind (rewarding_loop X C (range_u64 start maxHeightToReward) start s) (\<lambda>(next, t).
          Inr (if next \<noteq> start then SetNextHeightToReward next t else t)))"

section \<open>Quorums\<close>

definition power_of :: "(string, u64) store \<Rightarrow> (string \<Rightarrow> bool) \<Rightarrow> nat" where
  "power_of fpSet P = sum_list (map (\<lambda>e. unat (snd e)) (filter (\<lambda>e. P (fst e)) fpSet))"

lemma power_of_simps [simp]:
  "power_of [] P = 0"
  "power_of (e # es) P = (if P (fst e) then unat (snd e) else 0) + power_of es P"
  by (simp_all add: power_of_def)

lemma power_of_mono: "(\<And>k. P k \<Longrightarrow> Q k) \<Longrightarrow> power_of es P \<le> power_of es Q"
  by (induction es) (auto simp: add_mono)

lemma power_of_overlap:
  "power_of es P + power_of es Q \<le> power_of es (\<lambda>_. True) + power_of es (\<lambda>k. P k \<and> Q k)"
  by (induction es) auto

lemma fold_tally_step:
  "fold (tally_step voters) es (t, v) =
     (t + of_nat (power_of es (\<lambda>_. True)), v + of_nat (power_of es (kv_has voters)))"
  by (induction es arbitrary: t v) (simp_all add: tally_step_def algebra_simps)

lemma tally_iff:
  assumes "3 * power_of fpSet (\<lambda>_. True) < 2 ^ 64"
  shows "tally fpSet voters \<longleftrightarrow> 2 * power_of fpSet (\<lambda>_. True) < 3 * power_of fpSet (kv_has voters)"
proof -
  let ?t = "power_of fpSet (\<lambda>_. True)" and ?v = "power_of fpSet (kv_has voters)"
  have "?v \<le> ?t" by (rule power_of_mono) simp
  then have "unat (of_nat ?v * 3 :: u64) = 3 * ?v" "unat (of_nat ?t * 2 :: u64) = 2 * ?t"
    using assms by (simp_all add: unat_word_ariths unat_of_nat mod_mult_left_eq mult.commute)
  then show ?thesis by (simp add: tally_def fold_tally_step word_less_nat_alt)
qed

text \<open>Two quorums overlap.  If two sets of voters both reach the quorum of \<open>tally\<close> on the same power
  table, the finality providers in both hold more than a third of its power, provided three times the
  total power is below \<open>2 ^ 64\<close>.\<close>

theorem quorums_intersect:
  assumes "3 * power_of fpSet (\<lambda>_. True) < 2 ^ 64" and "tally fpSet voters" and "tally fpSet voters'"
  shows "power_of fpSet (\<lambda>_. True) < 3 * power_of fpSet (\<lambda>pk. kv_has voters pk \<and> kv_has voters' pk)"
  using assms power_of_overlap [of fpSet "kv_has voters" "kv_has voters'"] by (simp add: tally_iff)

lemma zero_power_never_tallies:
  "(\<And>e. e \<in> set fpSet \<Longrightarrow> snd e = 0) \<Longrightarrow> \<not> tally fpSet voters"
proof -
  assume z: "\<And>e. e \<in> set fpSet \<Longrightarrow> snd e = 0"
  have "power_of fpSet P = 0" for P using z by (induction fpSet) auto
  then show ?thesis by (simp add: tally_def fold_tally_step)
qed

section \<open>Finalisation refines its specification\<close>

definition tallied :: "'c fin_state \<Rightarrow> u64 \<Rightarrow> bool" where
  "tallied s h = (case GetVotingPowerTable s h of
      Inl _ \<Rightarrow> False
    | Inr None \<Rightarrow> True
    | Inr (Some powers) \<Rightarrow> (case GetVoters s h of Inl _ \<Rightarrow> False | Inr voters \<Rightarrow> tally powers voters))"

definition pending :: "'c fin_state \<Rightarrow> u64 \<Rightarrow> bool" where
  "pending s h \<longleftrightarrow> (case GetBlock s h of Inl _ \<Rightarrow> False | Inr b \<Rightarrow> ib_height b = h \<and> \<not> ib_finalized b) \<and>
     (\<exists>t. GetVotingPowerTable s h = Inr t) \<and> (\<exists>v. GetVoters s h = Inr v)"

definition finalized_heights :: "'c fin_state \<Rightarrow> u64 set" where
  "finalized_heights s = {h. \<exists>b. kv_get (fs_blocks s) h = Some b \<and> ib_finalized b}"

definition spec_finalize :: "(u64 \<Rightarrow> bool) \<Rightarrow> u64 list \<Rightarrow> u64 set \<times> u64 \<Rightarrow> u64 set \<times> u64" where
  "spec_finalize has_table hs a =
     (fst a \<union> {h \<in> set hs. has_table h}, if hs = [] then snd a else last hs + 1)"

definition fin_abs :: "'c fin_state \<Rightarrow> u64 set \<times> u64" where
  "fin_abs s = (finalized_heights s, getNextHeightToFinalize s)"

lemma table_frame [simp]:
  "GetVotingPowerTable (finalizeBlock b s) h = GetVotingPowerTable s h"
  "GetVoters (finalizeBlock b s) h = GetVoters s h"
  "GetVotingPowerTable (setNextHeightToFinalize n s) h = GetVotingPowerTable s h"
  "GetVoters (setNextHeightToFinalize n s) h = GetVoters s h"
  "HasVotingPowerTable (finalizeBlock b s) h = HasVotingPowerTable s h"
  "HasVotingPowerTable (setNextHeightToFinalize n s) h = HasVotingPowerTable s h"
  by (simp_all add: GetVotingPowerTable_def GetVoters_def HasVotingPowerTable_def finalizeBlock_def
      setNextHeightToFinalize_def SetBlock_def)

lemma tallied_frame [simp]:
  "tallied (finalizeBlock b s) = tallied s" "tallied (setNextHeightToFinalize n s) = tallied s"
  by (simp_all add: tallied_def fun_eq_iff split: sum.split option.split)

lemma pending_frame [simp]:
  "ib_height b \<noteq> h \<Longrightarrow> pending (finalizeBlock b s) h = pending s h"
  "pending (setNextHeightToFinalize n s) h = pending s h"
  by (simp_all add: pending_def GetBlock_def finalizeBlock_def setNextHeightToFinalize_def SetBlock_def
      GetVotingPowerTable_def GetVoters_def)

lemma table_iff: "GetVotingPowerTable s h = Inr t \<Longrightarrow> t = None \<longleftrightarrow> \<not> HasVotingPowerTable s h"
  by (auto simp: GetVotingPowerTable_def HasVotingPowerTable_def Let_def rbind_eq_Inr split: if_splits)

lemma fin_abs_steps:
  "fin_abs (finalizeBlock b s) = (insert (ib_height b) (finalized_heights s), ib_height b + 1)"
  "fin_abs (setNextHeightToFinalize n s) = (finalized_heights s, n)"
  by (auto simp: fin_abs_def finalized_heights_def finalizeBlock_def setNextHeightToFinalize_def
      SetBlock_def getNextHeightToFinalize_def split: if_splits)


lemma app_hash_steps:
  "kv_get (fs_blocks s) (ib_height b) = Some b \<Longrightarrow>
     map_option ib_app_hash (kv_get (fs_blocks (finalizeBlock b s)) h) = map_option ib_app_hash (kv_get (fs_blocks s) h)"
  "fs_blocks (setNextHeightToFinalize n s) = fs_blocks s"
  by (auto simp: finalizeBlock_def setNextHeightToFinalize_def SetBlock_def)

lemma pendingE:
  assumes "pending s h"
  obtains b t v where "kv_get (fs_blocks s) h = Some b" "ib_height b = h" "\<not> ib_finalized b"
    "GetVotingPowerTable s h = Inr t" "GetVoters s h = Inr v"
  using assms by (auto simp: pending_def GetBlock_def split: option.splits)

lemma finalization_loop_refines:
  assumes "distinct hs" and "\<And>h. h \<in> set hs \<Longrightarrow> pending s h"
  shows "\<exists>t. finalization_loop hs s = Inr t \<and>
     fin_abs t = spec_finalize (HasVotingPowerTable s) (takeWhile (tallied s) hs) (fin_abs s) \<and>
     (\<forall>h. map_option ib_app_hash (kv_get (fs_blocks t) h) = map_option ib_app_hash (kv_get (fs_blocks s) h)) \<and>
     (\<forall>h. map_option ib_height (kv_get (fs_blocks t) h) = map_option ib_height (kv_get (fs_blocks s) h)) \<and>
     fs_power t = fs_power s \<and> fs_votes t = fs_votes s"
  using assms
proof (induction hs arbitrary: s)
  case Nil
  then show ?case by (simp add: spec_finalize_def fin_abs_def)
next
  case (Cons i hs)
  obtain b tb v where b: "kv_get (fs_blocks s) i = Some b" "ib_height b = i" "\<not> ib_finalized b"
    and tb: "GetVotingPowerTable s i = Inr tb" and v: "GetVoters s i = Inr v"
    using Cons.prems(2) [of i] by (auto elim: pendingE)
  have blk: "GetBlock s i = Inr b" using b by (simp add: GetBlock_def)
  show ?case
  proof (cases "tallied s i")
    case False
    then obtain powers where "tb = Some powers" "\<not> tally powers v"
      using tb v by (cases tb) (auto simp: tallied_def)
    with False b blk tb v show ?thesis by (simp add: spec_finalize_def fin_abs_def)
  next
    case True
    define u where "u = (if HasVotingPowerTable s i then finalizeBlock b s else setNextHeightToFinalize (i + 1) s)"
    have step: "finalization_loop (i # hs) s = finalization_loop hs u"
      using True b blk tb v table_iff [OF tb] by (cases tb) (auto simp: tallied_def u_def)
    have frame: "tallied u = tallied s" "HasVotingPowerTable u = HasVotingPowerTable s"
      by (simp_all add: u_def fun_eq_iff)
    have stores: "fs_power u = fs_power s" "fs_votes u = fs_votes s"
      by (simp_all add: u_def finalizeBlock_def setNextHeightToFinalize_def SetBlock_def)
    have pend: "pending u h" if "h \<in> set hs" for h
    proof -
      have "h \<noteq> i" "pending s h" using that Cons.prems by auto
      with b(2) show ?thesis by (simp add: u_def)
    qed
    have blocks: "map_option ib_app_hash (kv_get (fs_blocks u) h) = map_option ib_app_hash (kv_get (fs_blocks s) h)"
      "map_option ib_height (kv_get (fs_blocks u) h) = map_option ib_height (kv_get (fs_blocks s) h)" for h
      using b by (auto simp: u_def finalizeBlock_def setNextHeightToFinalize_def SetBlock_def)
    have abs: "fin_abs u = spec_finalize (HasVotingPowerTable s) [i] (fin_abs s)"
      using b(2) by (auto simp: u_def fin_abs_steps spec_finalize_def fin_abs_def [of s])
    obtain t where t: "finalization_loop hs u = Inr t"
      "fin_abs t = spec_finalize (HasVotingPowerTable s) (takeWhile (tallied s) hs) (fin_abs u)"
      "\<forall>h. map_option ib_app_hash (kv_get (fs_blocks t) h) = map_option ib_app_hash (kv_get (fs_blocks s) h)"
      "\<forall>h. map_option ib_height (kv_get (fs_blocks t) h) = map_option ib_height (kv_get (fs_blocks s) h)"
      "fs_power t = fs_power s" "fs_votes t = fs_votes s"
      using Cons.IH [of u] Cons.prems(1) pend frame stores blocks by auto
    have "fin_abs t = spec_finalize (HasVotingPowerTable s) (takeWhile (tallied s) (i # hs)) (fin_abs s)"
      using t(2) abs True by (auto simp: spec_finalize_def)
    with t step show ?thesis by auto
  qed
qed

section \<open>The invariant of finalisation\<close>

definition tally_ok :: "'c fin_state \<Rightarrow> bool" where
  "tally_ok s \<longleftrightarrow>
     (\<forall>h b. kv_get (fs_blocks s) h = Some b \<longrightarrow> ib_height b = h) \<and>
     (\<forall>e \<in> set (fs_votes s). length (snd (fst e)) = BIP340PubKeyLen) \<and>
     (\<forall>e \<in> set (fs_power s). length (snd (fst e)) = BIP340PubKeyLen) \<and>
     (\<forall>h \<in> finalized_heights s. h < getNextHeightToFinalize s \<and> HasVotingPowerTable s h) \<and>
     (\<forall>a h. GetBTCStakingActivatedHeight s = Inr a \<longrightarrow> a \<le> h \<longrightarrow> h < getNextHeightToFinalize s \<longrightarrow>
        h \<in> finalized_heights s \<or> \<not> HasVotingPowerTable s h)"

lemma hex_keys_Inr: "(\<And>e. e \<in> set es \<Longrightarrow> length (fst e) = BIP340PubKeyLen) \<Longrightarrow> \<exists>r. hex_keys es = Inr r"
proof (induction es)
  case (Cons e es)
  then obtain r where "hex_keys es = Inr r" by auto
  with Cons.prems [of e] show ?case
    by (cases e) (auto simp: NewBIP340PubKey_def BIP340PubKey_Unmarshal_def)
qed simp

lemma tables_readable:
  assumes "tally_ok s"
  shows "\<exists>t. GetVotingPowerTable s h = Inr t" "\<exists>v. GetVoters s h = Inr v"
proof -
  have "\<exists>r. hex_keys (kv_prefix h (fs_power s)) = Inr r" "\<exists>r. hex_keys (kv_prefix h (fs_votes s)) = Inr r"
    using assms by (force intro!: hex_keys_Inr simp: tally_ok_def kv_prefix_def)+
  then show "\<exists>t. GetVotingPowerTable s h = Inr t" "\<exists>v. GetVoters s h = Inr v"
    by (auto simp: GetVotingPowerTable_def GetVoters_def Let_def)
qed


section \<open>Quorums over the store\<close>

text \<open>The voting power at a height of the finality providers that satisfy a predicate.\<close>

definition power_at :: "'c fin_state \<Rightarrow> u64 \<Rightarrow> (BIP340PubKey \<Rightarrow> bool) \<Rightarrow> nat" where
  "power_at s h P = (\<Sum>e\<leftarrow>kv_prefix h (fs_power s). if P (fst e) then unat (snd e) else 0)"

lemma power_at_mono: "(\<And>pk. P pk \<Longrightarrow> Q pk) \<Longrightarrow> power_at s h P \<le> power_at s h Q"
  unfolding power_at_def by (rule sum_list_mono) simp

lemma powered_finite: "kv_ok (fs_power s) \<Longrightarrow> finite {pk. kv_has (fs_power s) (h, pk)}"
  using kv_finite [of "kv_prefix h (fs_power s)"] by (auto simp: kv_has_def kv_get_prefix)

lemma power_at_sum:
  assumes "kv_ok (fs_power s)"
  shows "power_at s h P = (\<Sum>pk | kv_has (fs_power s) (h, pk) \<and> P pk. unat (GetVotingPower s pk h))"
proof -
  let ?K = "{pk. kv_has (fs_power s) (h, pk)}"
  have K: "{k. kv_has (kv_prefix h (fs_power s)) k} = ?K" by (simp add: kv_has_def kv_get_prefix)
  have g: "the (kv_get (kv_prefix h (fs_power s)) pk) = GetVotingPower s pk h" if "pk \<in> ?K" for pk
    using that by (auto simp: kv_has_def kv_get_prefix GetVotingPower_def)
  have "power_at s h P = (\<Sum>pk \<in> ?K. if P pk then unat (GetVotingPower s pk h) else 0)"
    unfolding power_at_def kv_sum [OF kv_prefix_ok [OF assms]] K by (intro sum.cong) (simp_all add: g)
  also have "\<dots> = (\<Sum>pk \<in> {pk \<in> ?K. P pk}. unat (GetVotingPower s pk h))"
    using powered_finite [OF assms] by (simp add: sum.inter_filter [symmetric])
  finally show ?thesis by simp
qed

lemma to_map_sorted: "kv_ok es \<Longrightarrow> to_map es = es"
proof (induction es rule: rev_induct)
  case (snoc e es)
  then have "kv_ok es" "\<And>x. x \<in> set es \<Longrightarrow> fst x < fst e" by (auto simp: kv_ok_def sorted_wrt_append)
  with snoc.IH show ?case by (cases e) (simp add: to_map_def kv_set_above)
qed (simp add: to_map_def)

lemma hex_keys_eq: "hex_keys es = Inr r \<Longrightarrow> r = map (\<lambda>e. (MarshalHex (fst e), snd e)) es"
  by (induction es arbitrary: r)
    (auto simp: rbind_eq_Inr NewBIP340PubKey_def BIP340PubKey_Unmarshal_def split: sum.splits if_splits)

lemma hex_map_ok: "kv_ok st \<Longrightarrow> kv_ok (map (\<lambda>e. (MarshalHex (fst e), f e)) (kv_prefix h st))"
  using kv_prefix_ok [of st h] by (simp add: kv_ok_def sorted_wrt_map)

lemma GetVotingPowerTable_eq:
  assumes "GetVotingPowerTable s h = Inr (Some powers)" and "kv_ok (fs_power s)"
  shows "powers = map (\<lambda>e. (MarshalHex (fst e), snd e)) (kv_prefix h (fs_power s))"
proof -
  from assms(1) obtain es where es: "hex_keys (kv_prefix h (fs_power s)) = Inr es" "powers = to_map es"
    by (auto simp: GetVotingPowerTable_def Let_def rbind_eq_Inr split: if_splits)
  then show ?thesis using to_map_sorted [OF hex_map_ok [OF assms(2), of snd h]] unfolding hex_keys_eq [OF es(1)] by simp
qed

lemma GetVoters_has:
  assumes "GetVoters s h = Inr voters" and "kv_ok (fs_votes s)"
  shows "kv_has voters k \<longleftrightarrow> (\<exists>pk. k = MarshalHex pk \<and> kv_has (fs_votes s) (h, pk))"
proof -
  from assms(1) obtain es where es: "hex_keys (kv_prefix h (fs_votes s)) = Inr es" "voters = to_map (map (\<lambda>e. (fst e, ())) es)"
    by (auto simp: GetVoters_def rbind_eq_Inr)
  have v: "voters = map (\<lambda>e. (MarshalHex (fst e), ())) (kv_prefix h (fs_votes s))"
    using to_map_sorted [OF hex_map_ok [OF assms(2), of "\<lambda>_. ()" h]] by (simp add: es(2) hex_keys_eq [OF es(1)] comp_def)
  have "kv_has voters k \<longleftrightarrow> k \<in> MarshalHex ` fst ` set (kv_prefix h (fs_votes s))"
    using kv_has_keys [OF hex_map_ok [OF assms(2), of "\<lambda>_. ()" h]] by (simp add: v image_image)
  also have "\<dots> \<longleftrightarrow> (\<exists>pk. k = MarshalHex pk \<and> kv_has (fs_votes s) (h, pk))"
    using kv_has_keys [OF kv_prefix_ok [OF assms(2), of h]] by (auto simp: kv_has_prefix)
  finally show ?thesis .
qed

lemma power_of_hex:
  "power_of (map (\<lambda>e. (MarshalHex (fst e), snd e)) es) P = (\<Sum>e\<leftarrow>es. if P (MarshalHex (fst e)) then unat (snd e) else 0)"
  by (induction es) auto

lemma tallied_power:
  assumes ok: "tally_ok s" and st: "kv_ok (fs_power s)" "kv_ok (fs_votes s)" and small: "3 * power_at s h (\<lambda>_. True) < 2 ^ 64"
  shows "tallied s h \<longleftrightarrow> \<not> HasVotingPowerTable s h \<or>
    2 * power_at s h (\<lambda>_. True) < 3 * power_at s h (\<lambda>pk. kv_has (fs_votes s) (h, pk))"
proof -
  obtain tab voters where t: "GetVotingPowerTable s h = Inr tab" and v: "GetVoters s h = Inr voters"
    using tables_readable [OF ok] by blast
  show ?thesis
  proof (cases tab)
    case None
    then show ?thesis using table_iff [OF t] t by (simp add: tallied_def)
  next
    case (Some powers)
    have p: "power_of powers P = power_at s h (\<lambda>pk. P (MarshalHex pk))" for P
      unfolding GetVotingPowerTable_eq [OF t [unfolded Some] st(1)] power_at_def by (rule power_of_hex)
    have "tallied s h \<longleftrightarrow> tally powers voters" by (simp add: tallied_def t v Some)
    also have "\<dots> \<longleftrightarrow> 2 * power_at s h (\<lambda>_. True) < 3 * power_at s h (\<lambda>pk. kv_has (fs_votes s) (h, pk))"
      using small by (subst tally_iff) (simp_all add: p GetVoters_has [OF v st(2)])
    finally show ?thesis using table_iff [OF t] Some by simp
  qed
qed

lemma activated_iff:
  assumes "kv_ok (fs_power s)"
  shows "GetBTCStakingActivatedHeight s = Inr a \<longleftrightarrow>
    (\<exists>pk. kv_has (fs_power s) (a, pk)) \<and> (\<forall>h pk. kv_has (fs_power s) (h, pk) \<longrightarrow> a \<le> h)"
proof (cases "fs_power s")
  case Nil
  then show ?thesis by (simp add: GetBTCStakingActivatedHeight_def kv_first_def kv_has_def)
next
  case (Cons e es)
  obtain h0 pk0 v0 where e: "e = ((h0, pk0), v0)" by (cases e) auto
  have G: "GetBTCStakingActivatedHeight s = Inr a \<longleftrightarrow> h0 = a"
    by (simp add: GetBTCStakingActivatedHeight_def kv_first_def Cons e)
  have "kv_has (fs_power s) (h0, pk0)" by (simp add: kv_has_def Cons e)
  moreover have "h0 \<le> h" if "kv_has (fs_power s) (h, pk)" for h pk
  proof -
    have "(h, pk) \<in> fst ` set (fs_power s)" using that by (simp add: kv_has_keys [OF assms])
    then have "(h, pk) = (h0, pk0) \<or> (h0, pk0) < (h, pk)"
      using assms unfolding Cons kv_ok_Cons e by auto
    then show ?thesis by (auto simp: less_prod_def)
  qed
  ultimately show ?thesis unfolding G using antisym by blast
qed

lemma has_table_iff: "HasVotingPowerTable s h \<longleftrightarrow> (\<exists>pk. kv_has (fs_power s) (h, pk))"
  by (auto simp: HasVotingPowerTable_def kv_prefix_empty_iff kv_has_def)

section \<open>One call of the tally\<close>

definition indexed :: "ctx \<Rightarrow> 'c fin_state \<Rightarrow> 'c fin_state" where
  "indexed cx s = (if \<not> HasBlock s (to_u64 (ctx_height cx)) then IndexBlock cx s else s)"

definition tally_range :: "ctx \<Rightarrow> u64 \<Rightarrow> u64 \<Rightarrow> 'c fin_state \<Rightarrow> u64 list" where
  "tally_range cx m a s =
     range_u64 (max a (getNextHeightToFinalize s))
       (min (max a (getNextHeightToFinalize s) + m - 1) (to_u64 (ctx_height cx)))"

lemma TallyBlocks_unfold:
  "GetBTCStakingActivatedHeight s = Inr a \<Longrightarrow>
     TallyBlocks cx m s = finalization_loop (tally_range cx m a s) (indexed cx s)"
  by (auto simp: TallyBlocks_def tally_range_def indexed_def Let_def max_def not_less)

lemma indexed_frame [simp]:
  "GetVotingPowerTable (indexed cx s) h = GetVotingPowerTable s h" "GetVoters (indexed cx s) h = GetVoters s h"
  "HasVotingPowerTable (indexed cx s) = HasVotingPowerTable s"
  "getNextHeightToFinalize (indexed cx s) = getNextHeightToFinalize s"
  "GetBTCStakingActivatedHeight (indexed cx s) = GetBTCStakingActivatedHeight s"
  "fs_votes (indexed cx s) = fs_votes s" "fs_power (indexed cx s) = fs_power s"
  by (simp_all add: indexed_def IndexBlock_def SetBlock_def GetVotingPowerTable_def GetVoters_def fun_eq_iff
      HasVotingPowerTable_def getNextHeightToFinalize_def GetBTCStakingActivatedHeight_def)

lemma tallied_indexed [simp]: "tallied (indexed cx s) = tallied s"
  by (simp add: tallied_def fun_eq_iff split: sum.split option.split)

lemma indexed_finalized [simp]: "finalized_heights (indexed cx s) = finalized_heights s"
  by (auto simp: finalized_heights_def indexed_def IndexBlock_def SetBlock_def HasBlock_def kv_has_def
      split: if_splits)

lemma indexed_ok: "tally_ok s \<Longrightarrow> tally_ok (indexed cx s)"
  unfolding tally_ok_def indexed_frame indexed_finalized
  by (auto simp: indexed_def IndexBlock_def SetBlock_def split: if_splits)

lemma indexed_pending:
  assumes ok: "tally_ok s" and "a \<le> h" "getNextHeightToFinalize s \<le> h" "h \<le> to_u64 (ctx_height cx)"
    and blocks: "\<And>h. a \<le> h \<Longrightarrow> getNextHeightToFinalize s \<le> h \<Longrightarrow> h < to_u64 (ctx_height cx) \<Longrightarrow> HasBlock s h"
  shows "pending (indexed cx s) h"
proof -
  have "HasBlock (indexed cx s) h"
    using assms(2-4) blocks [of h]
    by (cases "h = to_u64 (ctx_height cx)") (auto simp: indexed_def IndexBlock_def SetBlock_def HasBlock_def)
  then obtain b where b: "kv_get (fs_blocks (indexed cx s)) h = Some b" by (auto simp: HasBlock_def kv_has_def)
  moreover have "ib_height b = h" using b indexed_ok [OF ok, of cx] by (simp add: tally_ok_def)
  moreover have "h \<notin> finalized_heights s" using ok assms(3) by (auto simp: tally_ok_def)
  then have "\<not> ib_finalized b" using b indexed_finalized [of cx s] by (auto simp: finalized_heights_def)
  ultimately show ?thesis using tables_readable [OF ok] by (simp add: pending_def GetBlock_def)
qed

lemma TallyBlocks_run:
  assumes ok: "tally_ok s" and act: "GetBTCStakingActivatedHeight s = Inr a"
    and blocks: "\<And>h. a \<le> h \<Longrightarrow> getNextHeightToFinalize s \<le> h \<Longrightarrow> h < to_u64 (ctx_height cx) \<Longrightarrow> HasBlock s h"
  shows "\<exists>t. TallyBlocks cx m s = Inr t \<and>
     fin_abs t = spec_finalize (HasVotingPowerTable s) (takeWhile (tallied s) (tally_range cx m a s)) (fin_abs s) \<and>
     (\<forall>h. map_option ib_app_hash (kv_get (fs_blocks t) h) =
        map_option ib_app_hash (kv_get (fs_blocks (indexed cx s)) h)) \<and>
     (\<forall>h. map_option ib_height (kv_get (fs_blocks t) h) =
        map_option ib_height (kv_get (fs_blocks (indexed cx s)) h)) \<and>
     fs_power t = fs_power s \<and> fs_votes t = fs_votes s"
proof -
  have "pending (indexed cx s) h" if "h \<in> set (tally_range cx m a s)" for h
    using that by (intro indexed_pending [OF ok _ _ _ blocks, of a]) (auto simp: tally_range_def set_range_u64)
  then have "\<exists>t. finalization_loop (tally_range cx m a s) (indexed cx s) = Inr t \<and>
     fin_abs t = spec_finalize (HasVotingPowerTable s) (takeWhile (tallied s) (tally_range cx m a s)) (fin_abs (indexed cx s)) \<and>
     (\<forall>h. map_option ib_app_hash (kv_get (fs_blocks t) h) = map_option ib_app_hash (kv_get (fs_blocks (indexed cx s)) h)) \<and>
     (\<forall>h. map_option ib_height (kv_get (fs_blocks t) h) = map_option ib_height (kv_get (fs_blocks (indexed cx s)) h)) \<and>
     fs_power t = fs_power s \<and> fs_votes t = fs_votes s"
    using finalization_loop_refines [of "tally_range cx m a s" "indexed cx s"]
    by (simp add: tally_range_def)
  then show ?thesis using TallyBlocks_unfold [OF act, of cx m] by (simp add: fin_abs_def)
qed

lemma power_frame:
  "fs_power t = fs_power s \<Longrightarrow> HasVotingPowerTable t = HasVotingPowerTable s"
  "fs_power t = fs_power s \<Longrightarrow> GetBTCStakingActivatedHeight t = GetBTCStakingActivatedHeight s"
  by (simp_all add: HasVotingPowerTable_def GetBTCStakingActivatedHeight_def fun_eq_iff)

lemma TallyBlocks_keeps_ok:
  assumes ok: "tally_ok s" and act: "GetBTCStakingActivatedHeight s = Inr a"
    and height: "0 \<le> ctx_height cx" "ctx_height cx < 2 ^ 63"
    and abs: "fin_abs t = spec_finalize (HasVotingPowerTable s) (takeWhile (tallied s) (tally_range cx m a s)) (fin_abs s)"
    and hs: "\<forall>h. map_option ib_height (kv_get (fs_blocks t) h) = map_option ib_height (kv_get (fs_blocks (indexed cx s)) h)"
    and stores: "fs_power t = fs_power s" "fs_votes t = fs_votes s"
  shows "tally_ok t"
proof -
  let ?p = "takeWhile (tallied s) (tally_range cx m a s)" and ?n = "getNextHeightToFinalize s"
  have keys: "\<forall>h b. kv_get (fs_blocks t) h = Some b \<longrightarrow> ib_height b = h"
  proof (intro allI impI)
    fix h b assume "kv_get (fs_blocks t) h = Some b"
    with hs obtain b' where "kv_get (fs_blocks (indexed cx s)) h = Some b'" "ib_height b' = ib_height b"
      by (metis map_option_eq_Some)
    then show "ib_height b = h" using indexed_ok [OF ok, of cx] by (auto simp: tally_ok_def)
  qed
  have fin: "finalized_heights t = finalized_heights s \<union> {h \<in> set ?p. HasVotingPowerTable s h}"
    and nxt: "getNextHeightToFinalize t = (if ?p = [] then ?n else last ?p + 1)"
    using abs by (auto simp: fin_abs_def spec_finalize_def)
  have cover: "(\<forall>h \<in> finalized_heights t. h < getNextHeightToFinalize t \<and> HasVotingPowerTable s h) \<and>
     (\<forall>h. a \<le> h \<longrightarrow> h < getNextHeightToFinalize t \<longrightarrow> h \<in> finalized_heights t \<or> \<not> HasVotingPowerTable s h)"
  proof (cases "?p = []")
    case True
    then show ?thesis using ok act by (simp add: fin nxt tally_ok_def)
  next
    case False
    have p: "set ?p = {h. max a ?n \<le> h \<and> h \<le> last ?p}" "max a ?n \<le> last ?p"
      "last ?p \<le> min (max a ?n + m - 1) (to_u64 (ctx_height cx))"
      unfolding tally_range_def by (rule takeWhile_range_u64 [OF False [unfolded tally_range_def]])+
    have "unat (to_u64 (ctx_height cx)) < 2 ^ 63" using height by (simp add: unat_to_u64 nat_less_iff)
    moreover have "last ?p \<le> to_u64 (ctx_height cx)" using p(3) by simp
    ultimately have "unat (last ?p) < 2 ^ 63" by (simp add: word_le_nat_alt)
    then have lt: "h < last ?p + 1 \<longleftrightarrow> h \<le> last ?p" for h by (rule less_Suc_u64)
    have old: "h < ?n" "HasVotingPowerTable s h" if "h \<in> finalized_heights s" for h
      using that ok by (auto simp: tally_ok_def)
    show ?thesis
    proof (intro conjI ballI allI impI)
      fix h assume h: "h \<in> finalized_heights t"
      have "h \<le> last ?p"
      proof (cases "h \<in> finalized_heights s")
        case True
        then have "h < ?n" by (rule old(1))
        also have "?n \<le> last ?p" using p(2) by simp
        finally show ?thesis by simp
      next
        case False
        with h have "h \<in> set ?p" by (simp add: fin)
        then show ?thesis by (simp only: p(1) mem_Collect_eq)
      qed
      then show "h < getNextHeightToFinalize t" by (simp only: nxt False if_False lt)
      show "HasVotingPowerTable s h" using h old(2) by (auto simp only: fin)
    next
      fix h assume "a \<le> h" "h < getNextHeightToFinalize t"
      then have "h \<le> last ?p" by (simp only: nxt False if_False lt)
      show "h \<in> finalized_heights t \<or> \<not> HasVotingPowerTable s h"
      proof (cases "?n \<le> h")
        case True
        then have "h \<in> set ?p" using \<open>a \<le> h\<close> \<open>h \<le> last ?p\<close> by (simp only: p(1)) simp
        then show ?thesis by (simp add: fin)
      next
        case False
        then show ?thesis using ok act \<open>a \<le> h\<close> by (auto simp: tally_ok_def fin)
      qed
    qed
  qed
  have bytes: "\<forall>e \<in> set (fs_votes s). length (snd (fst e)) = BIP340PubKeyLen"
    "\<forall>e \<in> set (fs_power s). length (snd (fst e)) = BIP340PubKeyLen"
    using ok by (simp_all add: tally_ok_def)
  show ?thesis
    unfolding tally_ok_def power_frame [OF stores(1)] stores act
    using keys bytes cover by (intro conjI) auto
qed


section \<open>Properties\<close>

text \<open>C5: refinement.  On a well-formed state with every block indexed, \<open>TallyBlocks\<close> returns and implements its
  abstract specification: of the heights from the next one to finalise, it takes the longest prefix of
  heights without finality providers or with more than two thirds of the power voting, finalises exactly
  those with finality providers and moves the next height past the prefix; no block changes its hash.\<close>

theorem TallyBlocks_refines:
  assumes "tally_ok s" and "GetBTCStakingActivatedHeight s = Inr a"
    and "\<And>h. a \<le> h \<Longrightarrow> getNextHeightToFinalize s \<le> h \<Longrightarrow> h < to_u64 (ctx_height cx) \<Longrightarrow> HasBlock s h"
  shows "\<exists>t. TallyBlocks cx m s = Inr t \<and>
     fin_abs t = spec_finalize (HasVotingPowerTable s) (takeWhile (tallied s) (tally_range cx m a s)) (fin_abs s) \<and>
     (\<forall>h. map_option ib_app_hash (kv_get (fs_blocks t) h) =
        map_option ib_app_hash (kv_get (fs_blocks (indexed cx s)) h))"
  using TallyBlocks_run [of s a cx m, OF assms] by auto

text \<open>C6: safety.  \<open>TallyBlocks\<close> keeps the promise stated at its head: below the next height to finalise
  every height since activation is finalised or has no finality providers, no block at or above it is
  finalised, no block is ever unfinalised, and what it finalises had the votes.\<close>

theorem TallyBlocks_safe:
  assumes "tally_ok s" and "GetBTCStakingActivatedHeight s = Inr a"
    and "0 \<le> ctx_height cx" "ctx_height cx < 2 ^ 63"
    and "\<And>h. a \<le> h \<Longrightarrow> getNextHeightToFinalize s \<le> h \<Longrightarrow> h < to_u64 (ctx_height cx) \<Longrightarrow> HasBlock s h"
  shows "\<exists>t. TallyBlocks cx m s = Inr t \<and> tally_ok t \<and> finalized_heights s \<subseteq> finalized_heights t \<and>
     finalized_heights t - finalized_heights s \<subseteq> {h. HasVotingPowerTable s h \<and> tallied s h}"
proof -
  obtain t where t: "TallyBlocks cx m s = Inr t"
    "fin_abs t = spec_finalize (HasVotingPowerTable s) (takeWhile (tallied s) (tally_range cx m a s)) (fin_abs s)"
    "\<forall>h. map_option ib_height (kv_get (fs_blocks t) h) = map_option ib_height (kv_get (fs_blocks (indexed cx s)) h)"
    "fs_power t = fs_power s" "fs_votes t = fs_votes s"
    using TallyBlocks_run [of s a cx m, OF assms(1,2,5)] by auto
  have "tally_ok t" by (rule TallyBlocks_keeps_ok [OF assms(1-4) t(2-5)])
  moreover have "finalized_heights t = finalized_heights s \<union>
      {h \<in> set (takeWhile (tallied s) (tally_range cx m a s)). HasVotingPowerTable s h}"
    using t(2) by (simp add: fin_abs_def spec_finalize_def)
  ultimately show ?thesis using t(1) by (auto dest: set_takeWhileD)
qed

lemma catches_up:
  assumes "tally_ok s" and "GetBTCStakingActivatedHeight s = Inr a"
    and "\<And>h. a \<le> h \<Longrightarrow> getNextHeightToFinalize s \<le> h \<Longrightarrow> h < to_u64 (ctx_height cx) \<Longrightarrow> HasBlock s h"
    and "\<And>h. a \<le> h \<Longrightarrow> getNextHeightToFinalize s \<le> h \<Longrightarrow> h \<le> to_u64 (ctx_height cx) \<Longrightarrow> tallied s h"
    and "max a (getNextHeightToFinalize s) \<le> to_u64 (ctx_height cx)"
    and "to_u64 (ctx_height cx) \<le> max a (getNextHeightToFinalize s) + m - 1"
  shows "\<exists>t. TallyBlocks cx m s = Inr t \<and> getNextHeightToFinalize t = to_u64 (ctx_height cx) + 1 \<and>
     {h. max a (getNextHeightToFinalize s) \<le> h \<and> h \<le> to_u64 (ctx_height cx) \<and> HasVotingPowerTable s h}
       \<subseteq> finalized_heights t"
proof -
  let ?lo = "max a (getNextHeightToFinalize s)" and ?hi = "to_u64 (ctx_height cx)"
  have range: "tally_range cx m a s = range_u64 ?lo ?hi" using assms(6) by (simp add: tally_range_def min_def)
  have "tallied s h" if "h \<in> set (range_u64 ?lo ?hi)" for h
    using that by (intro assms(4)) (simp_all add: set_range_u64)
  then have tw: "takeWhile (tallied s) (tally_range cx m a s) = range_u64 ?lo ?hi"
    by (simp add: range takeWhile_eq_all_conv)
  have last: "range_u64 ?lo ?hi \<noteq> []" "last (range_u64 ?lo ?hi) = ?hi"
    using assms(5) by (simp_all add: range_u64_def word_le_nat_alt)
  obtain t where "TallyBlocks cx m s = Inr t"
    "fin_abs t = spec_finalize (HasVotingPowerTable s) (range_u64 ?lo ?hi) (fin_abs s)"
    using TallyBlocks_run [of s a cx m, OF assms(1-3)] unfolding tw by blast
  then show ?thesis using last by (auto simp: fin_abs_def spec_finalize_def set_range_u64)
qed

text \<open>C16: liveness.  When every height up to the current one has its votes and the backlog fits the bound,
  one call finalises all of it.\<close>

theorem TallyBlocks_catches_up:
  assumes "tally_ok s" and "GetBTCStakingActivatedHeight s = Inr a"
    and "\<And>h. a \<le> h \<Longrightarrow> getNextHeightToFinalize s \<le> h \<Longrightarrow> h < to_u64 (ctx_height cx) \<Longrightarrow> HasBlock s h"
    and "\<And>h. a \<le> h \<Longrightarrow> getNextHeightToFinalize s \<le> h \<Longrightarrow> h \<le> to_u64 (ctx_height cx) \<Longrightarrow> tallied s h"
    and "max a (getNextHeightToFinalize s) \<le> to_u64 (ctx_height cx)"
    and "to_u64 (ctx_height cx) \<le> max a (getNextHeightToFinalize s) + m - 1"
  shows "\<exists>t. TallyBlocks cx m s = Inr t \<and> getNextHeightToFinalize t = to_u64 (ctx_height cx) + 1 \<and>
     {h. max a (getNextHeightToFinalize s) \<le> h \<and> h \<le> to_u64 (ctx_height cx) \<and> HasVotingPowerTable s h}
       \<subseteq> finalized_heights t"
  by (rule catches_up [OF assms])

text \<open>C36: rewarding can stall.  When none of the first \<open>m\<close> blocks from the next height to reward is
  finalised, \<open>HandleRewarding\<close> changes nothing, however many later blocks are finalised: the next height
  is not moved past blocks that can never be finalised.\<close>

theorem HandleRewarding_stalls:
  assumes "GetNextHeightToReward s = start" and "start \<noteq> 0"
    and "\<And>h. start \<le> h \<Longrightarrow> h \<le> start + m - 1 \<Longrightarrow> \<exists>b. GetBlock s h = Inr b \<and> \<not> ib_finalized b"
  shows "HandleRewarding X C target m s = Inr s"
proof -
  have loop: "rewarding_loop X C hs n s = Inr (n, s)"
    if "\<And>h. h \<in> set hs \<Longrightarrow> \<exists>b. GetBlock s h = Inr b \<and> \<not> ib_finalized b" for hs n
    using that
  proof (induction hs)
    case (Cons h hs)
    then obtain b where "GetBlock s h = Inr b" "\<not> ib_finalized b" by auto
    with Cons show ?case by simp
  qed simp
  have "rewarding_loop X C (range_u64 start (min (start + m - 1) (to_u64 target))) start s = Inr (start, s)"
    by (rule loop) (auto simp: set_range_u64 intro: assms(3))
  with assms(1,2) show ?thesis by (simp add: HandleRewarding_def)
qed

text \<open>C39: a height whose finality providers all have zero power stops finality.  Whatever the votes,
  \<open>TallyBlocks\<close> leaves such a next height where it is.\<close>

theorem TallyBlocks_zero_power_halts:
  assumes "tally_ok s" and "GetBTCStakingActivatedHeight s = Inr a" and "a \<le> getNextHeightToFinalize s"
    and "\<And>h. a \<le> h \<Longrightarrow> getNextHeightToFinalize s \<le> h \<Longrightarrow> h < to_u64 (ctx_height cx) \<Longrightarrow> HasBlock s h"
    and "GetVotingPowerTable s (getNextHeightToFinalize s) = Inr (Some powers)"
    and "\<And>e. e \<in> set powers \<Longrightarrow> snd e = 0"
  shows "\<exists>t. TallyBlocks cx m s = Inr t \<and> getNextHeightToFinalize t = getNextHeightToFinalize s \<and>
     finalized_heights t = finalized_heights s"
proof -
  let ?n = "getNextHeightToFinalize s"
  have "\<not> tallied s ?n"
    using assms(5) zero_power_never_tallies [OF assms(6)] by (simp add: tallied_def split: sum.split)
  moreover have "tally_range cx m a s = [] \<or> hd (tally_range cx m a s) = ?n"
    using assms(3) hd_range_u64 by (simp add: tally_range_def max_def)
  ultimately have "takeWhile (tallied s) (tally_range cx m a s) = []"
    by (cases "tally_range cx m a s") auto
  then show ?thesis using TallyBlocks_run [of s a cx m, OF assms(1,2,4)]
    by (auto simp: fin_abs_def spec_finalize_def)
qed

section \<open>Examples\<close>

definition inc_empty :: "'c inc_state" where
  "inc_empty = \<lparr>inc_params_of = \<lparr>ip_btc_staking_portion = None, ip_fp_portion = None\<rparr>, inc_gauges = [],
     inc_btc_staking_gauge = [], inc_fp_direct_gauge = [], inc_del_to_fp = [], inc_trackers = [],
     inc_historical = [], inc_current = [], inc_events = [], inc_last_processed = None,
     inc_withdraw_addr = [], inc_transfers = [], inc_deposits = []\<rparr>"

definition cos_empty :: "'c cos_state" where
  "cos_empty = \<lparr>cs_inc = inc_empty, cs_params = None, cs_current = None, cs_historical = [], cs_trackers = [],
     cs_validator_set = None, cs_stk_cache = NewStakingCache, cs_deposits = [], cs_paid = []\<rparr>"

definition fin_empty :: "'c fin_state" where
  "fin_empty = \<lparr>fs_bs = bs_empty, fs_cos = cos_empty, fs_params = None, fs_votes = [], fs_blocks = [],
     fs_power = [], fs_dist_cache = [], fs_next_finalize = None, fs_next_reward = None,
     fs_pub_rand_commits = [], fs_pub_rand_idx = [], fs_pub_rands = [], fs_evidences = [],
     fs_signing_infos = [], fs_bitmap = [], fs_refundable = []\<rparr>"

definition example_block_ctx :: ctx where
  "example_block_ctx = example_ctx\<lparr>ctx_height := 1\<rparr>"

text \<open>Two finality providers with 70 and 30 satoshis at height 1; the first has voted.\<close>

definition example_voted :: "int fin_state" where
  "example_voted = fin_empty\<lparr>
     fs_power := [((1, replicate 32 1), 70), ((1, replicate 32 2), 30)],
     fs_votes := [((1, replicate 32 1), replicate 32 7)]\<rparr>"

definition example_powerless :: "int fin_state" where
  "example_powerless = fin_empty\<lparr>fs_power := [((1, replicate 32 1), 0)], fs_next_finalize := Some 1\<rparr>"

definition example_unrewarded :: "int fin_state" where
  "example_unrewarded = fin_empty\<lparr>fs_next_reward := Some 1,
     fs_blocks := [(1, \<lparr>ib_height = 1, ib_app_hash = [1], ib_finalized = False\<rparr>),
                   (2, \<lparr>ib_height = 2, ib_app_hash = [2], ib_finalized = True\<rparr>)]\<rparr>"

lemmas example_defs = example_voted_def example_powerless_def example_unrewarded_def fin_empty_def
  example_block_ctx_def example_ctx_def

lemma example_activated:
  "GetBTCStakingActivatedHeight example_voted = Inr 1" "getNextHeightToFinalize example_voted = 0"
  "GetBTCStakingActivatedHeight example_powerless = Inr 1" "getNextHeightToFinalize example_powerless = 1"
  "to_u64 (ctx_height example_block_ctx) = 1"
  by (simp_all add: example_defs GetBTCStakingActivatedHeight_def getNextHeightToFinalize_def kv_first_def to_u64_def)

lemma example_table: "HasVotingPowerTable example_voted h \<longleftrightarrow> h = 1"
  "HasVotingPowerTable example_powerless h \<longleftrightarrow> h = 1"
  by (auto simp: example_defs HasVotingPowerTable_def kv_prefix_def)

lemma example_tallied: "tallied example_voted 1"
  by code_simp

lemma example_ok: "tally_ok example_voted" "tally_ok example_powerless"
  by (simp_all add: tally_ok_def example_activated example_table)
    (simp_all add: example_defs finalized_heights_def BIP340PubKeyLen_def)

lemma example_range: "tally_range example_block_ctx 10000 1 example_voted = [1]"
  by (simp add: tally_range_def example_activated range_u64_def)

lemma example_abs: "fin_abs example_voted = ({}, 0)" "finalized_heights example_powerless = {}"
  by (simp_all add: fin_abs_def finalized_heights_def getNextHeightToFinalize_def example_defs)

lemma example_spec:
  "spec_finalize (HasVotingPowerTable example_voted)
     (takeWhile (tallied example_voted) (tally_range example_block_ctx 10000 1 example_voted))
     (fin_abs example_voted) = ({1}, 2)"
  by (auto simp: example_range example_tallied spec_finalize_def example_table example_abs)

lemma example_no_gap: "HasBlock s h" if "1 \<le> h" "h < to_u64 (ctx_height example_block_ctx)" for h :: u64
  using that by (simp add: example_activated)

theorem TallyBlocks_refines_witness:
  "\<exists>t. TallyBlocks example_block_ctx 10000 example_voted = Inr t \<and> fin_abs t = ({1}, 2)"
  using TallyBlocks_refines [of example_voted 1 example_block_ctx 10000, OF example_ok(1) example_activated(1) example_no_gap]
  by (auto simp: example_spec)

theorem TallyBlocks_safe_witness:
  "\<exists>t. TallyBlocks example_block_ctx 10000 example_voted = Inr t \<and> tally_ok t"
  using TallyBlocks_safe [of example_voted 1 example_block_ctx 10000, OF example_ok(1) example_activated(1) _ _ example_no_gap]
  by (auto simp: example_block_ctx_def)

lemma example_all_tallied: "tallied example_voted h" if "1 \<le> h" "h \<le> to_u64 (ctx_height example_block_ctx)"
proof -
  have "h = 1" using that by (simp add: example_activated)
  then show ?thesis by (simp add: example_tallied)
qed

theorem TallyBlocks_catches_up_witness:
  "\<exists>t. TallyBlocks example_block_ctx 10000 example_voted = Inr t \<and> getNextHeightToFinalize t = 2 \<and>
     1 \<in> finalized_heights t"
  using TallyBlocks_catches_up [of example_voted 1 example_block_ctx 10000, OF example_ok(1) example_activated(1)
      example_no_gap example_all_tallied]
  by (auto simp: example_activated example_table)

theorem HandleRewarding_stalls_witness:
  "GetBlock example_unrewarded 2 = Inr \<lparr>ib_height = 2, ib_app_hash = [2], ib_finalized = True\<rparr> \<and>
   (\<forall>X C. HandleRewarding X C 2 1 example_unrewarded = Inr example_unrewarded)"
proof -
  have "\<exists>b. GetBlock example_unrewarded h = Inr b \<and> \<not> ib_finalized b" if "1 \<le> h" "h \<le> 1 + 1 - 1" for h
  proof -
    have "h = 1" using that by simp
    then show ?thesis by (simp add: GetBlock_def example_defs)
  qed
  then have "HandleRewarding X C 2 1 example_unrewarded = Inr example_unrewarded" for X C
    by (intro HandleRewarding_stalls [of _ 1]) (simp_all add: GetNextHeightToReward_def example_defs)
  then show ?thesis by (simp add: GetBlock_def example_defs)
qed

lemma example_powerless_table:
  "GetVotingPowerTable example_powerless 1 = Inr (Some [(MarshalHex (replicate 32 1), 0)])"
  by code_simp

theorem TallyBlocks_zero_power_halts_witness:
  "\<exists>t. TallyBlocks example_block_ctx 10000 example_powerless = Inr t \<and> getNextHeightToFinalize t = 1 \<and>
     finalized_heights t = {}"
  using TallyBlocks_zero_power_halts [of example_powerless 1 example_block_ctx
      "[(MarshalHex (replicate 32 1), 0)]" 10000, OF example_ok(2) example_activated(3) _ example_no_gap]
  by (simp add: example_activated example_powerless_table example_abs)

theorem quorums_intersect_witness:
  "100 < 3 * power_of [(''a'', 70), (''b'', 30)] (\<lambda>pk. kv_has [(''a'', ())] pk \<and> kv_has [(''a'', ()), (''b'', ())] pk)"
  using quorums_intersect [of "[(''a'', 70), (''b'', 30)]" "[(''a'', ())]" "[(''a'', ()), (''b'', ())]"]
  by (simp add: tally_def tally_step_def kv_has_def)

end
