(* ===== verification/Finality_PubRand.thy ===== *)
theory Finality_PubRand
  imports Finality_Tally
begin

text \<open>
  Public randomness of finality providers (\<open>keeper/public_randomness.go\<close>) and the message that commits
  to it (\<open>CommitPubRandList\<close> of \<open>keeper/msg_server.go\<close>).

  A commitment covers a range of heights; the index of a finality provider lists the first heights of
  its commitments.  \<open>pub_rand_ok\<close> is the invariant: the index is the list of the keys of the store, and
  the ranges of one finality provider are disjoint and ascending.
\<close>

section \<open>Commitments\<close>

definition GetPubRandCommitForHeight :: "'c fin_state \<Rightarrow> BIP340PubKey \<Rightarrow> u64 \<Rightarrow> PubRandCommit res" where
  "GetPubRandCommitForHeight s fpBtcPK height =
     (case kv_get (fs_pub_rand_idx s) fpBtcPK of
        None \<Rightarrow> Inl ErrNotFound
      | Some heights \<Rightarrow>
          if heights = [] then Inl ErrPubRandNotFound
          else
            let i = sort_search (length heights) (\<lambda>i. heights ! i > height)
            in if i = 0 then Inl ErrPubRandNotFound
               else case kv_get (fs_pub_rand_commits s) (fpBtcPK, heights ! (i - 1)) of
                      None \<Rightarrow> Inl ErrPubRandNotFound
                    | Some prCommit \<Rightarrow>
                        if \<not> IsInRange prCommit height then Inl ErrPubRandNotFound else Inr prCommit)"

definition GetTimestampedPubRandCommitForHeight ::
  "ctx \<Rightarrow> 'c fin_state \<Rightarrow> BIP340PubKey \<Rightarrow> u64 \<Rightarrow> PubRandCommit res" where
  "GetTimestampedPubRandCommitForHeight cx s fpBtcPK height =
     rbind (GetPubRandCommitForHeight s fpBtcPK height) (\<lambda>prCommit.
       if ctx_last_finalized_epoch cx = 0 then Inl ErrPubRandCommitNotBTCTimestamped
       else if ctx_last_finalized_epoch cx < pc_epoch_num prCommit then Inl ErrPubRandCommitNotBTCTimestamped
       else Inr prCommit)"

definition HasTimestampedPubRand :: "ctx \<Rightarrow> 'c fin_state \<Rightarrow> BIP340PubKey \<Rightarrow> u64 \<Rightarrow> bool" where
  "HasTimestampedPubRand cx s fpBtcPK height =
     (case GetTimestampedPubRandCommitForHeight cx s fpBtcPK height of Inl _ \<Rightarrow> False | Inr _ \<Rightarrow> True)"

definition upsertPubRandCommitIdx :: "BIP340PubKey \<Rightarrow> u64 \<Rightarrow> 'c fin_state \<Rightarrow> 'c fin_state res" where
  "upsertPubRandCommitIdx fpBtcPK startHeight s =
     (let heights = (case kv_get (fs_pub_rand_idx s) fpBtcPK of None \<Rightarrow> [] | Some hs \<Rightarrow> hs)
      in if heights \<noteq> [] \<and> startHeight \<le> last heights
         then Inl (Errorf ''startHeight must be greater than the last committed height'')
         else Inr (s\<lparr>fs_pub_rand_idx := kv_set fpBtcPK (heights @ [startHeight]) (fs_pub_rand_idx s)\<rparr>))"

definition SetPubRandCommit :: "BIP340PubKey \<Rightarrow> PubRandCommit \<Rightarrow> 'c fin_state \<Rightarrow> 'c fin_state res" where
  "SetPubRandCommit fpBtcPK prCommit s =
     upsertPubRandCommitIdx fpBtcPK (pc_start_height prCommit)
       (s\<lparr>fs_pub_rand_commits :=
            kv_set (fpBtcPK, pc_start_height prCommit) prCommit (fs_pub_rand_commits s)\<rparr>)"

definition GetLastPubRandCommit :: "'c fin_state \<Rightarrow> BIP340PubKey \<Rightarrow> PubRandCommit option" where
  "GetLastPubRandCommit s fpBtcPK = map_option snd (kv_last (kv_prefix fpBtcPK (fs_pub_rand_commits s)))"

section \<open>Revealed randomness\<close>

definition SetPubRand :: "BIP340PubKey \<Rightarrow> u64 \<Rightarrow> bytes \<Rightarrow> 'c fin_state \<Rightarrow> 'c fin_state" where
  "SetPubRand fpBtcPK height pubRand s =
     s\<lparr>fs_pub_rands := kv_set (fpBtcPK, height) pubRand (fs_pub_rands s)\<rparr>"

definition HasPubRand :: "'c fin_state \<Rightarrow> BIP340PubKey \<Rightarrow> u64 \<Rightarrow> bool" where
  "HasPubRand s fpBtcPK height \<longleftrightarrow> kv_has (fs_pub_rands s) (fpBtcPK, height)"

definition GetPubRand :: "'c fin_state \<Rightarrow> BIP340PubKey \<Rightarrow> u64 \<Rightarrow> bytes res" where
  "GetPubRand s fpBtcPK height =
     (case kv_get (fs_pub_rands s) (fpBtcPK, height) of
        None \<Rightarrow> Inl ErrPubRandNotFound
      | Some prBytes \<Rightarrow> if prBytes = [] then Inl ErrPubRandNotFound else NewSchnorrPubRand prBytes)"

definition GetLastPubRand :: "'c fin_state \<Rightarrow> BIP340PubKey \<Rightarrow> (u64 \<times> bytes) res" where
  "GetLastPubRand s fpBtcPK =
     (case kv_last (kv_prefix fpBtcPK (fs_pub_rands s)) of
        None \<Rightarrow> Inl ErrNoPubRandYet
      | Some (height, prBytes) \<Rightarrow>
          (case NewSchnorrPubRand prBytes of
             Inl _ \<Rightarrow> Inl (Panic ''failed to unmarshal public randomness in KVStore'')
           | Inr pubRand \<Rightarrow> Inr (height, pubRand)))"

section \<open>The message\<close>

definition validateActivationHeight :: "'c fin_state \<Rightarrow> u64 \<Rightarrow> unit res" where
  "validateActivationHeight s height =
     (if height < pm_activation_height (fin_GetParams s) then Inl ErrFinalityNotActivated else Inr ())"

definition CommitPubRandList ::
  "ext \<Rightarrow> 'p fin_ext \<Rightarrow> ctx \<Rightarrow> MsgCommitPubRandList \<Rightarrow> 'c fin_state \<Rightarrow> 'c fin_state res" where
  "CommitPubRandList X F cx req s =
     rbind (MsgCommitPubRandList_ValidateBasic X req) (\<lambda>_.
     if cpr_start_height req \<ge> to_u64 (ctx_height cx) + MaxPubRandCommitOffset then Inl ErrInvalidPubRand
     else rbind (validateActivationHeight s (cpr_start_height req)) (\<lambda>_.
     if cpr_num_pub_rand req < pm_min_pub_rand (fin_GetParams s) then Inl ErrTooFewPubRand
     else if cpr_fp_btc_pk req = [] then Inl ErrInvalidPubRand
     else if \<not> HasFinalityProvider (fs_bs s) (cpr_fp_btc_pk req) then Inl ErrFpNotFound
     else if IsFinalityProviderDeleted (fs_bs s) (cpr_fp_btc_pk req) then Inl ErrFinalityProviderIsDeleted
     else
       case VerifySig F req of
         Inl (Panic m) \<Rightarrow> Inl (Panic m)
       | Inl _ \<Rightarrow> Inl ErrInvalidPubRand
       | Inr _ \<Rightarrow>
           let prCommit = \<lparr>pc_start_height = cpr_start_height req, pc_num_pub_rand = cpr_num_pub_rand req,
                           pc_commitment = cpr_commitment req, pc_epoch_num = ctx_epoch cx\<rparr>
           in (case GetLastPubRandCommit s (cpr_fp_btc_pk req) of
                 None \<Rightarrow> SetPubRandCommit (cpr_fp_btc_pk req) prCommit s
               | Some lastPrCommit \<Rightarrow>
                   if cpr_start_height req \<le> EndHeight lastPrCommit then Inl ErrInvalidPubRand
                   else SetPubRandCommit (cpr_fp_btc_pk req) prCommit s)))"

section \<open>Disjoint ranges\<close>

definition commit_ok :: "u64 \<times> PubRandCommit \<Rightarrow> bool" where
  "commit_ok e \<longleftrightarrow> pc_start_height (snd e) = fst e \<and> 0 < pc_num_pub_rand (snd e) \<and>
     unat (fst e) + unat (pc_num_pub_rand (snd e)) < 2 ^ 64"

definition pub_rand_ok :: "'c fin_state \<Rightarrow> bool" where
  "pub_rand_ok s \<longleftrightarrow> kv_ok (fs_pub_rand_commits s) \<and>
     (\<forall>pk. let es = kv_prefix pk (fs_pub_rand_commits s) in
        list_all commit_ok es \<and> sorted_wrt (\<lambda>a b. EndHeight (snd a) < fst b) es \<and>
        (case kv_get (fs_pub_rand_idx s) pk of None \<Rightarrow> es = [] | Some hs \<Rightarrow> hs = map fst es))"

lemma commit_range:
  assumes "commit_ok e"
  shows "IsInRange (snd e) h \<longleftrightarrow> fst e \<le> h \<and> h \<le> EndHeight (snd e)"
    and "unat (EndHeight (snd e)) = unat (fst e) + unat (pc_num_pub_rand (snd e)) - 1"
    and "fst e \<le> EndHeight (snd e)"
proof -
  have start: "pc_start_height (snd e) = fst e" and pos: "0 < unat (pc_num_pub_rand (snd e))"
    and sum: "unat (fst e) + unat (pc_num_pub_rand (snd e)) < 2 ^ 64"
    using assms by (auto simp: commit_ok_def unat_gt_0)
  show "IsInRange (snd e) h \<longleftrightarrow> fst e \<le> h \<and> h \<le> EndHeight (snd e)"
    by (simp add: IsInRange_def Range_def start)
  have u: "unat (fst e + pc_num_pub_rand (snd e)) = unat (fst e) + unat (pc_num_pub_rand (snd e))"
    using sum by (simp add: unat_word_ariths(1))
  then have "fst e + pc_num_pub_rand (snd e) \<noteq> 0" using pos by auto
  then show "unat (EndHeight (snd e)) = unat (fst e) + unat (pc_num_pub_rand (snd e)) - 1"
    using unat_minus_one [of "fst e + pc_num_pub_rand (snd e)"] u by (simp add: EndHeight_def start)
  then show "fst e \<le> EndHeight (snd e)" using pos by (simp add: word_le_nat_alt)
qed

lemma pub_rand_okD:
  assumes "pub_rand_ok s"
  shows "kv_ok (fs_pub_rand_commits s)" "kv_ok (kv_prefix pk (fs_pub_rand_commits s))"
    "\<And>e. e \<in> set (kv_prefix pk (fs_pub_rand_commits s)) \<Longrightarrow> commit_ok e"
    "sorted_wrt (\<lambda>a b. EndHeight (snd a) < fst b) (kv_prefix pk (fs_pub_rand_commits s))"
    "kv_get (fs_pub_rand_idx s) pk = None \<Longrightarrow> kv_prefix pk (fs_pub_rand_commits s) = []"
    "kv_get (fs_pub_rand_idx s) pk = Some hs \<Longrightarrow> hs = map fst (kv_prefix pk (fs_pub_rand_commits s))"
proof -
  show ok: "kv_ok (fs_pub_rand_commits s)" using assms by (simp add: pub_rand_ok_def)
  then show "kv_ok (kv_prefix pk (fs_pub_rand_commits s))" by (rule kv_prefix_ok)
  have *: "list_all commit_ok (kv_prefix pk (fs_pub_rand_commits s)) \<and>
      sorted_wrt (\<lambda>a b. EndHeight (snd a) < fst b) (kv_prefix pk (fs_pub_rand_commits s)) \<and>
      (case kv_get (fs_pub_rand_idx s) pk of None \<Rightarrow> kv_prefix pk (fs_pub_rand_commits s) = []
       | Some hs \<Rightarrow> hs = map fst (kv_prefix pk (fs_pub_rand_commits s)))"
    using assms by (simp add: pub_rand_ok_def Let_def)
  then show "commit_ok e" if "e \<in> set (kv_prefix pk (fs_pub_rand_commits s))" for e
    using that by (simp add: list_all_iff)
  show "sorted_wrt (\<lambda>a b. EndHeight (snd a) < fst b) (kv_prefix pk (fs_pub_rand_commits s))" using * by simp
  show "kv_get (fs_pub_rand_idx s) pk = None \<Longrightarrow> kv_prefix pk (fs_pub_rand_commits s) = []" using * by simp
  show "kv_get (fs_pub_rand_idx s) pk = Some hs \<Longrightarrow> hs = map fst (kv_prefix pk (fs_pub_rand_commits s))"
    using * by simp
qed

lemma search_above:
  fixes hs :: "u64 list"
  assumes "sorted_wrt (<) hs" and "j < length hs" and "hs ! j \<le> h"
  shows "j < sort_search (length hs) (\<lambda>i. hs ! i > h)"
    and "hs ! (sort_search (length hs) (\<lambda>i. hs ! i > h) - 1) \<le> h"
    and "sort_search (length hs) (\<lambda>i. hs ! i > h) \<le> length hs"
proof -
  let ?f = "\<lambda>i. hs ! i > h"
  have mono: "mono_upto (length hs) ?f"
    unfolding mono_upto_def
  proof (intro allI impI)
    fix a b assume "a \<le> b" "b < length hs" "?f a"
    then show "?f b"
      using sorted_wrt_nth_less [OF assms(1), of a b] by (cases "a = b") auto
  qed
  note c = sort_search_correct [OF mono]
  show "sort_search (length hs) ?f \<le> length hs" by (rule c(1))
  show j: "j < sort_search (length hs) ?f"
  proof (rule ccontr)
    assume "\<not> j < sort_search (length hs) ?f"
    then have le: "sort_search (length hs) ?f \<le> j" by simp
    with assms(2) have "?f (sort_search (length hs) ?f)" by (intro c(3)) simp
    with mono le assms(2) have "?f j" unfolding mono_upto_def by blast
    with assms(3) show False by simp
  qed
  then have "sort_search (length hs) ?f - 1 < sort_search (length hs) ?f" by simp
  with c(2) show "hs ! (sort_search (length hs) ?f - 1) \<le> h" by (simp add: not_less)
qed

lemma pub_rand_lookup:
  assumes "pub_rand_ok s"
  shows "GetPubRandCommitForHeight s pk h = Inr c \<longleftrightarrow>
     (\<exists>start. kv_get (fs_pub_rand_commits s) (pk, start) = Some c \<and> IsInRange c h)"
proof
  assume "GetPubRandCommitForHeight s pk h = Inr c"
  then show "\<exists>start. kv_get (fs_pub_rand_commits s) (pk, start) = Some c \<and> IsInRange c h"
    by (auto simp: GetPubRandCommitForHeight_def Let_def split: option.splits if_splits)
next
  assume "\<exists>start. kv_get (fs_pub_rand_commits s) (pk, start) = Some c \<and> IsInRange c h"
  then obtain start where start: "kv_get (fs_pub_rand_commits s) (pk, start) = Some c" "IsInRange c h" by auto
  let ?es = "kv_prefix pk (fs_pub_rand_commits s)"
  note ok = pub_rand_okD(1) [OF assms] pub_rand_okD(2-6) [OF assms, where pk = pk]
  have mem: "(start, c) \<in> set ?es" using start(1) ok(1,2) by (simp add: kv_get_iff kv_prefix_mem)
  then obtain j where j: "j < length ?es" "?es ! j = (start, c)" by (auto simp: in_set_conv_nth)
  have range: "start \<le> h" "h \<le> EndHeight c"
    using commit_range(1) [OF ok(3) [OF mem], of h] start(2) by auto
  obtain hs where hs: "kv_get (fs_pub_rand_idx s) pk = Some hs" "hs = map fst ?es"
    using ok(5,6) mem by (cases "kv_get (fs_pub_rand_idx s) pk") auto
  have sorted: "sorted_wrt (<) hs" using ok(2) by (simp add: hs(2) kv_ok_def)
  let ?i = "sort_search (length hs) (\<lambda>i. hs ! i > h)"
  have i: "j < ?i" "hs ! (?i - 1) \<le> h" "?i \<le> length hs"
    using search_above [OF sorted, of j h] j range by (simp_all add: hs(2))
  have "?i - 1 = j"
  proof (rule ccontr)
    assume "?i - 1 \<noteq> j"
    with i(1,3) have "j < ?i - 1" "?i - 1 < length ?es" by (simp_all add: hs(2))
    then have "EndHeight (snd (?es ! j)) < fst (?es ! (?i - 1))"
      using ok(4) by (simp add: sorted_wrt_iff_nth_less)
    also have "fst (?es ! (?i - 1)) = hs ! (?i - 1)" using \<open>?i - 1 < length ?es\<close> by (simp add: hs(2))
    finally show False using i(2) range(2) j(2) by simp
  qed
  then have "hs ! (?i - 1) = start" using j by (simp add: hs(2))
  moreover have "hs \<noteq> []" using j by (auto simp: hs(2))
  ultimately show "GetPubRandCommitForHeight s pk h = Inr c"
    using hs(1) i(1) start by (simp add: GetPubRandCommitForHeight_def Let_def)
qed

text \<open>C13: lookup of a commitment.  The binary search over the index returns a commitment exactly when it is
  stored for the finality provider and its range contains the height.\<close>

theorem GetPubRandCommitForHeight_exact:
  assumes "pub_rand_ok s"
  shows "GetPubRandCommitForHeight s pk h = Inr c \<longleftrightarrow>
     (\<exists>start. kv_get (fs_pub_rand_commits s) (pk, start) = Some c \<and> IsInRange c h)"
  using assms by (rule pub_rand_lookup)

lemma SetPubRandCommit_ok:
  assumes ok: "pub_rand_ok s" and c: "commit_ok (pc_start_height c, c)"
    and last: "\<And>l. GetLastPubRandCommit s pk = Some l \<Longrightarrow> EndHeight l < pc_start_height c"
  shows "\<exists>t. SetPubRandCommit pk c s = Inr t \<and> pub_rand_ok t"
proof -
  let ?es = "kv_prefix pk (fs_pub_rand_commits s)" and ?k = "pc_start_height c"
  note D = pub_rand_okD [OF ok]
  have above: "EndHeight (snd e) < ?k" if "e \<in> set ?es" for e
  proof (cases ?es rule: rev_cases)
    case Nil
    with that show ?thesis by simp
  next
    case (snoc ys y)
    have y: "EndHeight (snd y) < ?k" using last [of "snd y"] by (simp add: GetLastPubRandCommit_def snoc)
    from that snoc consider "e = y" | "e \<in> set ys" by auto
    then show ?thesis
    proof cases
      case 2
      then have "EndHeight (snd e) < fst y" using D(4) [of pk] by (simp add: snoc sorted_wrt_append)
      also have "fst y \<le> EndHeight (snd y)" using D(3) [of y pk] by (intro commit_range(3)) (simp add: snoc)
      finally show ?thesis using y by simp
    qed (use y in simp)
  qed
  have key: "fst e < ?k" if "e \<in> set ?es" for e
    using commit_range(3) [OF D(3) [OF that]] above [OF that] by simp
  have es': "kv_prefix pk (kv_set (pk, ?k) c (fs_pub_rand_commits s)) = ?es @ [(?k, c)]"
    using kv_prefix_set_same [OF D(1), of pk ?k c] kv_set_above [of ?es ?k c] key by simp
  define hs where "hs = (case kv_get (fs_pub_rand_idx s) pk of None \<Rightarrow> [] | Some hs \<Rightarrow> hs)"
  have hs: "hs = map fst ?es" using D(5,6) [of pk] by (auto simp: hs_def split: option.splits)
  have "\<not> (hs \<noteq> [] \<and> ?k \<le> last hs)"
  proof
    assume a: "hs \<noteq> [] \<and> ?k \<le> last hs"
    then have "last hs \<in> fst ` set ?es" using last_in_set [of hs] by (simp add: hs)
    then obtain e where "e \<in> set ?es" "fst e = last hs" by auto
    with key [of e] have "last hs < ?k" by simp
    with a show False by (simp add: not_le [symmetric] del: not_le)
  qed
  then obtain t where t: "SetPubRandCommit pk c s = Inr t"
    "fs_pub_rand_commits t = kv_set (pk, ?k) c (fs_pub_rand_commits s)"
    "fs_pub_rand_idx t = kv_set pk (hs @ [?k]) (fs_pub_rand_idx s)"
    by (simp add: SetPubRandCommit_def upsertPubRandCommitIdx_def Let_def hs_def)
  have "pub_rand_ok t"
    unfolding pub_rand_ok_def t(2,3) Let_def
  proof (intro conjI allI)
    show "kv_ok (kv_set (pk, ?k) c (fs_pub_rand_commits s))" using D(1) by simp
    fix q
    let ?es' = "kv_prefix q (kv_set (pk, ?k) c (fs_pub_rand_commits s))"
    have other: "q \<noteq> pk \<Longrightarrow> ?es' = kv_prefix q (fs_pub_rand_commits s)" by (simp add: kv_prefix_set_other)
    show "list_all commit_ok ?es'"
      using D(3) [of _ q] D(3) [of _ pk] c by (cases "q = pk") (auto simp: es' other list_all_iff)
    show "sorted_wrt (\<lambda>a b. EndHeight (snd a) < fst b) ?es'"
      using D(4) [of q] above by (cases "q = pk") (simp_all add: es' other sorted_wrt_append)
    show "case kv_get (kv_set pk (hs @ [?k]) (fs_pub_rand_idx s)) q of None \<Rightarrow> ?es' = [] | Some hs \<Rightarrow> hs = map fst ?es'"
      using D(5,6) [of q] by (cases "q = pk") (auto simp: es' other hs split: option.splits)
  qed
  with t(1) show ?thesis by blast
qed


text \<open>C12: committed randomness never overlaps.  A commitment the handler accepts keeps the ranges of every
  finality provider disjoint and the index exact, so no height is ever covered by two commitments of one
  finality provider; the write itself cannot fail.\<close>

theorem CommitPubRandList_disjoint:
  assumes "pub_rand_ok s" and "CommitPubRandList X F cx req s = Inr t"
  shows "pub_rand_ok t \<and>
     (\<forall>pk h c c' st st'. kv_get (fs_pub_rand_commits t) (pk, st) = Some c \<longrightarrow> IsInRange c h \<longrightarrow>
        kv_get (fs_pub_rand_commits t) (pk, st') = Some c' \<longrightarrow> IsInRange c' h \<longrightarrow> c = c')"
proof -
  let ?c = "\<lparr>pc_start_height = cpr_start_height req, pc_num_pub_rand = cpr_num_pub_rand req,
             pc_commitment = cpr_commitment req, pc_epoch_num = ctx_epoch cx\<rparr>"
  have basic: "cpr_start_height req < cpr_start_height req + cpr_num_pub_rand req"
    and set: "SetPubRandCommit (cpr_fp_btc_pk req) ?c s = Inr t"
    and last: "\<And>l. GetLastPubRandCommit s (cpr_fp_btc_pk req) = Some l \<Longrightarrow> EndHeight l < cpr_start_height req"
    using assms(2)
    by (auto simp: CommitPubRandList_def MsgCommitPubRandList_ValidateBasic_def rbind_eq_Inr not_le Let_def
        split: sum.splits if_splits error.splits option.splits)
  have "commit_ok (pc_start_height ?c, ?c)"
  proof -
    have "cpr_num_pub_rand req \<noteq> 0" using basic by auto
    then have "0 < cpr_num_pub_rand req" by (simp add: word_gt_0)
    then show ?thesis using no_wrap_u64 [OF basic] by (simp add: commit_ok_def)
  qed
  then have ok: "pub_rand_ok t" using SetPubRandCommit_ok [OF assms(1), of ?c "cpr_fp_btc_pk req"] set last by auto
  have "c = c'" if "kv_get (fs_pub_rand_commits t) (pk, st) = Some c" "IsInRange c h"
    "kv_get (fs_pub_rand_commits t) (pk, st') = Some c'" "IsInRange c' h" for pk h c c' st st'
  proof -
    have "GetPubRandCommitForHeight t pk h = Inr c" "GetPubRandCommitForHeight t pk h = Inr c'"
      using pub_rand_lookup [OF ok] that by blast+
    then show ?thesis by simp
  qed
  with ok show ?thesis by blast
qed


section \<open>Examples\<close>

definition example_fp_pk :: "BIP340PubKey" where
  "example_fp_pk = replicate 32 1"

definition example_commits :: "int fin_state" where
  "example_commits = fin_empty\<lparr>
     fs_pub_rand_idx := [(example_fp_pk, [10])],
     fs_pub_rand_commits := [((example_fp_pk, 10), \<lparr>pc_start_height = 10, pc_num_pub_rand = 5,
       pc_commitment = replicate 32 0, pc_epoch_num = 1\<rparr>)]\<rparr>"

lemma example_commits_ok: "pub_rand_ok example_commits"
proof -
  have "kv_prefix pk (fs_pub_rand_commits example_commits) =
      (if pk = example_fp_pk then [(10, \<lparr>pc_start_height = 10, pc_num_pub_rand = 5,
        pc_commitment = replicate 32 0, pc_epoch_num = 1\<rparr>)] else [])" for pk
    by (simp add: example_commits_def fin_empty_def kv_prefix_def)
  moreover have "kv_get (fs_pub_rand_idx example_commits) pk = (if pk = example_fp_pk then Some [10] else None)" for pk
    by (simp add: example_commits_def fin_empty_def)
  moreover have "kv_ok (fs_pub_rand_commits example_commits)"
    by (simp add: example_commits_def fin_empty_def kv_ok_def)
  ultimately show ?thesis by (simp add: pub_rand_ok_def commit_ok_def)
qed

theorem GetPubRandCommitForHeight_exact_witness:
  "\<exists>c. GetPubRandCommitForHeight example_commits example_fp_pk 14 = Inr c \<and> pc_start_height c = 10"
proof -
  let ?c = "\<lparr>pc_start_height = 10, pc_num_pub_rand = 5, pc_commitment = replicate 32 0, pc_epoch_num = 1\<rparr> :: PubRandCommit"
  have "kv_get (fs_pub_rand_commits example_commits) (example_fp_pk, 10) = Some ?c" "IsInRange ?c 14"
    by (simp_all add: example_commits_def fin_empty_def IsInRange_def Range_def EndHeight_def)
  then have "GetPubRandCommitForHeight example_commits example_fp_pk 14 = Inr ?c"
    using GetPubRandCommitForHeight_exact [OF example_commits_ok] by blast
  then show ?thesis by (intro exI [of _ ?c]) simp
qed

definition example_commit_req :: MsgCommitPubRandList where
  "example_commit_req = \<lparr>cpr_signer = ''a'', cpr_fp_btc_pk = example_fp_pk, cpr_start_height = 15,
     cpr_num_pub_rand = 3, cpr_commitment = replicate 32 9, cpr_sig = Some []\<rparr>"

definition example_commit_state :: "int fin_state" where
  "example_commit_state = example_commits\<lparr>fs_bs := bs_empty\<lparr>bs_fps := [(example_fp_pk,
     \<lparr>fp_addr = ''a'', fp_description = None, fp_commission = None, fp_btc_pk = example_fp_pk, fp_pop = None,
      fp_slashed_anon_height = 0, fp_slashed_btc_height = 0, fp_jailed = False, fp_highest_voted_height = 0,
      fp_commission_info = None\<rparr>)]\<rparr>\<rparr>"

text \<open>A signature scheme that accepts every signature, over the curve of order seven.\<close>

definition example_fin_ext :: "int fin_ext" where
  "example_fin_ext = \<lparr>fx_curve = small_curve\<lparr>pt_Parse := \<lambda>_. Inr 1\<rparr>, fx_ProofFromProto = \<lambda>_. Inr (),
     fx_ProofVerify = \<lambda>_ _ _. Inr (), fx_FieldSetByteSlice = \<lambda>b. (b, False), fx_FieldNormalize = \<lambda>b. b,
     fx_tmhash = \<lambda>b. b, fx_ParseSignature = Inr, fx_SchnorrVerify = \<lambda>_ _ _. True,
     fx_MulInt64Round = \<lambda>d n. d * n div 10 ^ 18\<rparr>"

theorem CommitPubRandList_disjoint_witness:
  "\<exists>t. CommitPubRandList ext_accepting example_fin_ext example_ctx example_commit_req example_commit_state = Inr t \<and>
     pub_rand_ok t"
proof -
  have ok: "pub_rand_ok example_commit_state"
    using example_commits_ok by (simp add: pub_rand_ok_def example_commit_state_def)
  obtain t where t: "CommitPubRandList ext_accepting example_fin_ext example_ctx example_commit_req example_commit_state = Inr t"
    by (simp add: CommitPubRandList_def MsgCommitPubRandList_ValidateBasic_def ext_accepting_def example_fin_ext_def
        example_ctx_def example_commit_req_def example_commit_state_def example_commits_def fin_empty_def bs_empty_def
        example_fp_pk_def ExpectedCommitmentLengthBytes_def MaxPubRandCommitOffset_def to_u64_def
        validateActivationHeight_def fin_GetParams_def zero_params_def HasFinalityProvider_def kv_has_def
        IsFinalityProviderDeleted_def VerifySig_def ToBTCSig_def GetLastPubRandCommit_def kv_prefix_def kv_last_Some
        kv_last_def kv_first_def EndHeight_def SetPubRandCommit_def upsertPubRandCommitIdx_def)
  with CommitPubRandList_disjoint [OF ok t] show ?thesis by blast
qed

end
