(* ===== verification/Epoching.thy ===== *)
theory Epoching
  imports BtcStaking_Types Stores
begin

text \<open>
  Epochs (\<open>x/epoching\<close>): the arithmetic of an epoch (\<open>types/epoching.go\<close>), the store of epochs and the
  epoch of a height (\<open>keeper/epochs.go\<close>), and the part of \<open>BeginBlocker\<close> (\<open>abci.go\<close>) that moves to the next
  epoch and seals the last one.

  The hash of the block is an argument; a time is an optional value.  \<open>epochs_ok\<close> is the invariant of a
  chain whose interval does not change, shown for every run of blocks from genesis (\<open>epoch_run\<close>).
\<close>

record Epoch =
  ep_number :: u64
  ep_current_interval :: u64
  ep_first_block_height :: u64
  ep_last_block_time :: "int option"
  ep_sealer_app_hash :: bytes
  ep_sealer_block_hash :: bytes

definition NewEpoch :: "u64 \<Rightarrow> u64 \<Rightarrow> u64 \<Rightarrow> int option \<Rightarrow> Epoch" where
  "NewEpoch epochNumber epochInterval firstBlockHeight lastBlockTime =
     \<lparr>ep_number = epochNumber, ep_current_interval = epochInterval,
      ep_first_block_height = firstBlockHeight, ep_last_block_time = lastBlockTime,
      ep_sealer_app_hash = [], ep_sealer_block_hash = []\<rparr>"

definition GetLastBlockHeight :: "Epoch \<Rightarrow> u64" where
  "GetLastBlockHeight e =
     (if ep_number e = 0 then 0 else ep_first_block_height e + ep_current_interval e - 1)"

definition GetSealerBlockHeight :: "Epoch \<Rightarrow> u64" where
  "GetSealerBlockHeight e = GetLastBlockHeight e + 1"

definition GetSecondBlockHeight :: "Epoch \<Rightarrow> u64 res" where
  "GetSecondBlockHeight e =
     (if ep_number e = 0 then Inl (Panic ''should not be called when epoch number is zero'')
      else Inr (ep_first_block_height e + 1))"

definition IsLastBlock :: "ctx \<Rightarrow> Epoch \<Rightarrow> bool" where
  "IsLastBlock cx e \<longleftrightarrow> GetLastBlockHeight e = to_u64 (ctx_height cx)"

definition IsLastBlockByHeight :: "i64 \<Rightarrow> Epoch \<Rightarrow> bool" where
  "IsLastBlockByHeight height e \<longleftrightarrow> GetLastBlockHeight e = to_u64 height"

definition IsFirstBlock :: "ctx \<Rightarrow> Epoch \<Rightarrow> bool" where
  "IsFirstBlock cx e \<longleftrightarrow> ep_first_block_height e = to_u64 (ctx_height cx)"

definition IsSecondBlock :: "ctx \<Rightarrow> Epoch \<Rightarrow> bool" where
  "IsSecondBlock cx e \<longleftrightarrow>
     (if ep_number e = 0 then False
      else case GetSecondBlockHeight e of Inl _ \<Rightarrow> False | Inr h \<Rightarrow> h = to_u64 (ctx_height cx))"

definition IsFirstBlockOfNextEpoch :: "ctx \<Rightarrow> Epoch \<Rightarrow> bool" where
  "IsFirstBlockOfNextEpoch cx e \<longleftrightarrow>
     (if ep_number e = 0 then ctx_height cx = 1
      else ep_first_block_height e + ep_current_interval e = to_u64 (ctx_height cx))"

definition IsVoteExtensionProposal :: "ctx \<Rightarrow> Epoch \<Rightarrow> bool" where
  "IsVoteExtensionProposal cx e \<longleftrightarrow> (if ep_number e = 0 then False else IsFirstBlockOfNextEpoch cx e)"

definition WithinBoundary :: "u64 \<Rightarrow> Epoch \<Rightarrow> bool" where
  "WithinBoundary height e \<longleftrightarrow>
     (if height < ep_first_block_height e \<or> height > GetLastBlockHeight e then False else True)"

definition Epoch_ValidateBasic :: "Epoch \<Rightarrow> unit res" where
  "Epoch_ValidateBasic e = (if ep_current_interval e < 2 then Inl ErrInvalidEpoch else Inr ())"

definition validateEpochInterval :: "u64 \<Rightarrow> unit res" where
  "validateEpochInterval v = (if v < 2 then Inl (Errorf ''epoch interval must be at least 2'') else Inr ())"

section \<open>The keeper\<close>

record ep_state =
  es_epochs :: "(u64, Epoch) store"
  es_interval :: u64

definition setEpochInfo :: "u64 \<Rightarrow> Epoch \<Rightarrow> ep_state \<Rightarrow> ep_state" where
  "setEpochInfo epochNumber e s = s\<lparr>es_epochs := kv_set epochNumber e (es_epochs s)\<rparr>"

definition getEpochInfo :: "ep_state \<Rightarrow> u64 \<Rightarrow> Epoch res" where
  "getEpochInfo s epochNumber =
     (case kv_get (es_epochs s) epochNumber of None \<Rightarrow> Inl ErrUnknownEpochNumber | Some e \<Rightarrow> Inr e)"

definition InitEpoch :: "ctx \<Rightarrow> Epoch list \<Rightarrow> ep_state \<Rightarrow> ep_state res" where
  "InitEpoch cx genEpochs s =
     (if genEpochs \<noteq> [] then Inr (fold (\<lambda>e. setEpochInfo (ep_number e) e) genEpochs s)
      else if ctx_height cx > 0 then Inl (Errorf ''InitEpoch can be invoked only at genesis'')
      else Inr (setEpochInfo 0 (NewEpoch 0 1 0 (Some (ctx_time cx))) s))"

definition GetEpoch :: "ep_state \<Rightarrow> Epoch res" where
  "GetEpoch s =
     (case kv_last (es_epochs s) of
        None \<Rightarrow> Inl (Panic ''iterator is invalid'')
      | Some (_, e) \<Rightarrow> Inr e)"

definition CalculateEpochNumber :: "u64 \<Rightarrow> u64 \<Rightarrow> u64 res" where
  "CalculateEpochNumber height epochInterval =
     (if height = 0 then Inr 0
      else if epochInterval = 0 then Inl (Panic ''integer divide by zero'')
      else Inr ((height - 1) div epochInterval + 1))"

definition GetEpochNumByHeight :: "ep_state \<Rightarrow> u64 \<Rightarrow> u64 res" where
  "GetEpochNumByHeight s height = CalculateEpochNumber height (es_interval s)"

definition GetHistoricalEpoch :: "ep_state \<Rightarrow> u64 \<Rightarrow> Epoch res" where
  "GetHistoricalEpoch s epochNumber = getEpochInfo s epochNumber"

definition RecordLastHeaderTime :: "ctx \<Rightarrow> ep_state \<Rightarrow> ep_state res" where
  "RecordLastHeaderTime cx s =
     rbind (GetEpoch s) (\<lambda>e.
       if \<not> IsLastBlock cx e then Inl ErrInvalidHeight
       else Inr (setEpochInfo (ep_number e) (e\<lparr>ep_last_block_time := Some (ctx_time cx)\<rparr>) s))"

definition RecordSealerAppHashForPrevEpoch :: "ctx \<Rightarrow> ep_state \<Rightarrow> ep_state res" where
  "RecordSealerAppHashForPrevEpoch cx s =
     rbind (GetEpoch s) (\<lambda>e.
       if \<not> IsFirstBlock cx e
       then Inl (Panic ''RecordSealerAppHashForPrevEpoch can only be invoked at the first header of a non-zero epoch'')
       else case GetHistoricalEpoch s (ep_number e - 1) of
              Inl _ \<Rightarrow> Inl (Panic ''unknown epoch number'')
            | Inr sealed \<Rightarrow>
                Inr (setEpochInfo (ep_number sealed) (sealed\<lparr>ep_sealer_app_hash := ctx_app_hash cx\<rparr>) s))"

definition RecordSealerBlockHashForEpoch :: "ctx \<Rightarrow> bytes \<Rightarrow> ep_state \<Rightarrow> ep_state res" where
  "RecordSealerBlockHashForEpoch cx hash s =
     rbind (GetEpoch s) (\<lambda>e.
       if \<not> IsLastBlock cx e
       then Inl (Panic ''RecordSealerBlockHashForEpoch can only be invoked at the last header of a non-zero epoch'')
       else Inr (setEpochInfo (ep_number e) (e\<lparr>ep_sealer_block_hash := hash\<rparr>) s))"

definition IncEpoch :: "ctx \<Rightarrow> ep_state \<Rightarrow> ep_state res" where
  "IncEpoch cx s =
     rbind (GetEpoch s) (\<lambda>e.
       let incrementedEpochNumber = ep_number e + 1
       in Inr (setEpochInfo incrementedEpochNumber
                 (NewEpoch incrementedEpochNumber (es_interval s) (to_u64 (ctx_height cx)) None) s))"

text \<open>The writes of \<open>BeginBlocker\<close> to the epochs: both tests read the epoch fetched at its start.\<close>

definition begin_block_epochs :: "ctx \<Rightarrow> bytes \<Rightarrow> ep_state \<Rightarrow> ep_state res" where
  "begin_block_epochs cx hash s =
     rbind (GetEpoch s) (\<lambda>e.
     rbind (if IsFirstBlockOfNextEpoch cx e
            then rbind (IncEpoch cx s) (RecordSealerAppHashForPrevEpoch cx)
            else Inr s) (\<lambda>t.
       if IsLastBlock cx e then RecordSealerBlockHashForEpoch cx hash t else Inr t))"

section \<open>The epoch of a block\<close>

lemma NewEpoch_simps [simp]:
  "ep_number (NewEpoch n i f t) = n" "ep_current_interval (NewEpoch n i f t) = i"
  "ep_first_block_height (NewEpoch n i f t) = f"
  by (simp_all add: NewEpoch_def)

text \<open>The epochs are stored without gaps under their own numbers, the current one last.\<close>

definition epochs_core :: "ep_state \<Rightarrow> Epoch \<Rightarrow> bool" where
  "epochs_core s e \<longleftrightarrow> kv_ok (es_epochs s) \<and>
     (\<forall>k x. kv_get (es_epochs s) k = Some x \<longrightarrow> ep_number x = k) \<and>
     (\<forall>k. kv_get (es_epochs s) k \<noteq> None \<longleftrightarrow> k \<le> ep_number e) \<and>
     kv_get (es_epochs s) (ep_number e) = Some e"

lemma core_GetEpoch: "epochs_core s e \<Longrightarrow> GetEpoch s = Inr e"
proof -
  assume core: "epochs_core s e"
  then have "kv_last (es_epochs s) = Some (ep_number e, e)"
    by (subst kv_last_iff) (auto simp: epochs_core_def)
  then show ?thesis by (simp add: GetEpoch_def)
qed

lemma core_set:
  assumes core: "epochs_core s e"
    and dom: "\<And>k. k = ep_number x \<or> k \<le> ep_number e \<longleftrightarrow> k \<le> ep_number e'"
    and cur: "if ep_number e' = ep_number x then e' = x else e' = e"
  shows "epochs_core (setEpochInfo (ep_number x) x s) e'"
proof -
  let ?t = "setEpochInfo (ep_number x) x s"
  have get: "kv_get (es_epochs ?t) k = (if k = ep_number x then Some x else kv_get (es_epochs s) k)" for k
    by (simp add: setEpochInfo_def)
  have num: "\<And>k y. kv_get (es_epochs s) k = Some y \<Longrightarrow> ep_number y = k"
    and pres: "\<And>k. kv_get (es_epochs s) k \<noteq> None \<longleftrightarrow> k \<le> ep_number e"
    and last: "kv_get (es_epochs s) (ep_number e) = Some e"
    using core by (simp_all only: epochs_core_def)
  have "kv_ok (es_epochs ?t)" using core by (simp add: epochs_core_def setEpochInfo_def)
  moreover have "ep_number y = k" if "kv_get (es_epochs ?t) k = Some y" for k y
    using that num [of k y] unfolding get by (cases "k = ep_number x") simp_all
  moreover have "kv_get (es_epochs ?t) k \<noteq> None \<longleftrightarrow> k \<le> ep_number e'" for k
    unfolding get using pres [of k] dom [of k] by (cases "k = ep_number x") simp_all
  moreover have "kv_get (es_epochs ?t) (ep_number e') = Some e'"
    unfolding get using cur last by (cases "ep_number e' = ep_number x") simp_all
  ultimately show ?thesis unfolding epochs_core_def by blast
qed

lemma core_same:
  assumes "epochs_core s e" and n: "ep_number e' = ep_number e"
  shows "epochs_core (setEpochInfo (ep_number e) e' s) e'"
proof -
  have "epochs_core (setEpochInfo (ep_number e') e' s) e'"
  proof (rule core_set [OF assms(1)])
    show "k = ep_number e' \<or> k \<le> ep_number e \<longleftrightarrow> k \<le> ep_number e'" for k unfolding n by auto
  qed simp
  then show ?thesis by (simp only: n)
qed

lemma core_lower:
  assumes "epochs_core s e" and "ep_number x < ep_number e"
  shows "epochs_core (setEpochInfo (ep_number x) x s) e"
proof (rule core_set [OF assms(1)])
  show "k = ep_number x \<or> k \<le> ep_number e \<longleftrightarrow> k \<le> ep_number e" for k
    using assms(2) by (cases "k = ep_number x") simp_all
  show "if ep_number e = ep_number x then e = x else e = e" using assms(2) by simp
qed

lemma core_inc:
  assumes "epochs_core s e" and "ep_number e' = ep_number e + 1" and "unat (ep_number e) < 2 ^ 63"
  shows "epochs_core (setEpochInfo (ep_number e') e' s) e'"
proof -
  have "k = ep_number e' \<or> k \<le> ep_number e \<longleftrightarrow> k \<le> ep_number e'" for k
    using less_Suc_u64 [OF assms(3), of k] by (auto simp: assms(2) order.order_iff_strict)
  then show ?thesis by (intro core_set [OF assms(1)]) simp_all
qed

definition epochs_ok :: "u64 \<Rightarrow> nat \<Rightarrow> ep_state \<Rightarrow> bool" where
  "epochs_ok i h s \<longleftrightarrow> es_interval s = i \<and> (\<exists>e. epochs_core s e \<and>
     (if h = 0 then ep_number e = 0
      else unat (ep_number e) = (h - 1) div unat i + 1 \<and>
           unat (ep_first_block_height e) = (h - 1) div unat i * unat i + 1 \<and> ep_current_interval e = i))"

lemma inc_step:
  assumes core: "epochs_core s e" and small: "unat (ep_number e) < 2 ^ 63" and first: "IsFirstBlockOfNextEpoch cx e"
    and notlast: "\<not> IsLastBlock cx e"
  shows "\<exists>t. begin_block_epochs cx hash s = Inr t \<and> es_interval t = es_interval s \<and>
     epochs_core t (NewEpoch (ep_number e + 1) (es_interval s) (to_u64 (ctx_height cx)) None)"
proof -
  let ?n = "NewEpoch (ep_number e + 1) (es_interval s) (to_u64 (ctx_height cx)) None"
  let ?s1 = "setEpochInfo (ep_number e + 1) ?n s"
  have core1: "epochs_core ?s1 ?n"
    using core_inc [OF core _ small, of ?n] by simp
  have "ep_number e \<noteq> ep_number e + 1" using small by (auto simp: word_unat_eq_iff unat_word_ariths)
  then have hist: "kv_get (es_epochs ?s1) (ep_number e) = Some e"
    using core by (simp add: setEpochInfo_def epochs_core_def)
  have less: "ep_number e < ep_number e + 1" using less_Suc_u64 [OF small] by simp
  have "epochs_core (setEpochInfo (ep_number e) (e\<lparr>ep_sealer_app_hash := ctx_app_hash cx\<rparr>) ?s1) ?n"
    using core_lower [OF core1, of "e\<lparr>ep_sealer_app_hash := ctx_app_hash cx\<rparr>"] less by simp
  moreover have "IncEpoch cx s = Inr ?s1" by (simp add: IncEpoch_def Let_def core_GetEpoch [OF core])
  moreover have "RecordSealerAppHashForPrevEpoch cx ?s1 =
      Inr (setEpochInfo (ep_number e) (e\<lparr>ep_sealer_app_hash := ctx_app_hash cx\<rparr>) ?s1)"
    using hist by (simp add: RecordSealerAppHashForPrevEpoch_def core_GetEpoch [OF core1] IsFirstBlock_def
        GetHistoricalEpoch_def getEpochInfo_def)
  ultimately show ?thesis using first notlast
    by (simp add: begin_block_epochs_def core_GetEpoch [OF core] setEpochInfo_def)
qed

lemma stay_step:
  assumes core: "epochs_core s e" and "\<not> IsFirstBlockOfNextEpoch cx e"
  shows "\<exists>t e'. begin_block_epochs cx hash s = Inr t \<and> es_interval t = es_interval s \<and> epochs_core t e' \<and>
     ep_number e' = ep_number e \<and> ep_first_block_height e' = ep_first_block_height e \<and>
     ep_current_interval e' = ep_current_interval e"
proof (cases "IsLastBlock cx e")
  case True
  let ?e = "e\<lparr>ep_sealer_block_hash := hash\<rparr>"
  have "epochs_core (setEpochInfo (ep_number e) ?e s) ?e" using core_same [OF core, of ?e] by simp
  moreover have "begin_block_epochs cx hash s = Inr (setEpochInfo (ep_number e) ?e s)"
    using True assms(2) by (simp add: begin_block_epochs_def core_GetEpoch [OF core] RecordSealerBlockHashForEpoch_def)
  ultimately show ?thesis by (intro exI [of _ "setEpochInfo (ep_number e) ?e s"] exI [of _ ?e]) (simp add: setEpochInfo_def)
next
  case False
  with assms(2) have "begin_block_epochs cx hash s = Inr s"
    by (simp add: begin_block_epochs_def core_GetEpoch [OF core])
  with core show ?thesis by blast
qed


lemma epoch_div:
  fixes h n :: nat
  assumes "0 < h" "0 < n"
  shows "(h - 1) div n * n + 1 + n = h + 1 \<longleftrightarrow> h div n = (h - 1) div n + 1"
    and "h div n \<noteq> (h - 1) div n + 1 \<Longrightarrow> h div n = (h - 1) div n"
    and "h div n = (h - 1) div n + 1 \<Longrightarrow> h div n * n = h"
proof -
  obtain m where m: "h = Suc m" using assms(1) by (cases h) auto
  have split: "Suc m div n = (if Suc (m mod n) = n then Suc (m div n) else m div n)"
    using assms(2) by (simp add: div_Suc mod_Suc)
  define a where "a = m div n * n"
  have m2: "a + m mod n = m" by (simp add: a_def)
  then have iff: "a + n = Suc m \<longleftrightarrow> Suc (m mod n) = n" by auto
  show "(h - 1) div n * n + 1 + n = h + 1 \<longleftrightarrow> h div n = (h - 1) div n + 1"
    using split iff by (simp add: m a_def [symmetric])
  show "h div n \<noteq> (h - 1) div n + 1 \<Longrightarrow> h div n = (h - 1) div n" using split by (auto simp: m split: if_splits)
  show "h div n = (h - 1) div n + 1 \<Longrightarrow> h div n * n = h"
    using split iff by (auto simp: m a_def [symmetric] split: if_splits)
qed

lemma epochs_step:
  assumes ok: "epochs_ok i h s" and i: "2 \<le> unat i" and small: "h + 1 + unat i < 2 ^ 63"
    and height: "ctx_height cx = int (h + 1)"
  shows "\<exists>t. begin_block_epochs cx hash s = Inr t \<and> epochs_ok i (h + 1) t"
proof -
  obtain e where int: "es_interval s = i" and core: "epochs_core s e"
    and e: "if h = 0 then ep_number e = 0
      else unat (ep_number e) = (h - 1) div unat i + 1 \<and>
           unat (ep_first_block_height e) = (h - 1) div unat i * unat i + 1 \<and> ep_current_interval e = i"
    using ok by (auto simp: epochs_ok_def)
  have hu: "unat (to_u64 (ctx_height cx)) = h + 1" using small height by (simp add: unat_to_u64)
  show ?thesis
  proof (cases "h = 0")
    case True
    with e have n0: "ep_number e = 0" by simp
    have "IsFirstBlockOfNextEpoch cx e" using n0 height True by (simp add: IsFirstBlockOfNextEpoch_def)
    moreover have "to_u64 (ctx_height cx) \<noteq> 0" using hu by auto
    then have "\<not> IsLastBlock cx e" using n0 by (auto simp: IsLastBlock_def GetLastBlockHeight_def)
    ultimately obtain t where t: "begin_block_epochs cx hash s = Inr t" "es_interval t = i"
      "epochs_core t (NewEpoch 1 i (to_u64 (ctx_height cx)) None)"
      using inc_step [OF core, of cx hash] n0 int by auto
    then have "epochs_ok i (h + 1) t"
      using True hu by (auto simp: epochs_ok_def intro!: exI [of _ "NewEpoch 1 i (to_u64 (ctx_height cx)) None"])
    with t(1) show ?thesis by blast
  next
    case False
    let ?q = "(h - 1) div unat i"
    have q: "unat (ep_number e) = ?q + 1" "unat (ep_first_block_height e) = ?q * unat i + 1" "ep_current_interval e = i"
      using e False by auto
    have qh: "?q * unat i \<le> h - 1" "?q \<le> h - 1" by simp_all
    have n0: "ep_number e \<noteq> 0" using q(1) by auto
    have nsmall: "unat (ep_number e) < 2 ^ 63" using q(1) qh(2) small by linarith
    have bound: "x + 1 + unat i < 2 ^ 64" if "x \<le> h - 1" for x using that small False by simp
    have "?q * unat i + 1 + unat i < 2 ^ 64" by (rule bound [OF qh(1)])
    then have "unat (ep_first_block_height e + ep_current_interval e) = ?q * unat i + 1 + unat i"
      by (simp add: unat_word_ariths(1) q)
    then have sum: "ep_first_block_height e + ep_current_interval e = to_u64 (ctx_height cx) \<longleftrightarrow> ?q * unat i + 1 + unat i = h + 1"
      using hu by (simp add: word_unat_eq_iff)
    have div: "?q * unat i + 1 + unat i = h + 1 \<longleftrightarrow> h div unat i = ?q + 1"
      using epoch_div(1) [of h "unat i"] False i by simp
    show ?thesis
    proof (cases "h div unat i = ?q + 1")
      case True
      then have first: "ep_first_block_height e + ep_current_interval e = to_u64 (ctx_height cx)" using sum div by simp
      then have "IsFirstBlockOfNextEpoch cx e" using n0 by (simp add: IsFirstBlockOfNextEpoch_def)
      moreover have "\<not> IsLastBlock cx e" using first n0 by (simp add: IsLastBlock_def GetLastBlockHeight_def)
      ultimately obtain t where t: "begin_block_epochs cx hash s = Inr t" "es_interval t = i"
        "epochs_core t (NewEpoch (ep_number e + 1) i (to_u64 (ctx_height cx)) None)"
        using inc_step [OF core nsmall, of cx hash] int by auto
      have "unat (ep_number e + 1) = ?q + 2" using q(1) nsmall by (simp add: unat_word_ariths)
      then have "epochs_ok i (h + 1) t"
        using t True hu epoch_div(3) [of h "unat i"] False i
        by (auto simp: epochs_ok_def intro!: exI [of _ "NewEpoch (ep_number e + 1) i (to_u64 (ctx_height cx)) None"])
      with t(1) show ?thesis by blast
    next
      case no: False
      then have "\<not> IsFirstBlockOfNextEpoch cx e" using n0 sum div by (simp add: IsFirstBlockOfNextEpoch_def)
      then obtain t e' where t: "begin_block_epochs cx hash s = Inr t" "es_interval t = i" "epochs_core t e'"
        "ep_number e' = ep_number e" "ep_first_block_height e' = ep_first_block_height e"
        "ep_current_interval e' = ep_current_interval e"
        using stay_step [OF core, of cx hash] int by auto
      have "h div unat i = ?q" using epoch_div(2) [of h "unat i"] no False i by simp
      then have "epochs_ok i (h + 1) t" using t q by (auto simp: epochs_ok_def intro!: exI [of _ e'])
      with t(1) show ?thesis by blast
    qed
  qed
qed


section \<open>Runs from genesis\<close>

inductive epoch_run :: "u64 \<Rightarrow> nat \<Rightarrow> ep_state \<Rightarrow> bool" for i where
  genesis: "ctx_height cx = 0 \<Longrightarrow> InitEpoch cx [] \<lparr>es_epochs = [], es_interval = i\<rparr> = Inr s \<Longrightarrow> epoch_run i 0 s"
| block: "epoch_run i h s \<Longrightarrow> ctx_height cx = int (h + 1) \<Longrightarrow> begin_block_epochs cx hash s = Inr t \<Longrightarrow>
    epoch_run i (h + 1) t"

lemma genesis_ok:
  assumes "InitEpoch cx [] \<lparr>es_epochs = [], es_interval = i\<rparr> = Inr s"
  shows "epochs_ok i 0 s"
proof -
  let ?e = "NewEpoch 0 1 0 (Some (ctx_time cx))"
  have "s = \<lparr>es_epochs = [(0, ?e)], es_interval = i\<rparr>"
    using assms by (auto simp: InitEpoch_def setEpochInfo_def split: if_splits)
  then have "es_interval s = i \<and> epochs_core s ?e \<and> ep_number ?e = 0"
    by (auto simp: epochs_core_def kv_ok_def split: if_splits)
  then show ?thesis by (auto simp: epochs_ok_def)
qed

lemma interval_valid: "validateEpochInterval i = Inr () \<Longrightarrow> 2 \<le> unat i"
  by (auto simp: validateEpochInterval_def word_less_nat_alt split: if_splits)

lemma epoch_run_ok:
  assumes "epoch_run i h s" and "2 \<le> unat i" and "h + unat i < 2 ^ 63"
  shows "epochs_ok i h s"
  using assms
proof (induction rule: epoch_run.induct)
  case (genesis cx s)
  then show ?case by (intro genesis_ok)
next
  case (block h s cx hash t)
  then have "epochs_ok i h s" by simp
  then obtain t' where "begin_block_epochs cx hash s = Inr t'" "epochs_ok i (h + 1) t'"
    using epochs_step [of i h s cx hash] block by auto
  with block(3) show ?case by simp
qed

lemma calculate_number:
  assumes "0 < h" "h < 2 ^ 63" "0 < unat i"
  shows "\<exists>n. CalculateEpochNumber (of_nat h) i = Inr n \<and> unat n = (h - 1) div unat i + 1"
proof -
  have u: "unat (of_nat h :: u64) = h" using assms(2) by (simp add: unat_of_nat)
  have nz: "(of_nat h :: u64) \<noteq> 0" using u assms(1) by auto
  have m: "unat (of_nat h - 1 :: u64) = h - 1"
    using unat_minus_one [OF nz] u by simp
  have "i \<noteq> 0" using assms(3) by auto
  moreover have bound: "q + 1 < 2 ^ 64" if "q \<le> h - 1" for q using that assms(1,2) by simp
  have "(h - 1) div unat i + 1 < 2 ^ 64" by (rule bound) simp
  then have "unat ((of_nat h - 1) div i + 1 :: u64) = (h - 1) div unat i + 1"
    using m by (simp add: unat_word_ariths(1) unat_div)
  ultimately show ?thesis using nz by (simp add: CalculateEpochNumber_def)
qed

lemma within_current:
  assumes "epochs_core s e" "0 < h" "h + unat i < 2 ^ 63" "2 \<le> unat i"
    and "unat (ep_number e) = (h - 1) div unat i + 1"
    and "unat (ep_first_block_height e) = (h - 1) div unat i * unat i + 1" "ep_current_interval e = i"
  shows "WithinBoundary (of_nat h) e"
proof -
  let ?q = "(h - 1) div unat i"
  define x where "x = ?q * unat i"
  have "x + (h - 1) mod unat i = h - 1" by (simp add: x_def)
  moreover have "(h - 1) mod unat i < unat i" using assms(4) by simp
  ultimately have x: "x + 1 \<le> h" "h < x + 1 + unat i" using assms(2) by linarith+
  have u: "unat (of_nat h :: u64) = h" using assms(3) by (simp add: unat_of_nat)
  have n0: "ep_number e \<noteq> 0" using assms(5) by auto
  have f: "unat (ep_first_block_height e) = x + 1" using assms(6) by (simp add: x_def)
  have "unat (ep_first_block_height e + i) = x + 1 + unat i"
    using f x assms(3) by (simp add: unat_word_ariths(1))
  moreover have "ep_first_block_height e + i \<noteq> 0" using calculation by auto
  ultimately have "unat (ep_first_block_height e + i - 1) = x + unat i"
    using unat_minus_one [of "ep_first_block_height e + i"] by simp
  then show ?thesis using n0 f x u assms(7)
    by (simp add: WithinBoundary_def GetLastBlockHeight_def word_less_nat_alt)
qed

text \<open>C14: the epoch of a height.  In a chain that keeps its epoch interval, after the first transition of
  every block the current epoch contains the block's height, its number is the one \<open>GetEpochNumByHeight\<close>
  computes for the height, and the next block does not fail.\<close>

theorem GetEpochNumByHeight_current:
  assumes "epoch_run i h s" and "validateEpochInterval i = Inr ()" and "0 < h" and "h + 1 + unat i < 2 ^ 63"
    and "ctx_height cx = int (h + 1)"
  shows "\<exists>e t. GetEpoch s = Inr e \<and> WithinBoundary (of_nat h) e \<and>
     GetEpochNumByHeight s (of_nat h) = Inr (ep_number e) \<and> begin_block_epochs cx hash s = Inr t"
proof -
  have i: "2 \<le> unat i" using assms(2) by (rule interval_valid)
  have ok: "epochs_ok i h s" using epoch_run_ok [OF assms(1) i] assms(4) by simp
  then obtain e where e: "es_interval s = i" "epochs_core s e" "unat (ep_number e) = (h - 1) div unat i + 1"
    "unat (ep_first_block_height e) = (h - 1) div unat i * unat i + 1" "ep_current_interval e = i"
    using assms(3) by (auto simp: epochs_ok_def)
  obtain n where n: "CalculateEpochNumber (of_nat h) i = Inr n" "unat n = (h - 1) div unat i + 1"
    using calculate_number [of h i] assms(3,4) i by auto
  have "n = ep_number e" by (simp only: word_unat_eq_iff n(2) e(3))
  with n(1) e(1) have "GetEpochNumByHeight s (of_nat h) = Inr (ep_number e)"
    by (simp add: GetEpochNumByHeight_def)
  moreover have "WithinBoundary (of_nat h) e"
    using within_current [OF e(2) assms(3) _ i e(3-5)] assms(4) by simp
  ultimately show ?thesis using core_GetEpoch [OF e(2)] epochs_step [OF ok i assms(4,5)] by blast
qed


definition epoch_ctx :: "nat \<Rightarrow> ctx" where
  "epoch_ctx h = \<lparr>ctx_height = int h, ctx_time = 0, ctx_app_hash = [], ctx_btc_tip = None,
     ctx_btc_base = \<lparr>bhi_hash = [], bhi_height = 1\<rparr>, ctx_btc_confirmation_depth = 10,
     ctx_epoch = 0, ctx_last_finalized_epoch = 0\<rparr>"

lemma epoch_run_exists:
  assumes "2 \<le> unat i" and "h + unat i < 2 ^ 63"
  shows "\<exists>s. epoch_run i h s"
  using assms(2)
proof (induction h)
  case 0
  show ?case
    by (intro exI, rule genesis [of "epoch_ctx 0"]) (simp_all add: epoch_ctx_def InitEpoch_def)
next
  case (Suc h)
  then obtain s where s: "epoch_run i h s" by auto
  then obtain t where "begin_block_epochs (epoch_ctx (h + 1)) [] s = Inr t"
    using epochs_step [OF epoch_run_ok [OF s assms(1)] assms(1), of "epoch_ctx (h + 1)" "[]"] Suc.prems
    by (auto simp: epoch_ctx_def)
  with s show ?case using block [of i h s "epoch_ctx (h + 1)" "[]" t] by (auto simp: epoch_ctx_def)
qed

theorem GetEpochNumByHeight_current_witness:
  "\<exists>s e t. epoch_run 5 6 s \<and> GetEpoch s = Inr e \<and> WithinBoundary 6 e \<and> GetEpochNumByHeight s 6 = Inr (ep_number e) \<and>
     begin_block_epochs (epoch_ctx 7) [] s = Inr t"
proof -
  obtain s where s: "epoch_run 5 6 s" using epoch_run_exists [of 5 6] by auto
  show ?thesis
    using GetEpochNumByHeight_current [OF s, of "epoch_ctx 7" "[]"] s
    by (auto simp: validateEpochInterval_def epoch_ctx_def)
qed


end
