(* ===== verification/Finality_Msg.thy ===== *)
theory Finality_Msg
  imports Finality_PubRand Epoching
begin

text \<open>
  The messages of the finality module (\<open>keeper/msg_server.go\<close>): votes with the detection of double
  votes, unjailing, and the parameters.  The lemmas show that every counted vote and every evidence is
  backed by valid signatures under one committed randomness, and that a second vote at a height slashes
  and yields the secret key.

  The epochs are the state \<open>ep_state\<close> of the epoching module, which the handler only reads;
  \<open>enc\<close> is the encoding of a vote whose hash the incentive module records for the refund of its fee.
\<close>

definition IndexRefundableMsg ::
  "'p fin_ext \<Rightarrow> (MsgAddFinalitySig \<Rightarrow> bytes) \<Rightarrow> MsgAddFinalitySig \<Rightarrow> 'c fin_state \<Rightarrow> 'c fin_state" where
  "IndexRefundableMsg F enc req s =
     s\<lparr>fs_refundable := kv_set (fx_tmhash F (enc req)) () (fs_refundable s)\<rparr>"

definition ShouldAcceptSigForHeight :: "ctx \<Rightarrow> ep_state \<Rightarrow> IndexedBlock \<Rightarrow> bool res" where
  "ShouldAcceptSigForHeight cx ep block =
     rbind (GetEpochNumByHeight ep (ib_height block)) (\<lambda>epochNum.
       let timestamped = (ctx_last_finalized_epoch cx \<ge> epochNum)
       in Inr (\<not> (ib_finalized block \<and> timestamped)))"

text \<open>The typed event of the slashing has no effect on the state.\<close>

definition slashFinalityProvider :: "ctx \<Rightarrow> BIP340PubKey \<Rightarrow> 'c fin_state \<Rightarrow> 'c fin_state res" where
  "slashFinalityProvider cx fpBtcPk s =
     (case SlashFinalityProvider cx fpBtcPk (fs_bs s) of
        Inl _ \<Rightarrow> Inl (Panic ''failed to slash finality provider'')
      | Inr b \<Rightarrow> Inr (s\<lparr>fs_bs := b\<rparr>))"

text \<open>A vote for another block than the canonical one: the evidence is stored, with the canonical
  signature and the slashing when the canonical block has been voted for.\<close>

definition vote_for_fork ::
  "ctx \<Rightarrow> MsgAddFinalitySig \<Rightarrow> IndexedBlock \<Rightarrow> 'c fin_state \<Rightarrow> 'c fin_state res" where
  "vote_for_fork cx req indexedBlock s =
     (let evidence = \<lparr>ev_fp_btc_pk = fsg_fp_btc_pk req, ev_block_height = fsg_block_height req,
                      ev_pub_rand = fsg_pub_rand req, ev_canonical_app_hash = ib_app_hash indexedBlock,
                      ev_fork_app_hash = fsg_block_app_hash req, ev_canonical_sig = None,
                      ev_fork_sig = fsg_finality_sig req\<rparr>
      in case GetSig cx s (fsg_block_height req) (fsg_fp_btc_pk req) of
           Inl (Panic m) \<Rightarrow> Inl (Panic m)
         | Inl _ \<Rightarrow> Inr (SetEvidence evidence s)
         | Inr canonicalSig \<Rightarrow>
             rbind (slashFinalityProvider cx (fsg_fp_btc_pk req) s) (\<lambda>t.
               Inr (SetEvidence (evidence\<lparr>ev_canonical_sig := Some canonicalSig\<rparr>) t)))"

text \<open>A vote for the canonical block: it is counted, and slashes when a fork was voted for before.\<close>

definition vote_for_canonical ::
  "'p fin_ext \<Rightarrow> (MsgAddFinalitySig \<Rightarrow> bytes) \<Rightarrow> ctx \<Rightarrow> MsgAddFinalitySig \<Rightarrow> FinalityProvider \<Rightarrow>
   'c fin_state \<Rightarrow> 'c fin_state res" where
  "vote_for_canonical F enc cx req fp s =
     (case fsg_finality_sig req of
        None \<Rightarrow> Inl (Panic ''nil pointer dereference'')
      | Some sig \<Rightarrow>
          let s1 = SetSig (fsg_block_height req) (fsg_fp_btc_pk req) sig s
          in rbind (if fp_highest_voted_height fp < ucast (fsg_block_height req)
                    then (case UpdateFinalityProvider (fp\<lparr>fp_highest_voted_height := ucast (fsg_block_height req)\<rparr>) (fs_bs s1) of
                            Inl _ \<Rightarrow> Inl (Errorf ''failed to update the finality provider'')
                          | Inr b \<Rightarrow> Inr (s1\<lparr>fs_bs := b\<rparr>))
                    else Inr s1) (\<lambda>s2.
             if HasEvidence s2 (fsg_fp_btc_pk req) (fsg_block_height req)
             then (case GetEvidence cx s2 (fsg_fp_btc_pk req) (fsg_block_height req) of
                     Inl _ \<Rightarrow> Inl (Panic ''failed to get evidence despite HasEvidence returns true'')
                   | Inr evidence \<Rightarrow>
                       slashFinalityProvider cx (fsg_fp_btc_pk req)
                         (SetEvidence (evidence\<lparr>ev_canonical_sig := fsg_finality_sig req\<rparr>) s2))
             else Inr (IndexRefundableMsg F enc req s2)))"

definition AddFinalitySig ::
  "ext \<Rightarrow> 'p fin_ext \<Rightarrow> (MsgAddFinalitySig \<Rightarrow> bytes) \<Rightarrow> ctx \<Rightarrow> ep_state \<Rightarrow> MsgAddFinalitySig \<Rightarrow>
   'c fin_state \<Rightarrow> 'c fin_state res" where
  "AddFinalitySig X F enc cx ep req s =
     rbind (MsgAddFinalitySig_ValidateBasic X req) (\<lambda>_.
     rbind (validateActivationHeight s (fsg_block_height req)) (\<lambda>_.
     rbind (GetBlock s (fsg_block_height req)) (\<lambda>indexedBlock.
     rbind (ShouldAcceptSigForHeight cx ep indexedBlock) (\<lambda>should.
     if \<not> should then Inl ErrSigHeightOutdated
     else if IsFinalityProviderDeleted (fs_bs s) (fsg_fp_btc_pk req) then Inl ErrFinalityProviderIsDeleted
     else
       rbind (GetFinalityProvider (fs_bs s) (fsg_fp_btc_pk req)) (\<lambda>fp.
       if FinalityProvider_IsSlashed fp then Inl ErrFpAlreadySlashed
       else if FinalityProvider_IsJailed fp then Inl ErrFpAlreadyJailed
       else if GetVotingPower s (fsg_fp_btc_pk req) (fsg_block_height req) = 0 then Inl ErrInvalidFinalitySig
       else
         rbind (case GetSig cx s (fsg_block_height req) (fsg_fp_btc_pk req) of
                  Inl (Panic m) \<Rightarrow> Inl (Panic m)
                | Inl _ \<Rightarrow> Inr ()
                | Inr existingSig \<Rightarrow>
                    if fsg_finality_sig req = Some existingSig then Inl ErrDuplicatedFinalitySig else Inr ()) (\<lambda>_.
         rbind (GetTimestampedPubRandCommitForHeight cx s (fsg_fp_btc_pk req) (fsg_block_height req)) (\<lambda>prCommit.
         rbind (VerifyFinalitySig F req prCommit) (\<lambda>_.
           let s1 = SetPubRand (fsg_fp_btc_pk req) (fsg_block_height req)
                      (case fsg_pub_rand req of None \<Rightarrow> [] | Some pr \<Rightarrow> pr) s
           in if ib_app_hash indexedBlock \<noteq> fsg_block_app_hash req
              then vote_for_fork cx req indexedBlock s1
              else vote_for_canonical F enc cx req fp s1))))))))"

section \<open>Unjailing and parameters\<close>

definition UnjailFinalityProvider ::
  "ctx \<Rightarrow> string \<Rightarrow> BIP340PubKey \<Rightarrow> 'c fin_state \<Rightarrow> 'c fin_state res" where
  "UnjailFinalityProvider cx signer fpPk s =
     (if fpPk = [] then Inl (Panic ''nil pointer dereference'')
      else case GetFinalityProvider (fs_bs s) fpPk of
        Inl _ \<Rightarrow> Inl (Errorf ''failed to get finality provider'')
      | Inr fp \<Rightarrow>
          if fp_addr fp \<noteq> signer then Inl (Errorf ''the fp's address does not match the signer'')
          else if \<not> FinalityProvider_IsJailed fp then Inl ErrFpNotJailed
          else case kv_get (fs_signing_infos s) fpPk of
                 None \<Rightarrow> Inl (Errorf ''failed to get the signing info of finality provider'')
               | Some info \<Rightarrow>
                   rbind (IsJailingPeriodPassed info (ctx_time cx)) (\<lambda>jailingPeriodPassed.
                     if \<not> jailingPeriodPassed then Inl ErrJailingPeriodNotPassed
                     else case UnjailFinalityProvider_bs cx fpPk (fs_bs s) of
                            Inl _ \<Rightarrow> Inl (Errorf ''failed to unjail finality provider'')
                          | Inr b \<Rightarrow> Inr (s\<lparr>fs_bs := b\<rparr>)))"

definition fin_UpdateParams :: "string \<Rightarrow> string \<Rightarrow> fin_params \<Rightarrow> 'c fin_state \<Rightarrow> 'c fin_state res" where
  "fin_UpdateParams keeper_authority authority params s =
     (if keeper_authority \<noteq> authority then Inl ErrInvalidSigner
      else case fin_Params_Validate params of
             Inl _ \<Rightarrow> Inl ErrInvalidProposalMsg
           | Inr _ \<Rightarrow> fin_SetParams params s)"

section \<open>Double votes\<close>

text \<open>A leaf is determined by the root, its index and the number of leaves: no collision of the hash.\<close>

definition merkle_binding :: "'p fin_ext \<Rightarrow> bool" where
  "merkle_binding F \<longleftrightarrow> (\<forall>p p' root leaf leaf'.
     to_u64 (pf_index p) = to_u64 (pf_index p') \<longrightarrow> to_u64 (pf_total p) = to_u64 (pf_total p') \<longrightarrow>
     fx_ProofVerify F p root leaf = Inr () \<longrightarrow> fx_ProofVerify F p' root leaf' = Inr () \<longrightarrow> leaf = leaf')"

definition vote_verifies :: "'p fin_ext \<Rightarrow> BIP340PubKey \<Rightarrow> u64 \<Rightarrow> bytes \<Rightarrow> bytes \<Rightarrow> bytes \<Rightarrow> bool" where
  "vote_verifies F pk h pr appHash sig \<longleftrightarrow> length sig = SchnorrEOTSSigLen \<and> length appHash = 32 \<and> pk \<noteq> [] \<and>
     (\<exists>P. pt_Parse (fx_curve F) pk = Inr P \<and>
        eots_Verify (fx_curve F) P (ToFieldValNormalized F pr) (msgToSignForVote h appHash) (ToModNScalar F sig) = Inr ())"

definition revealed_ok :: "'p fin_ext \<Rightarrow> 'c fin_state \<Rightarrow> BIP340PubKey \<Rightarrow> u64 \<Rightarrow> bytes \<Rightarrow> bool" where
  "revealed_ok F s pk h pr \<longleftrightarrow> (\<exists>c proof. GetPubRandCommitForHeight s pk h = Inr c \<and>
     fx_ProofVerify F proof (pc_commitment c) pr = Inr () \<and>
     h = pc_start_height c + to_u64 (pf_index proof) \<and> to_u64 (pf_total proof) = pc_num_pub_rand c)"

definition evidence_ok :: "'p fin_ext \<Rightarrow> BIP340PubKey \<Rightarrow> u64 \<Rightarrow> bytes \<Rightarrow> IndexedBlock \<Rightarrow> Evidence \<Rightarrow> bool" where
  "evidence_ok F pk h pr b e \<longleftrightarrow> ev_fp_btc_pk e = pk \<and> ev_block_height e = h \<and> ev_pub_rand e = Some pr \<and>
     ev_canonical_app_hash e = ib_app_hash b \<and>
     (\<exists>sig. ev_fork_sig e = Some sig \<and> vote_verifies F pk h pr (ev_fork_app_hash e) sig)"

definition votes_ok :: "'p fin_ext \<Rightarrow> 'c fin_state \<Rightarrow> bool" where
  "votes_ok F s \<longleftrightarrow>
     (\<forall>pk h pr. kv_get (fs_pub_rands s) (pk, h) = Some pr \<longrightarrow> revealed_ok F s pk h pr) \<and>
     (\<forall>h pk sig. kv_get (fs_votes s) (h, pk) = Some sig \<longrightarrow>
        (\<exists>pr b. kv_get (fs_pub_rands s) (pk, h) = Some pr \<and> kv_get (fs_blocks s) h = Some b \<and>
           vote_verifies F pk h pr (ib_app_hash b) sig)) \<and>
     (\<forall>pk h e. kv_get (fs_evidences s) (pk, h) = Some e \<longrightarrow>
        (\<exists>pr b. kv_get (fs_pub_rands s) (pk, h) = Some pr \<and> kv_get (fs_blocks s) h = Some b \<and>
           evidence_ok F pk h pr b e))"

lemma VerifyFinalitySig_Inr:
  assumes "VerifyFinalitySig F req c = Inr ()"
  obtains mp pr sig P where "fsg_proof req = Some mp" "fsg_pub_rand req = Some pr" "fsg_finality_sig req = Some sig"
    "fsg_block_height req = pc_start_height c + to_u64 (pf_index mp)" "to_u64 (pf_total mp) = pc_num_pub_rand c"
    "fx_ProofVerify F mp (pc_commitment c) pr = Inr ()" "fsg_fp_btc_pk req \<noteq> []"
    "pt_Parse (fx_curve F) (fsg_fp_btc_pk req) = Inr P"
    "eots_Verify (fx_curve F) P (ToFieldValNormalized F pr)
       (msgToSignForVote (fsg_block_height req) (fsg_block_app_hash req)) (ToModNScalar F sig) = Inr ()"
  using assms
  by (auto simp: VerifyFinalitySig_def MsgAddFinalitySig_MsgToSign_def rbind_eq_Inr
      split: option.splits if_splits sum.splits)

lemma AddFinalitySig_Inr:
  assumes "AddFinalitySig X F enc cx ep req s = Inr t"
  obtains b fp pr sig where "kv_get (fs_blocks s) (fsg_block_height req) = Some b"
    "kv_get (bs_fps (fs_bs s)) (fsg_fp_btc_pk req) = Some fp" "\<not> FinalityProvider_IsSlashed fp"
    "fsg_pub_rand req = Some pr" "fsg_finality_sig req = Some sig"
    "revealed_ok F s (fsg_fp_btc_pk req) (fsg_block_height req) pr"
    "vote_verifies F (fsg_fp_btc_pk req) (fsg_block_height req) pr (fsg_block_app_hash req) sig"
    "(if ib_app_hash b \<noteq> fsg_block_app_hash req
      then vote_for_fork cx req b (SetPubRand (fsg_fp_btc_pk req) (fsg_block_height req) pr s)
      else vote_for_canonical F enc cx req fp (SetPubRand (fsg_fp_btc_pk req) (fsg_block_height req) pr s)) = Inr t"
proof -
  from assms obtain b fp c where basic: "MsgAddFinalitySig_ValidateBasic X req = Inr ()"
    and b: "GetBlock s (fsg_block_height req) = Inr b"
    and fp: "GetFinalityProvider (fs_bs s) (fsg_fp_btc_pk req) = Inr fp" "\<not> FinalityProvider_IsSlashed fp"
    and c: "GetTimestampedPubRandCommitForHeight cx s (fsg_fp_btc_pk req) (fsg_block_height req) = Inr c"
    and v: "VerifyFinalitySig F req c = Inr ()"
    and t: "(let s1 = SetPubRand (fsg_fp_btc_pk req) (fsg_block_height req)
                      (case fsg_pub_rand req of None \<Rightarrow> [] | Some pr \<Rightarrow> pr) s
           in if ib_app_hash b \<noteq> fsg_block_app_hash req
              then vote_for_fork cx req b s1 else vote_for_canonical F enc cx req fp s1) = Inr t"
    unfolding AddFinalitySig_def rbind_eq_Inr by (auto simp: rbind_eq_Inr split: if_splits)
  have len: "fsg_finality_sig req = Some sig \<Longrightarrow> length sig = SchnorrEOTSSigLen" "length (fsg_block_app_hash req) = 32" for sig
    using basic by (auto simp: MsgAddFinalitySig_ValidateBasic_def split: sum.splits option.splits if_splits)
  from v obtain mp pr sig P where V: "fsg_pub_rand req = Some pr" "fsg_finality_sig req = Some sig"
    "fsg_block_height req = pc_start_height c + to_u64 (pf_index mp)" "to_u64 (pf_total mp) = pc_num_pub_rand c"
    "fx_ProofVerify F mp (pc_commitment c) pr = Inr ()" "fsg_fp_btc_pk req \<noteq> []"
    "pt_Parse (fx_curve F) (fsg_fp_btc_pk req) = Inr P"
    "eots_Verify (fx_curve F) P (ToFieldValNormalized F pr)
       (msgToSignForVote (fsg_block_height req) (fsg_block_app_hash req)) (ToModNScalar F sig) = Inr ()"
    by (rule VerifyFinalitySig_Inr)
  have "GetPubRandCommitForHeight s (fsg_fp_btc_pk req) (fsg_block_height req) = Inr c"
    using c by (auto simp: GetTimestampedPubRandCommitForHeight_def rbind_eq_Inr split: if_splits)
  then have "revealed_ok F s (fsg_fp_btc_pk req) (fsg_block_height req) pr"
    unfolding revealed_ok_def using V(3-5) by blast
  moreover have "vote_verifies F (fsg_fp_btc_pk req) (fsg_block_height req) pr (fsg_block_app_hash req) sig"
    using V(6-8) len(1) [OF V(2)] len(2) by (auto simp: vote_verifies_def)
  moreover have "kv_get (fs_blocks s) (fsg_block_height req) = Some b"
    "kv_get (bs_fps (fs_bs s)) (fsg_fp_btc_pk req) = Some fp"
    using b fp(1) by (auto simp: GetBlock_def GetFinalityProvider_def split: option.splits)
  ultimately show ?thesis using that V(1,2) fp(2) t by (simp add: Let_def)
qed

lemma revealed_unique:
  assumes "merkle_binding F" and "revealed_ok F s pk h pr" and "revealed_ok F s pk h pr'"
  shows "pr = pr'"
proof -
  obtain c p where 1: "GetPubRandCommitForHeight s pk h = Inr c" "fx_ProofVerify F p (pc_commitment c) pr = Inr ()"
    "h = pc_start_height c + to_u64 (pf_index p)" "to_u64 (pf_total p) = pc_num_pub_rand c"
    using assms(2) by (auto simp: revealed_ok_def)
  obtain p' where 2: "fx_ProofVerify F p' (pc_commitment c) pr' = Inr ()"
    "h = pc_start_height c + to_u64 (pf_index p')" "to_u64 (pf_total p') = pc_num_pub_rand c"
    using assms(3) 1(1) by (auto simp: revealed_ok_def)
  have "to_u64 (pf_index p) = to_u64 (pf_index p')" using 1(3) 2(2) by (metis add_left_cancel)
  moreover have "to_u64 (pf_total p) = to_u64 (pf_total p')" using 1(4) 2(3) by simp
  ultimately show ?thesis using assms(1) 1(2) 2(1) unfolding merkle_binding_def by blast
qed


lemma votes_okD:
  assumes "votes_ok F s"
  shows "kv_get (fs_pub_rands s) (pk, h) = Some pr \<Longrightarrow> revealed_ok F s pk h pr"
    "kv_get (fs_votes s) (h, pk) = Some sig \<Longrightarrow> \<exists>pr b. kv_get (fs_pub_rands s) (pk, h) = Some pr \<and>
       kv_get (fs_blocks s) h = Some b \<and> vote_verifies F pk h pr (ib_app_hash b) sig"
    "kv_get (fs_evidences s) (pk, h) = Some e \<Longrightarrow> \<exists>pr b. kv_get (fs_pub_rands s) (pk, h) = Some pr \<and>
       kv_get (fs_blocks s) h = Some b \<and> evidence_ok F pk h pr b e"
  using assms unfolding votes_ok_def by blast+

lemma votes_okI:
  assumes "\<And>pk h pr. kv_get (fs_pub_rands s) (pk, h) = Some pr \<Longrightarrow> revealed_ok F s pk h pr"
    and "\<And>h pk sig. kv_get (fs_votes s) (h, pk) = Some sig \<Longrightarrow> \<exists>pr b. kv_get (fs_pub_rands s) (pk, h) = Some pr \<and>
       kv_get (fs_blocks s) h = Some b \<and> vote_verifies F pk h pr (ib_app_hash b) sig"
    and "\<And>pk h e. kv_get (fs_evidences s) (pk, h) = Some e \<Longrightarrow> \<exists>pr b. kv_get (fs_pub_rands s) (pk, h) = Some pr \<and>
       kv_get (fs_blocks s) h = Some b \<and> evidence_ok F pk h pr b e"
  shows "votes_ok F s"
  using assms unfolding votes_ok_def by blast

lemma votes_ok_extend:
  assumes ok: "votes_ok F s" and bind: "merkle_binding F" and rev: "revealed_ok F s pk h pr"
    and b: "kv_get (fs_blocks s) h = Some b"
    and frame: "fs_blocks t = fs_blocks s" "fs_pub_rand_idx t = fs_pub_rand_idx s"
      "fs_pub_rand_commits t = fs_pub_rand_commits s" "fs_pub_rands t = kv_set (pk, h) pr (fs_pub_rands s)"
    and votes: "\<And>h' pk' sig. kv_get (fs_votes t) (h', pk') = Some sig \<Longrightarrow> kv_get (fs_votes s) (h', pk') = Some sig \<or>
       h' = h \<and> pk' = pk \<and> vote_verifies F pk h pr (ib_app_hash b) sig"
    and evs: "\<And>h' pk' e. kv_get (fs_evidences t) (pk', h') = Some e \<Longrightarrow> kv_get (fs_evidences s) (pk', h') = Some e \<or>
       h' = h \<and> pk' = pk \<and> evidence_ok F pk h pr b e"
  shows "votes_ok F t"
proof -
  have revt: "revealed_ok F t pk' h' x = revealed_ok F s pk' h' x" for pk' h' x
    unfolding revealed_ok_def GetPubRandCommitForHeight_def frame(2,3) by (rule refl)
  have keep: "kv_get (fs_pub_rands t) (pk', h') = Some x" if "kv_get (fs_pub_rands s) (pk', h') = Some x" for pk' h' x
  proof (cases "pk' = pk \<and> h' = h")
    case True
    then have "x = pr" using revealed_unique [OF bind _ rev] votes_okD(1) [OF ok that] by simp
    with True show ?thesis by (simp add: frame(4))
  next
    case False
    with that show ?thesis by (auto simp: frame(4))
  qed
  have new: "kv_get (fs_pub_rands t) (pk, h) = Some pr" by (simp add: frame(4))
  show ?thesis
  proof (rule votes_okI)
    fix pk' h' x assume "kv_get (fs_pub_rands t) (pk', h') = Some x"
    then show "revealed_ok F t pk' h' x"
      using rev votes_okD(1) [OF ok, of pk' h' x] unfolding revt by (auto simp: frame(4) split: if_splits)
  next
    fix h' pk' sig assume "kv_get (fs_votes t) (h', pk') = Some sig"
    from votes [OF this] show "\<exists>x b. kv_get (fs_pub_rands t) (pk', h') = Some x \<and> kv_get (fs_blocks t) h' = Some b \<and>
        vote_verifies F pk' h' x (ib_app_hash b) sig"
      using votes_okD(2) [OF ok, of h' pk' sig] keep new b by (auto simp: frame(1))
  next
    fix pk' h' e assume "kv_get (fs_evidences t) (pk', h') = Some e"
    from evs [OF this] show "\<exists>x b. kv_get (fs_pub_rands t) (pk', h') = Some x \<and> kv_get (fs_blocks t) h' = Some b \<and>
        evidence_ok F pk' h' x b e"
      using votes_okD(3) [OF ok, of pk' h' e] keep new b by (auto simp: frame(1))
  qed
qed

lemma slashFinalityProvider_Inr:
  assumes "slashFinalityProvider cx pk s = Inr t"
  obtains b where "t = s\<lparr>fs_bs := b\<rparr>" "SlashFinalityProvider cx pk (fs_bs s) = Inr b"
  using assms by (auto simp: slashFinalityProvider_def split: sum.splits)

lemma vote_for_fork_cases:
  assumes "vote_for_fork cx req b s = Inr t"
  obtains (first) e where "t = SetEvidence e s" "ev_canonical_sig e = None"
      "e = \<lparr>ev_fp_btc_pk = fsg_fp_btc_pk req, ev_block_height = fsg_block_height req, ev_pub_rand = fsg_pub_rand req,
        ev_canonical_app_hash = ib_app_hash b, ev_fork_app_hash = fsg_block_app_hash req, ev_canonical_sig = None,
        ev_fork_sig = fsg_finality_sig req\<rparr>" "\<And>c. GetSig cx s (fsg_block_height req) (fsg_fp_btc_pk req) \<noteq> Inr c"
  | (double) e c u where "GetSig cx s (fsg_block_height req) (fsg_fp_btc_pk req) = Inr c"
      "slashFinalityProvider cx (fsg_fp_btc_pk req) s = Inr u" "t = SetEvidence e u"
      "e = \<lparr>ev_fp_btc_pk = fsg_fp_btc_pk req, ev_block_height = fsg_block_height req, ev_pub_rand = fsg_pub_rand req,
        ev_canonical_app_hash = ib_app_hash b, ev_fork_app_hash = fsg_block_app_hash req, ev_canonical_sig = Some c,
        ev_fork_sig = fsg_finality_sig req\<rparr>"
  using assms
  by (cases "GetSig cx s (fsg_block_height req) (fsg_fp_btc_pk req)")
    (auto simp: vote_for_fork_def Let_def rbind_eq_Inr split: error.splits)

lemma vote_for_canonical_cases:
  assumes "vote_for_canonical F enc cx req fp s = Inr t" and "fsg_finality_sig req = Some sig"
  obtains (fine) "fs_evidences t = fs_evidences s" "fs_votes t = kv_set (fsg_block_height req, fsg_fp_btc_pk req) sig (fs_votes s)"
      "fs_blocks t = fs_blocks s" "fs_pub_rand_idx t = fs_pub_rand_idx s" "fs_pub_rand_commits t = fs_pub_rand_commits s"
      "fs_pub_rands t = fs_pub_rands s" "\<not> HasEvidence s (fsg_fp_btc_pk req) (fsg_block_height req)"
  | (double) e u where "kv_get (fs_evidences s) (fsg_fp_btc_pk req, fsg_block_height req) = Some e"
      "fs_votes u = kv_set (fsg_block_height req, fsg_fp_btc_pk req) sig (fs_votes s)" "fs_evidences u = fs_evidences s"
      "fs_blocks u = fs_blocks s" "fs_pub_rand_idx u = fs_pub_rand_idx s" "fs_pub_rand_commits u = fs_pub_rand_commits s"
      "fs_pub_rands u = fs_pub_rands s" "fps_ok (fs_bs s) \<Longrightarrow> fps_ok (fs_bs u)"
      "slashFinalityProvider cx (fsg_fp_btc_pk req) (SetEvidence (e\<lparr>ev_canonical_sig := Some sig\<rparr>) u) = Inr t"
proof -
  let ?k = "fsg_block_height req" and ?pk = "fsg_fp_btc_pk req"
  obtain u where u: "fs_votes u = kv_set (?k, ?pk) sig (fs_votes s)" "fs_evidences u = fs_evidences s"
      "fs_blocks u = fs_blocks s" "fs_pub_rand_idx u = fs_pub_rand_idx s" "fs_pub_rand_commits u = fs_pub_rand_commits s"
      "fs_pub_rands u = fs_pub_rands s" "fps_ok (fs_bs s) \<Longrightarrow> fps_ok (fs_bs u)"
    and t: "(if HasEvidence u ?pk ?k then (case GetEvidence cx u ?pk ?k of
               Inl _ \<Rightarrow> Inl (Panic ''failed to get evidence despite HasEvidence returns true'')
             | Inr evidence \<Rightarrow> slashFinalityProvider cx ?pk (SetEvidence (evidence\<lparr>ev_canonical_sig := Some sig\<rparr>) u))
           else Inr (IndexRefundableMsg F enc req u)) = Inr t"
  proof -
    define s1 where "s1 = SetSig ?k ?pk sig s"
    obtain u where u0: "(if fp_highest_voted_height fp < ucast ?k
          then (case UpdateFinalityProvider (fp\<lparr>fp_highest_voted_height := ucast ?k\<rparr>) (fs_bs s1) of
                  Inl _ \<Rightarrow> Inl (Errorf ''failed to update the finality provider'') | Inr b \<Rightarrow> Inr (s1\<lparr>fs_bs := b\<rparr>))
          else Inr s1) = Inr u"
      and t0: "(if HasEvidence u ?pk ?k then (case GetEvidence cx u ?pk ?k of
               Inl _ \<Rightarrow> Inl (Panic ''failed to get evidence despite HasEvidence returns true'')
             | Inr evidence \<Rightarrow> slashFinalityProvider cx ?pk (SetEvidence (evidence\<lparr>ev_canonical_sig := Some sig\<rparr>) u))
           else Inr (IndexRefundableMsg F enc req u)) = Inr t"
      using assms by (simp only: vote_for_canonical_def option.case Let_def s1_def [symmetric] rbind_eq_Inr) blast
    from u0 have "u = s1 \<or> (\<exists>b. u = s1\<lparr>fs_bs := b\<rparr> \<and> (fps_ok (fs_bs s) \<longrightarrow> fps_ok b))"
      by (auto simp: s1_def SetSig_def UpdateFinalityProvider_def split: if_splits sum.splits)
    then show ?thesis using that [of u] t0 by (auto simp: s1_def SetSig_def)
  qed
  show ?thesis
  proof (cases "HasEvidence u ?pk ?k")
    case True
    then obtain e where "GetEvidence cx u ?pk ?k = Inr e"
      "slashFinalityProvider cx ?pk (SetEvidence (e\<lparr>ev_canonical_sig := Some sig\<rparr>) u) = Inr t"
      using t by (auto split: sum.splits)
    then show ?thesis using double [of e u] u by (auto simp: GetEvidence_def split: if_splits option.splits)
  next
    case False
    then have "t = IndexRefundableMsg F enc req u" using t by simp
    then show ?thesis using fine False u by (simp add: IndexRefundableMsg_def HasEvidence_def)
  qed
qed


lemma AddFinalitySig_keeps_votes_ok:
  assumes ok: "votes_ok F s" and bind: "merkle_binding F" and t: "AddFinalitySig X F enc cx ep req s = Inr t"
  shows "votes_ok F t"
proof -
  let ?h = "fsg_block_height req" and ?pk = "fsg_fp_btc_pk req"
  obtain b fp pr sig where b: "kv_get (fs_blocks s) ?h = Some b"
    and req: "fsg_pub_rand req = Some pr" "fsg_finality_sig req = Some sig" and rev: "revealed_ok F s ?pk ?h pr"
    and ver: "vote_verifies F ?pk ?h pr (fsg_block_app_hash req) sig"
    and step: "(if ib_app_hash b \<noteq> fsg_block_app_hash req then vote_for_fork cx req b (SetPubRand ?pk ?h pr s)
      else vote_for_canonical F enc cx req fp (SetPubRand ?pk ?h pr s)) = Inr t"
    by (rule AddFinalitySig_Inr [OF t])
  note ext = votes_ok_extend [OF ok bind rev b, of t]
  show ?thesis
  proof (cases "ib_app_hash b = fsg_block_app_hash req")
    case False
    with step have "vote_for_fork cx req b (SetPubRand ?pk ?h pr s) = Inr t" by simp
    then show ?thesis
    proof (cases rule: vote_for_fork_cases)
      case (first e)
      then show ?thesis using ver by (intro ext) (auto simp: SetEvidence_def SetPubRand_def evidence_ok_def req split: if_splits)
    next
      case (double e c u)
      from double(2) obtain bs where "u = (SetPubRand ?pk ?h pr s)\<lparr>fs_bs := bs\<rparr>" by (rule slashFinalityProvider_Inr)
      with double(3,4) ver show ?thesis
        by (intro ext) (auto simp: SetEvidence_def SetPubRand_def evidence_ok_def req split: if_splits)
    qed
  next
    case True
    with step have "vote_for_canonical F enc cx req fp (SetPubRand ?pk ?h pr s) = Inr t" by simp
    from this req(2) show ?thesis
    proof (cases rule: vote_for_canonical_cases)
      case fine
      then show ?thesis using ver True by (intro ext) (auto simp: SetPubRand_def split: if_splits)
    next
      case (double e u)
      have e: "kv_get (fs_evidences s) (?pk, ?h) = Some e" using double(1) by (simp add: SetPubRand_def)
      then obtain pr' where "kv_get (fs_pub_rands s) (?pk, ?h) = Some pr'" and e_ok: "evidence_ok F ?pk ?h pr' b e"
        using votes_okD(3) [OF ok e] b by auto
      then have "pr' = pr" using revealed_unique [OF bind _ rev] votes_okD(1) [OF ok] by blast
      with e_ok have "evidence_ok F ?pk ?h pr b (e\<lparr>ev_canonical_sig := Some sig\<rparr>)" by (simp add: evidence_ok_def)
      moreover have "ev_fp_btc_pk e = ?pk" "ev_block_height e = ?h" using e_ok by (simp_all add: evidence_ok_def)
      moreover obtain bs where "t = (SetEvidence (e\<lparr>ev_canonical_sig := Some sig\<rparr>) u)\<lparr>fs_bs := bs\<rparr>"
        using double(9) by (rule slashFinalityProvider_Inr)
      ultimately show ?thesis using double(2-7) ver True
        by (intro ext) (auto simp: SetPubRand_def SetEvidence_def split: if_splits)
    qed
  qed
qed

lemma evidence_extract:
  assumes laws: "curve_laws (fx_curve F) n" and P: "pt_Parse (fx_curve F) pk = Inr (pt_BaseMult (fx_curve F) d)" "d mod n \<noteq> 0"
    and e: "evidence_ok F pk h pr b e" "ev_canonical_sig e = Some c" "vote_verifies F pk h pr (ib_app_hash b) c"
    and differ: "challenge (fx_curve F) (ToFieldValNormalized F pr) (pt_X (fx_curve F) (pt_BaseMult (fx_curve F) d))
          (eots_hash (fx_curve F) (canonicalMsgToSign e)) \<noteq>
        challenge (fx_curve F) (ToFieldValNormalized F pr) (pt_X (fx_curve F) (pt_BaseMult (fx_curve F) d))
          (eots_hash (fx_curve F) (forkMsgToSign e))"
  shows "\<exists>sk. ExtractBTCSK F e = Inr sk \<and> PubGen (fx_curve F) sk = pt_BaseMult (fx_curve F) d"
proof -
  obtain fork where f: "ev_fork_sig e = Some fork" "vote_verifies F pk h pr (ev_fork_app_hash e) fork"
    using e(1) by (auto simp: evidence_ok_def)
  have fields: "ev_fp_btc_pk e = pk" "ev_block_height e = h" "ev_pub_rand e = Some pr"
      "ev_canonical_app_hash e = ib_app_hash b" using e(1) by (simp_all add: evidence_ok_def)
  have "eots_Verify (fx_curve F) (pt_BaseMult (fx_curve F) d) (ToFieldValNormalized F pr) (canonicalMsgToSign e) (ToModNScalar F c) = Inr ()"
      "eots_Verify (fx_curve F) (pt_BaseMult (fx_curve F) d) (ToFieldValNormalized F pr) (forkMsgToSign e) (ToModNScalar F fork) = Inr ()"
    using e(3) f(2) P(1) by (simp_all add: vote_verifies_def canonicalMsgToSign_def forkMsgToSign_def fields)
  from extract_key [OF laws refl P(2) this differ]
  show ?thesis using e(2,3) f P(1)
    by (simp add: ExtractBTCSK_def IsSlashable_def Evidence_ValidateBasic_def fields vote_verifies_def)
qed

lemma slashFinalityProvider_marks:
  assumes "slashFinalityProvider cx pk s = Inr t" and "fps_ok (fs_bs s)"
  shows "\<exists>fp. kv_get (bs_fps (fs_bs t)) pk = Some fp \<and> fp_slashed_anon_height fp = to_u64 (ctx_height cx)"
proof -
  obtain b where "t = s\<lparr>fs_bs := b\<rparr>" and b: "SlashFinalityProvider cx pk (fs_bs s) = Inr b"
    using assms(1) by (rule slashFinalityProvider_Inr)
  moreover from b have "\<exists>fp. kv_get (bs_fps b) pk = Some fp \<and> fp_slashed_anon_height fp = to_u64 (ctx_height cx)"
    by (rule SlashFinalityProvider_Inr) (use fps_ok_get [OF assms(2)] in \<open>auto simp: SetFinalityProvider_def\<close>)
  ultimately show ?thesis by simp
qed


text \<open>C8: every counted vote and every stored evidence is backed by valid signatures.  As long as the
  Merkle proofs bind the committed randomness, each accepted vote message keeps the invariant that a
  revealed randomness is the committed one, that a counted vote is a valid signature over the canonical
  block under that randomness, and that an evidence holds a valid signature over another block under the
  same randomness.\<close>

theorem AddFinalitySig_votes_ok:
  assumes "votes_ok F s" and "merkle_binding F" and "AddFinalitySig X F enc cx ep req s = Inr t"
  shows "votes_ok F t"
  using assms by (rule AddFinalitySig_keeps_votes_ok)

text \<open>C7: double votes are slashed and give away the key.  When a finality provider whose vote for the
  canonical block is counted votes for a fork at the same height, or one with an evidence for a fork
  votes for the canonical block, the accepted message leaves the finality provider slashed at the current
  height and an evidence from which \<open>ExtractBTCSK\<close> recovers a secret key of its public key, unless the
  two signed messages have the same challenge.\<close>

theorem AddFinalitySig_double_vote:
  assumes ok: "votes_ok F s" and bind: "merkle_binding F" and laws: "curve_laws (fx_curve F) n" and fps: "fps_ok (fs_bs s)"
    and t: "AddFinalitySig X F enc cx ep req s = Inr t"
    and key: "pt_Parse (fx_curve F) (fsg_fp_btc_pk req) = Inr (pt_BaseMult (fx_curve F) d)" "d mod n \<noteq> 0"
    and b: "kv_get (fs_blocks s) (fsg_block_height req) = Some b"
    and twice: "if ib_app_hash b \<noteq> fsg_block_app_hash req
      then HasSig s (fsg_block_height req) (fsg_fp_btc_pk req) \<and> fsg_block_height req \<le> to_u64 (ctx_height cx)
      else HasEvidence s (fsg_fp_btc_pk req) (fsg_block_height req)"
  shows "\<exists>fp e pr. kv_get (bs_fps (fs_bs t)) (fsg_fp_btc_pk req) = Some fp \<and>
      fp_slashed_anon_height fp = to_u64 (ctx_height cx) \<and>
      kv_get (fs_evidences t) (fsg_fp_btc_pk req, fsg_block_height req) = Some e \<and>
      ev_canonical_app_hash e = ib_app_hash b \<and> fsg_pub_rand req = Some pr \<and>
      (challenge (fx_curve F) (ToFieldValNormalized F pr) (pt_X (fx_curve F) (pt_BaseMult (fx_curve F) d))
          (eots_hash (fx_curve F) (canonicalMsgToSign e)) \<noteq>
        challenge (fx_curve F) (ToFieldValNormalized F pr) (pt_X (fx_curve F) (pt_BaseMult (fx_curve F) d))
          (eots_hash (fx_curve F) (forkMsgToSign e)) \<longrightarrow>
        (\<exists>sk. ExtractBTCSK F e = Inr sk \<and> PubGen (fx_curve F) sk = pt_BaseMult (fx_curve F) d))"
proof -
  let ?h = "fsg_block_height req" and ?pk = "fsg_fp_btc_pk req"
  obtain fp pr sig where req: "fsg_pub_rand req = Some pr" "fsg_finality_sig req = Some sig"
    and ver: "vote_verifies F ?pk ?h pr (fsg_block_app_hash req) sig" and rev: "revealed_ok F s ?pk ?h pr"
    and step: "(if ib_app_hash b \<noteq> fsg_block_app_hash req then vote_for_fork cx req b (SetPubRand ?pk ?h pr s)
      else vote_for_canonical F enc cx req fp (SetPubRand ?pk ?h pr s)) = Inr t"
    using AddFinalitySig_Inr [OF t] b by (metis option.inject)
  have "\<exists>e c. kv_get (fs_evidences t) (?pk, ?h) = Some e \<and> evidence_ok F ?pk ?h pr b e \<and> ev_canonical_sig e = Some c \<and>
      vote_verifies F ?pk ?h pr (ib_app_hash b) c \<and>
      (\<exists>fp. kv_get (bs_fps (fs_bs t)) ?pk = Some fp \<and> fp_slashed_anon_height fp = to_u64 (ctx_height cx))"
  proof (cases "ib_app_hash b = fsg_block_app_hash req")
    case False
    with step have fork: "vote_for_fork cx req b (SetPubRand ?pk ?h pr s) = Inr t" by simp
    obtain c where c: "kv_get (fs_votes s) (?h, ?pk) = Some c" "?h \<le> to_u64 (ctx_height cx)"
      using twice False by (auto simp: HasSig_def kv_has_def)
    then obtain pr' where "kv_get (fs_pub_rands s) (?pk, ?h) = Some pr'" and c_ok: "vote_verifies F ?pk ?h pr' (ib_app_hash b) c"
      using votes_okD(2) [OF ok c(1)] b by auto
    then have same: "pr' = pr" using revealed_unique [OF bind _ rev] votes_okD(1) [OF ok] by blast
    have found: "GetSig cx (SetPubRand ?pk ?h pr s) ?h ?pk = Inr c"
      using c c_ok by (auto simp: GetSig_def SetPubRand_def NewSchnorrEOTSSig_def vote_verifies_def SchnorrEOTSSigLen_def)
    from fork show ?thesis
    proof (cases rule: vote_for_fork_cases)
      case (first e)
      with found show ?thesis by simp
    next
      case (double e c' u)
      from double(2) have "\<exists>fp. kv_get (bs_fps (fs_bs u)) ?pk = Some fp \<and> fp_slashed_anon_height fp = to_u64 (ctx_height cx)"
        by (rule slashFinalityProvider_marks) (simp add: SetPubRand_def fps)
      with double ver c_ok same found show ?thesis
        by (auto simp: SetEvidence_def evidence_ok_def req)
    qed
  next
    case True
    with step have "vote_for_canonical F enc cx req fp (SetPubRand ?pk ?h pr s) = Inr t" by simp
    from this req(2) show ?thesis
    proof (cases rule: vote_for_canonical_cases)
      case fine
      with twice True show ?thesis by (simp add: HasEvidence_def SetPubRand_def)
    next
      case (double e u)
      have e: "kv_get (fs_evidences s) (?pk, ?h) = Some e" using double(1) by (simp add: SetPubRand_def)
      then obtain pr' where "kv_get (fs_pub_rands s) (?pk, ?h) = Some pr'" and e_ok: "evidence_ok F ?pk ?h pr' b e"
        using votes_okD(3) [OF ok e] b by auto
      then have "pr' = pr" using revealed_unique [OF bind _ rev] votes_okD(1) [OF ok] by blast
      moreover have "\<exists>fp. kv_get (bs_fps (fs_bs t)) ?pk = Some fp \<and> fp_slashed_anon_height fp = to_u64 (ctx_height cx)"
        using double(9) by (rule slashFinalityProvider_marks)
          (use double(8) fps in \<open>simp add: SetPubRand_def SetEvidence_def\<close>)
      moreover obtain bs where "t = (SetEvidence (e\<lparr>ev_canonical_sig := Some sig\<rparr>) u)\<lparr>fs_bs := bs\<rparr>"
        using double(9) by (rule slashFinalityProvider_Inr)
      ultimately show ?thesis using e_ok ver True by (auto simp: SetEvidence_def evidence_ok_def)
    qed
  qed
  then show ?thesis using evidence_extract [OF laws key] req(1)
    unfolding evidence_ok_def by blast
qed


text \<open>A finality provider with the secret key 3 on the curve of order seven, which voted for the block at
  height 4 and then signs another block there; its one committed randomness is its own Merkle root.\<close>

definition voting_ext :: "int fin_ext" where
  "voting_ext = \<lparr>fx_curve = small_curve, fx_ProofFromProto = \<lambda>_. Inr (),
     fx_ProofVerify = \<lambda>_ root leaf. if root = leaf then Inr () else Inl (Errorf ''invalid root''),
     fx_FieldSetByteSlice = \<lambda>b. (b, False), fx_FieldNormalize = \<lambda>b. b,
     fx_tmhash = \<lambda>b. b, fx_ParseSignature = Inr, fx_SchnorrVerify = \<lambda>_ _ _. True,
     fx_MulInt64Round = \<lambda>d n. d * n div 10 ^ 18\<rparr>"

definition ending_in :: "byte \<Rightarrow> bytes" where
  "ending_in x = replicate 31 0 @ [x]"

definition voting_commit :: PubRandCommit where
  "voting_commit = \<lparr>pc_start_height = 4, pc_num_pub_rand = 1, pc_commitment = ending_in 2, pc_epoch_num = 1\<rparr>"

definition voting_state :: "int fin_state" where
  "voting_state = fin_empty\<lparr>
     fs_bs := bs_empty\<lparr>bs_fps := [(ending_in 3,
       \<lparr>fp_addr = ''a'', fp_description = None, fp_commission = None, fp_btc_pk = ending_in 3, fp_pop = None,
        fp_slashed_anon_height = 0, fp_slashed_btc_height = 0, fp_jailed = False, fp_highest_voted_height = 4,
        fp_commission_info = None\<rparr>)]\<rparr>,
     fs_blocks := [(4, \<lparr>ib_height = 4, ib_app_hash = ending_in 0, ib_finalized = False\<rparr>)],
     fs_power := [((4, ending_in 3), 1)],
     fs_pub_rand_idx := [(ending_in 3, [4])],
     fs_pub_rand_commits := [((ending_in 3, 4), voting_commit)],
     fs_pub_rands := [((ending_in 3, 4), ending_in 2)],
     fs_votes := [((4, ending_in 3), ending_in 1)]\<rparr>"

definition fork_vote :: MsgAddFinalitySig where
  "fork_vote = \<lparr>fsg_signer = ''a'', fsg_fp_btc_pk = ending_in 3, fsg_block_height = 4, fsg_pub_rand = Some (ending_in 2),
     fsg_proof = Some \<lparr>pf_total = 1, pf_index = 0, pf_leaf_hash = [], pf_aunts = []\<rparr>, fsg_block_app_hash = ending_in 1,
     fsg_finality_sig = Some (ending_in 4)\<rparr>"

lemma voting_laws: "curve_laws (fx_curve voting_ext) 7" "merkle_binding voting_ext" "fps_ok (fs_bs voting_state)"
  by (simp_all add: voting_ext_def small_curve_laws merkle_binding_def voting_state_def fps_ok_def kv_ok_def)

lemma voting_signatures:
  "eots_Verify small_curve 3 (ending_in 2) (msgToSignForVote 4 (ending_in 0)) (fst (sc_SetBytes small_curve (ending_in 1))) = Inr ()"
  "eots_Verify small_curve 3 (ending_in 2) (msgToSignForVote 4 (ending_in 1)) (fst (sc_SetBytes small_curve (ending_in 4))) = Inr ()"
  by code_simp+

lemma voting_verifies:
  "vote_verifies voting_ext (ending_in 3) 4 (ending_in 2) (ending_in 0) (ending_in 1)"
  "vote_verifies voting_ext (ending_in 3) 4 (ending_in 2) (ending_in 1) (ending_in 4)"
  using voting_signatures
  by (simp_all add: vote_verifies_def voting_ext_def ToFieldValNormalized_def ToModNScalar_def SchnorrEOTSSigLen_def)
    (simp_all add: ending_in_def small_curve_def)

lemma voting_state_ok: "votes_ok voting_ext voting_state"
proof -
  have c: "GetPubRandCommitForHeight voting_state (ending_in 3) 4 = Inr voting_commit"
    by code_simp
  have r: "revealed_ok voting_ext voting_state (ending_in 3) 4 (ending_in 2)"
    unfolding revealed_ok_def
    by (intro exI [of _ voting_commit] exI [of _ "\<lparr>pf_total = 1, pf_index = 0, pf_leaf_hash = [], pf_aunts = []\<rparr>"])
      (simp add: c, simp add: voting_commit_def voting_ext_def to_u64_def)
  show ?thesis
    by (rule votes_okI) (use r voting_verifies(1) in \<open>auto simp: voting_state_def fin_empty_def split: if_splits\<close>)
qed

definition voting_epochs :: ep_state where
  "voting_epochs = \<lparr>es_epochs = [], es_interval = 10\<rparr>"

lemma fork_vote_accepted:
  obtains t where "AddFinalitySig ext_accepting voting_ext (\<lambda>_. []) example_ctx voting_epochs fork_vote voting_state = Inr t"
proof -
  have "\<not> isl (AddFinalitySig ext_accepting voting_ext (\<lambda>_. []) example_ctx voting_epochs fork_vote voting_state)"
    by code_simp
  then show ?thesis
    by (cases "AddFinalitySig ext_accepting voting_ext (\<lambda>_. []) example_ctx voting_epochs fork_vote voting_state")
      (auto intro: that)
qed

theorem AddFinalitySig_votes_ok_witness:
  "\<exists>t. AddFinalitySig ext_accepting voting_ext (\<lambda>_. []) example_ctx voting_epochs fork_vote voting_state = Inr t \<and>
     votes_ok voting_ext t"
proof -
  obtain t where "AddFinalitySig ext_accepting voting_ext (\<lambda>_. []) example_ctx voting_epochs fork_vote voting_state = Inr t"
    by (rule fork_vote_accepted)
  with AddFinalitySig_votes_ok [OF voting_state_ok voting_laws(2) this] show ?thesis by blast
qed

theorem AddFinalitySig_double_vote_witness:
  "\<exists>t fp e. AddFinalitySig ext_accepting voting_ext (\<lambda>_. []) example_ctx voting_epochs fork_vote voting_state = Inr t \<and>
     kv_get (bs_fps (fs_bs t)) (ending_in 3) = Some fp \<and> fp_slashed_anon_height fp = 5 \<and>
     kv_get (fs_evidences t) (ending_in 3, 4) = Some e \<and> ev_canonical_app_hash e = ending_in 0"
proof -
  obtain t where t: "AddFinalitySig ext_accepting voting_ext (\<lambda>_. []) example_ctx voting_epochs fork_vote voting_state = Inr t"
    by (rule fork_vote_accepted)
  have key: "pt_Parse (fx_curve voting_ext) (fsg_fp_btc_pk fork_vote) = Inr (pt_BaseMult (fx_curve voting_ext) 3)"
    "(3 :: int) mod 7 \<noteq> 0" by (simp_all add: voting_ext_def fork_vote_def ending_in_def small_curve_def)
  have b: "kv_get (fs_blocks voting_state) (fsg_block_height fork_vote) =
      Some \<lparr>ib_height = 4, ib_app_hash = ending_in 0, ib_finalized = False\<rparr>"
    by (simp add: voting_state_def fin_empty_def fork_vote_def)
  have twice: "if ending_in 0 \<noteq> fsg_block_app_hash fork_vote
      then HasSig voting_state (fsg_block_height fork_vote) (fsg_fp_btc_pk fork_vote) \<and>
        fsg_block_height fork_vote \<le> to_u64 (ctx_height example_ctx)
      else HasEvidence voting_state (fsg_fp_btc_pk fork_vote) (fsg_block_height fork_vote)"
    by code_simp
  show ?thesis
    using AddFinalitySig_double_vote [OF voting_state_ok voting_laws(2,1,3) t key b] twice t
    by (auto simp: fork_vote_def example_ctx_def to_u64_def)
qed

end
