(* ===== verification/Finality_Liveness.thy ===== *)
theory Finality_Liveness
  imports Finality_Msg
begin

text \<open>
  Liveness of finality providers (\<open>keeper/liveness.go\<close>, \<open>keeper/signing_info.go\<close>): the bitmap of missed
  blocks of each active finality provider over a sliding window, the counter beside it, and the jailing
  of a finality provider that missed too many blocks.

  A chunk of the bitmap is the encoding of a bit set of the package \<open>bits-and-blooms/bitset\<close>, whose
  operations are the fields of \<open>bitset_ops\<close>; \<open>bitset_laws\<close> is what the proofs need of them.  The lemmas
  relate counter and bitmap to the history of missed blocks.
\<close>

section \<open>The bitmap of missed blocks\<close>

record 'b bitset_ops =
  bst_New :: "nat \<Rightarrow> 'b"
  bst_UnmarshalBinary :: "bytes \<Rightarrow> 'b res"
  bst_MarshalBinary :: "'b \<Rightarrow> bytes res"
  bst_Set :: "nat \<Rightarrow> 'b \<Rightarrow> 'b"
  bst_Clear :: "nat \<Rightarrow> 'b \<Rightarrow> 'b"
  bst_Test :: "'b \<Rightarrow> nat \<Rightarrow> bool"

definition MissedBlockBitmapChunkSize :: i64 where
  "MissedBlockBitmapChunkSize = 1024"

definition getMissedBlockBitmapChunk :: "'c fin_state \<Rightarrow> BIP340PubKey \<Rightarrow> i64 \<Rightarrow> bytes option" where
  "getMissedBlockBitmapChunk s fpPk chunkIndex = kv_get (fs_bitmap s) (fpPk, to_u64 chunkIndex)"

definition SetMissedBlockBitmapChunk :: "BIP340PubKey \<Rightarrow> i64 \<Rightarrow> bytes \<Rightarrow> 'c fin_state \<Rightarrow> 'c fin_state" where
  "SetMissedBlockBitmapChunk fpPk chunkIndex chunk s =
     s\<lparr>fs_bitmap := kv_set (fpPk, to_u64 chunkIndex) chunk (fs_bitmap s)\<rparr>"

text \<open>The bit set of a chunk, empty when the chunk is not stored.\<close>

definition bitset_of_chunk :: "'b bitset_ops \<Rightarrow> 'c fin_state \<Rightarrow> BIP340PubKey \<Rightarrow> i64 \<Rightarrow> 'b res" where
  "bitset_of_chunk B s fpPk chunkIndex =
     (case getMissedBlockBitmapChunk s fpPk chunkIndex of
        None \<Rightarrow> Inr (bst_New B (nat MissedBlockBitmapChunkSize))
      | Some chunk \<Rightarrow>
          (case bst_UnmarshalBinary B chunk of
             Inl _ \<Rightarrow> Inl (Errorf ''failed to decode bitmap chunk'')
           | Inr bs \<Rightarrow> Inr bs))"

definition GetMissedBlockBitmapValue ::
  "'b bitset_ops \<Rightarrow> 'c fin_state \<Rightarrow> BIP340PubKey \<Rightarrow> i64 \<Rightarrow> bool res" where
  "GetMissedBlockBitmapValue B s fpPk index =
     rbind (bitset_of_chunk B s fpPk (index sdiv MissedBlockBitmapChunkSize)) (\<lambda>bs.
       let bitIndex = index smod MissedBlockBitmapChunkSize
       in Inr (bst_Test B bs (unat (to_u64 bitIndex))))"

definition SetMissedBlockBitmapValue ::
  "'b bitset_ops \<Rightarrow> BIP340PubKey \<Rightarrow> i64 \<Rightarrow> bool \<Rightarrow> 'c fin_state \<Rightarrow> 'c fin_state res" where
  "SetMissedBlockBitmapValue B fpPk index missed s =
     (let chunkIndex = index sdiv MissedBlockBitmapChunkSize
      in rbind (bitset_of_chunk B s fpPk chunkIndex) (\<lambda>bs.
         let bitIndex = unat (to_u64 (index smod MissedBlockBitmapChunkSize));
             bs' = (if missed then bst_Set B bitIndex bs else bst_Clear B bitIndex bs)
         in case bst_MarshalBinary B bs' of
              Inl _ \<Rightarrow> Inl (Errorf ''failed to encode bitmap chunk'')
            | Inr updatedChunk \<Rightarrow> Inr (SetMissedBlockBitmapChunk fpPk chunkIndex updatedChunk s)))"

definition DeleteMissedBlockBitmap :: "BIP340PubKey \<Rightarrow> 'c fin_state \<Rightarrow> 'c fin_state" where
  "DeleteMissedBlockBitmap fpPk s = s\<lparr>fs_bitmap := kv_clear_prefix fpPk (fs_bitmap s)\<rparr>"

text \<open>The walk over the stored chunks: a callback that stops leaves its chunk, and the index counts the
  callbacks, not the position of the chunk.\<close>

fun chunk_walk :: "(i64 \<Rightarrow> bool \<Rightarrow> 'a \<Rightarrow> bool \<times> 'a) \<Rightarrow> bool list \<Rightarrow> i64 \<times> 'a \<Rightarrow> i64 \<times> 'a" where
  "chunk_walk cb [] (index, a) = (index, a)"
| "chunk_walk cb (missed # rest) (index, a) =
     (let (stop, a') = cb index missed a
      in if stop then (index, a') else chunk_walk cb rest (wrap64 (index + 1), a'))"

definition IterateMissedBlockBitmap ::
  "'b bitset_ops \<Rightarrow> 'c fin_state \<Rightarrow> BIP340PubKey \<Rightarrow> (i64 \<Rightarrow> bool \<Rightarrow> 'a \<Rightarrow> bool \<times> 'a) \<Rightarrow> 'a \<Rightarrow> 'a res" where
  "IterateMissedBlockBitmap B s fpPk cb a =
     rbind (rfold (\<lambda>chunk acc.
              case bst_UnmarshalBinary B chunk of
                Inl _ \<Rightarrow> Inl (Errorf ''failed to decode bitmap chunk'')
              | Inr bs \<Rightarrow> Inr (chunk_walk cb (map (bst_Test B bs) [0 ..< nat MissedBlockBitmapChunkSize]) acc))
              (map snd (kv_prefix fpPk (fs_bitmap s))) (0, a)) (\<lambda>acc. Inr (snd acc))"

record MissedBlock =
  mb_index :: i64
  mb_missed :: bool

definition GetFinalityProviderMissedBlocks ::
  "'b bitset_ops \<Rightarrow> 'c fin_state \<Rightarrow> BIP340PubKey \<Rightarrow> MissedBlock list res" where
  "GetFinalityProviderMissedBlocks B s fpPk =
     IterateMissedBlockBitmap B s fpPk
       (\<lambda>index missed missedBlocks. (False, if missed then missedBlocks @ [\<lparr>mb_index = index, mb_missed = missed\<rparr>] else missedBlocks)) []"

section \<open>Updating the signing information\<close>

definition UpdateSigningInfo ::
  "'b bitset_ops \<Rightarrow> BIP340PubKey \<Rightarrow> bool \<Rightarrow> i64 \<Rightarrow> 'c fin_state \<Rightarrow>
   (bool \<times> FinalityProviderSigningInfo \<times> 'c fin_state) res" where
  "UpdateSigningInfo B fpPk missed height s =
     (case kv_get (fs_signing_infos s) fpPk of
        None \<Rightarrow> Inl (Errorf ''the signing info is not created'')
      | Some signInfo \<Rightarrow>
          let signedBlocksWindow = pm_signed_blocks_window (fin_GetParams s)
          in if sg_start_height signInfo > height then Inr (False, signInfo, s)
             else if signedBlocksWindow = 0 then Inl (Panic ''integer divide by zero'')
             else
               let index = wrap64 (height - sg_start_height signInfo) smod signedBlocksWindow
               in case GetMissedBlockBitmapValue B s fpPk index of
                    Inl _ \<Rightarrow> Inl (Errorf ''failed to get the finality provider's bitmap value'')
                  | Inr previous \<Rightarrow>
                      if \<not> previous \<and> missed
                      then rbind (SetMissedBlockBitmapValue B fpPk index True s) (\<lambda>t.
                             Inr (True, IncrementMissedBlocksCounter signInfo, t))
                      else if previous \<and> \<not> missed
                      then rbind (SetMissedBlockBitmapValue B fpPk index False s) (\<lambda>t.
                             Inr (True, DecrementMissedBlocksCounter signInfo, t))
                      else Inr (False, signInfo, s))"

definition jailSluggishFinalityProvider :: "ctx \<Rightarrow> BIP340PubKey \<Rightarrow> 'c fin_state \<Rightarrow> 'c fin_state res" where
  "jailSluggishFinalityProvider cx fpBtcPk s =
     rbind (JailFinalityProvider cx fpBtcPk (fs_bs s)) (\<lambda>b. Inr (s\<lparr>fs_bs := b\<rparr>))"

definition set_signing_info :: "BIP340PubKey \<Rightarrow> FinalityProviderSigningInfo \<Rightarrow> 'c fin_state \<Rightarrow> 'c fin_state" where
  "set_signing_info fpPk info s = s\<lparr>fs_signing_infos := kv_set fpPk info (fs_signing_infos s)\<rparr>"

definition HandleFinalityProviderLiveness ::
  "'b bitset_ops \<Rightarrow> 'p fin_ext \<Rightarrow> ctx \<Rightarrow> BIP340PubKey \<Rightarrow> bool \<Rightarrow> i64 \<Rightarrow> 'c fin_state \<Rightarrow> 'c fin_state res" where
  "HandleFinalityProviderLiveness B F cx fpPk missed height s =
     (let params = fin_GetParams s
      in rbind (GetFinalityProvider (fs_bs s) fpPk) (\<lambda>fp.
         if FinalityProvider_IsSlashed fp \<or> FinalityProvider_IsJailed fp then Inr s
         else
           rbind (UpdateSigningInfo B fpPk missed height s) (\<lambda>(updated, signInfo, s1).
           rbind (MinSignedPerWindowInt F params) (\<lambda>minSignedPerWindow.
             let signedBlocksWindow = pm_signed_blocks_window params;
                 minHeight = wrap64 (sg_start_height signInfo + signedBlocksWindow);
                 maxMissed = wrap64 (signedBlocksWindow - minSignedPerWindow)
             in if height > minHeight \<and> sg_missed_blocks_counter signInfo > maxMissed
                then (case jailSluggishFinalityProvider cx fpPk s1 of
                        Inl _ \<Rightarrow> Inl (Errorf ''failed to jail sluggish finality provider'')
                      | Inr s2 \<Rightarrow>
                          Inr (set_signing_info fpPk
                                 (signInfo\<lparr>sg_jailed_until := ctx_time cx + pm_jail_duration params,
                                           sg_missed_blocks_counter := 0\<rparr>)
                                 (DeleteMissedBlockBitmap fpPk s2)))
                else if updated then Inr (set_signing_info fpPk signInfo s1)
                else Inr s1))))"

definition HandleLiveness ::
  "'b bitset_ops \<Rightarrow> 'p fin_ext \<Rightarrow> ctx \<Rightarrow> i64 \<Rightarrow> 'c fin_state \<Rightarrow> 'c fin_state res" where
  "HandleLiveness B F cx height s =
     rbind (GetVotingPowerTableOrdered s (to_u64 height)) (\<lambda>vpTableOrdered.
     rbind (GetVoters s (to_u64 height)) (\<lambda>voterBTCPKs.
       rfold (\<lambda>(fpPk, _) t.
                case HandleFinalityProviderLiveness B F cx fpPk (\<not> kv_has voterBTCPKs (MarshalHex fpPk)) height t of
                  Inl _ \<Rightarrow> Inl (Panic ''failed to handle liveness of finality provider'')
                | Inr t' \<Rightarrow> Inr t') vpTableOrdered s))"

section \<open>Bits of the bitmap\<close>

definition bitset_laws :: "'b bitset_ops \<Rightarrow> bool" where
  "bitset_laws B \<longleftrightarrow>
     (\<forall>n i. \<not> bst_Test B (bst_New B n) i) \<and>
     (\<forall>b i j. bst_Test B (bst_Set B i b) j \<longleftrightarrow> j = i \<or> bst_Test B b j) \<and>
     (\<forall>b i j. bst_Test B (bst_Clear B i b) j \<longleftrightarrow> j \<noteq> i \<and> bst_Test B b j) \<and>
     (\<forall>b. \<exists>x b'. bst_MarshalBinary B b = Inr x \<and> bst_UnmarshalBinary B x = Inr b' \<and> bst_Test B b' = bst_Test B b)"

lemma bitset_lawsD:
  assumes "bitset_laws B"
  shows "\<not> bst_Test B (bst_New B n) i"
    "bst_Test B (bst_Set B i b) j \<longleftrightarrow> j = i \<or> bst_Test B b j"
    "bst_Test B (bst_Clear B i b) j \<longleftrightarrow> j \<noteq> i \<and> bst_Test B b j"
    "\<exists>x b'. bst_MarshalBinary B b = Inr x \<and> bst_UnmarshalBinary B x = Inr b' \<and> bst_Test B b' = bst_Test B b"
  using assms by (simp_all add: bitset_laws_def)

lemma signed_div_nonneg:
  fixes i :: int
  assumes "0 \<le> i" and "0 < n"
  shows "i sdiv n = i div n" "i smod n = i mod n"
  using assms by (simp_all add: signed_divide_int_def signed_modulo_int_def minus_div_mult_eq_mod [symmetric] sgn_if)

lemma chunk_position:
  fixes i j :: nat
  assumes "i < 2 ^ 63" "j < 2 ^ 63"
  shows "to_u64 (int i div 1024) = to_u64 (int j div 1024) \<and> unat (to_u64 (int i mod 1024)) = unat (to_u64 (int j mod 1024))
    \<longleftrightarrow> i = j"
proof -
  have inj: "to_u64 x = to_u64 y \<longleftrightarrow> x = y" if "0 \<le> x" "x < 2 ^ 63" "0 \<le> y" "y < 2 ^ 63" for x y
  proof
    assume "to_u64 x = to_u64 y"
    then have "unat (to_u64 x) = unat (to_u64 y)" by simp
    with that show "x = y" by (simp add: unat_to_u64)
  qed simp
  have le: "x div 1024 \<le> x" if "0 \<le> x" for x :: int using that zdiv_mono2 [of x 1 1024] by simp
  have "to_u64 (int i div 1024) = to_u64 (int j div 1024) \<longleftrightarrow> int i div 1024 = int j div 1024"
    by (rule inj) (use assms le [of "int i"] le [of "int j"] in \<open>simp_all add: pos_imp_zdiv_nonneg_iff\<close>)
  moreover have "unat (to_u64 (int i mod 1024)) = unat (to_u64 (int j mod 1024)) \<longleftrightarrow> int i mod 1024 = int j mod 1024"
    by (simp add: unat_to_u64 eq_nat_nat_iff)
  moreover have "int i div 1024 = int j div 1024 \<and> int i mod 1024 = int j mod 1024 \<longleftrightarrow> i = j"
  proof
    assume e: "int i div 1024 = int j div 1024 \<and> int i mod 1024 = int j mod 1024"
    have "int i = int i div 1024 * 1024 + int i mod 1024" by (rule div_mult_mod_eq [symmetric])
    also have "\<dots> = int j div 1024 * 1024 + int j mod 1024" using e by simp
    also have "\<dots> = int j" by (rule div_mult_mod_eq)
    finally show "i = j" by simp
  qed simp
  ultimately show ?thesis by simp
qed

lemma SetMissedBlockBitmapValue_bits:
  assumes B: "bitset_laws B" and i: "i < 2 ^ 63" and get: "GetMissedBlockBitmapValue B s pk (int i) = Inr v"
  obtains t where "SetMissedBlockBitmapValue B pk (int i) w s = Inr t"
    "\<forall>pk' j. j < 2 ^ 63 \<longrightarrow> GetMissedBlockBitmapValue B t pk' (int j) =
       (if pk' = pk \<and> j = i then Inr w else GetMissedBlockBitmapValue B s pk' (int j))"
    "\<exists>m. t = s\<lparr>fs_bitmap := m\<rparr>"
proof -
  let ?c = "int i div 1024" and ?b = "unat (to_u64 (int i mod 1024))"
  obtain bs where bs: "bitset_of_chunk B s pk ?c = Inr bs"
    using get by (auto simp: GetMissedBlockBitmapValue_def MissedBlockBitmapChunkSize_def signed_div_nonneg rbind_eq_Inr)
  define bs' where "bs' = (if w then bst_Set B ?b bs else bst_Clear B ?b bs)"
  obtain x b' where x: "bst_MarshalBinary B bs' = Inr x" "bst_UnmarshalBinary B x = Inr b'" "bst_Test B b' = bst_Test B bs'"
    using bitset_lawsD(4) [OF B] by blast
  define t where "t = SetMissedBlockBitmapChunk pk ?c x s"
  have set: "SetMissedBlockBitmapValue B pk (int i) w s = Inr t"
    using bs x(1) by (simp add: SetMissedBlockBitmapValue_def MissedBlockBitmapChunkSize_def signed_div_nonneg bs'_def t_def)
  have test: "bst_Test B bs' k = (if k = ?b then w else bst_Test B bs k)" for k
    by (simp add: bs'_def bitset_lawsD(2,3) [OF B])
  have bits: "GetMissedBlockBitmapValue B t pk' (int j) =
       (if pk' = pk \<and> j = i then Inr w else GetMissedBlockBitmapValue B s pk' (int j))" if j: "j < 2 ^ 63" for pk' j
  proof (cases "pk' = pk \<and> to_u64 (int j div 1024) = to_u64 ?c")
    case True
    then have "bitset_of_chunk B t pk' (int j div 1024) = Inr b'" "bitset_of_chunk B s pk' (int j div 1024) = Inr bs"
      using bs x(2) by (simp_all add: bitset_of_chunk_def t_def SetMissedBlockBitmapChunk_def getMissedBlockBitmapChunk_def)
    then show ?thesis using True chunk_position [OF j i]
      by (simp add: GetMissedBlockBitmapValue_def MissedBlockBitmapChunkSize_def signed_div_nonneg x(3) test)
  next
    case False
    then have "bitset_of_chunk B t pk' (int j div 1024) = bitset_of_chunk B s pk' (int j div 1024)"
      by (auto simp: bitset_of_chunk_def t_def SetMissedBlockBitmapChunk_def getMissedBlockBitmapChunk_def)
    then show ?thesis using False chunk_position [OF j i]
      by (auto simp: GetMissedBlockBitmapValue_def MissedBlockBitmapChunkSize_def signed_div_nonneg)
  qed
  show ?thesis
  proof (rule that)
    show "\<exists>m. t = s\<lparr>fs_bitmap := m\<rparr>" unfolding t_def SetMissedBlockBitmapChunk_def by blast
  qed (rule set, blast intro: bits)
qed

lemma DeleteMissedBlockBitmap_bits:
  assumes "bitset_laws B"
  shows "GetMissedBlockBitmapValue B (DeleteMissedBlockBitmap pk s) pk i = Inr False"
  using bitset_lawsD(1) [OF assms]
  by (simp add: GetMissedBlockBitmapValue_def bitset_of_chunk_def getMissedBlockBitmapChunk_def
      DeleteMissedBlockBitmap_def kv_get_clear_prefix)

section \<open>The sliding window\<close>

text \<open>The reference: the number of missed blocks among the last \<open>W\<close> of a history, and the bit that the
  ring of \<open>W\<close> positions holds for it.\<close>

definition missed_in_window :: "nat \<Rightarrow> bool list \<Rightarrow> nat" where
  "missed_in_window W hist = length (filter id (drop (length hist - W) hist))"

definition window_bit :: "nat \<Rightarrow> bool list \<Rightarrow> nat \<Rightarrow> bool" where
  "window_bit W hist j \<longleftrightarrow> (\<exists>k < length hist. length hist \<le> k + W \<and> k mod W = j \<and> hist ! k)"

lemma same_slot:
  fixes k n W :: nat
  assumes "k < n" "n \<le> k + W" "k mod W = n mod W"
  shows "k + W = n"
proof -
  have "(n - k) mod W = 0" using assms by (metis mod_eq_dvd_iff_nat dvd_imp_mod_0 less_imp_le)
  then obtain q where q: "n - k = W * q" by (meson mod_0_imp_dvd dvdE)
  with assms have "q \<noteq> 0" by (intro notI) simp
  moreover have "W * q \<le> W" unfolding q [symmetric] using assms by simp
  then have "q \<le> 1" using assms by (cases "W = 0") auto
  ultimately have "q = 1" by simp
  then show ?thesis using q assms by simp
qed

lemma window_bit_oldest:
  assumes "0 < W"
  shows "window_bit W hist (length hist mod W) \<longleftrightarrow> W \<le> length hist \<and> hist ! (length hist - W)"
proof
  assume "window_bit W hist (length hist mod W)"
  then obtain k where k: "k < length hist" "length hist \<le> k + W" "k mod W = length hist mod W" "hist ! k"
    by (auto simp: window_bit_def)
  then have "k + W = length hist" by (intro same_slot)
  then have "k = length hist - W" "W \<le> length hist" by simp_all
  with k(4) show "W \<le> length hist \<and> hist ! (length hist - W)" by simp
next
  assume "W \<le> length hist \<and> hist ! (length hist - W)"
  then show "window_bit W hist (length hist mod W)"
    unfolding window_bit_def using assms
    by (intro exI [of _ "length hist - W"]) (auto simp: le_mod_geq)
qed

lemma window_bit_snoc:
  assumes "0 < W"
  shows "window_bit W (hist @ [m]) j = (if j = length hist mod W then m else window_bit W hist j)"
proof (cases "j = length hist mod W")
  case True
  have "window_bit W (hist @ [m]) j \<longleftrightarrow> m"
  proof
    assume "window_bit W (hist @ [m]) j"
    then obtain k where k: "k < Suc (length hist)" "Suc (length hist) \<le> k + W" "k mod W = length hist mod W" "(hist @ [m]) ! k"
      using True by (auto simp: window_bit_def)
    then have "k = length hist" using same_slot [of k "length hist" W] by (cases "k < length hist") auto
    with k show m by simp
  next
    assume m
    then show "window_bit W (hist @ [m]) j"
      unfolding window_bit_def using assms True by (intro exI [of _ "length hist"]) auto
  qed
  with True show ?thesis by simp
next
  case False
  have "window_bit W (hist @ [m]) j \<longleftrightarrow> window_bit W hist j"
  proof
    assume "window_bit W (hist @ [m]) j"
    then obtain k where k: "k < Suc (length hist)" "Suc (length hist) \<le> k + W" "k mod W = j" "(hist @ [m]) ! k"
      by (auto simp: window_bit_def)
    then have "k < length hist" using False by (cases "k = length hist") auto
    with k show "window_bit W hist j" unfolding window_bit_def by (intro exI [of _ k]) (auto simp: nth_append)
  next
    assume "window_bit W hist j"
    then obtain k where k: "k < length hist" "length hist \<le> k + W" "k mod W = j" "hist ! k"
      by (auto simp: window_bit_def)
    then have "k + W \<noteq> length hist" using False by (metis mod_add_self2)
    with k show "window_bit W (hist @ [m]) j"
      unfolding window_bit_def by (intro exI [of _ k]) (auto simp: nth_append)
  qed
  with False show ?thesis by simp
qed

lemma missed_in_window_snoc:
  assumes "0 < W"
  shows "int (missed_in_window W (hist @ [m])) = int (missed_in_window W hist) + of_bool m -
    of_bool (window_bit W hist (length hist mod W))"
proof (cases "W \<le> length hist")
  case True
  have "drop (length hist - W) hist = hist ! (length hist - W) # drop (Suc (length hist - W)) hist"
    using True assms by (intro Cons_nth_drop_Suc [symmetric]) simp
  moreover have "drop (Suc (length hist) - W) (hist @ [m]) = drop (Suc (length hist - W)) hist @ [m]"
    using True assms by (simp add: Suc_diff_le)
  ultimately show ?thesis using True by (simp add: missed_in_window_def window_bit_oldest [OF assms])
next
  case False
  then have "\<not> window_bit W hist (length hist mod W)" using window_bit_oldest [OF assms, of hist] by blast
  with False show ?thesis by (simp add: missed_in_window_def)
qed

section \<open>Jailing\<close>

text \<open>Counter and bitmap of a finality provider hold the history of its missed blocks since its start.\<close>

definition tracks :: "'b bitset_ops \<Rightarrow> 'c fin_state \<Rightarrow> BIP340PubKey \<Rightarrow> FinalityProviderSigningInfo \<Rightarrow> bool list \<Rightarrow> bool" where
  "tracks B s pk info hist \<longleftrightarrow>
     kv_get (fs_signing_infos s) pk = Some info \<and> 0 \<le> sg_start_height info \<and>
     sg_missed_blocks_counter info = int (missed_in_window (nat (pm_signed_blocks_window (fin_GetParams s))) hist) \<and>
     (\<forall>j < nat (pm_signed_blocks_window (fin_GetParams s)).
        GetMissedBlockBitmapValue B s pk (int j) =
          Inr (window_bit (nat (pm_signed_blocks_window (fin_GetParams s))) hist j))"

lemma fin_GetParams_bitmap [simp]:
  "fin_GetParams (s\<lparr>fs_bitmap := m\<rparr>) = fin_GetParams s"
  "fin_GetParams (s\<lparr>fs_signing_infos := i\<rparr>) = fin_GetParams s"
  "fin_GetParams (s\<lparr>fs_bs := b\<rparr>) = fin_GetParams s"
  by (simp_all add: fin_GetParams_def)

lemma GetMissedBlockBitmapValue_frame [simp]:
  "GetMissedBlockBitmapValue B (s\<lparr>fs_signing_infos := i\<rparr>) pk j = GetMissedBlockBitmapValue B s pk j"
  "GetMissedBlockBitmapValue B (s\<lparr>fs_bs := b\<rparr>) pk j = GetMissedBlockBitmapValue B s pk j"
  by (simp_all add: GetMissedBlockBitmapValue_def bitset_of_chunk_def getMissedBlockBitmapChunk_def)

lemma missed_in_window_le: "missed_in_window W hist \<le> length hist"
  unfolding missed_in_window_def by (rule order.trans [OF length_filter_le]) simp

lemma UpdateSigningInfo_tracks:
  assumes B: "bitset_laws B" and tr: "tracks B s pk info hist"
    and W: "pm_signed_blocks_window (fin_GetParams s) = int W" "0 < W" "W < 2 ^ 63"
    and h: "height = sg_start_height info + int (length hist)" "height < 2 ^ 63 - 1"
  obtains upd info' t where "UpdateSigningInfo B pk m height s = Inr (upd, info', t)"
    "tracks B (set_signing_info pk info' t) pk info' (hist @ [m])"
    "\<not> upd \<longrightarrow> t = s \<and> info' = info" "\<exists>b. t = s\<lparr>fs_bitmap := b\<rparr>"
    "sg_start_height info' = sg_start_height info" "sg_jailed_until info' = sg_jailed_until info"
proof -
  let ?n = "length hist"
  define i where "i = ?n mod W"
  have i: "i < W" "i < 2 ^ 63" using W by (simp_all add: i_def order.strict_trans [OF mod_less_divisor])
  have info: "kv_get (fs_signing_infos s) pk = Some info" "0 \<le> sg_start_height info"
    "sg_missed_blocks_counter info = int (missed_in_window W hist)"
    and bits: "\<And>j. j < W \<Longrightarrow> GetMissedBlockBitmapValue B s pk (int j) = Inr (window_bit W hist j)"
    using tr by (simp_all add: tracks_def W)
  have n: "int ?n < 2 ^ 63 - 1" using h info(2) by simp
  have idx: "wrap64 (height - sg_start_height info) smod int W = int i"
    using h(1) n W(2) by (simp add: wrap64_id is_i64_def signed_div_nonneg i_def zmod_int)
  have cnt: "int (missed_in_window W (hist @ [m])) = int (missed_in_window W hist) + of_bool m - of_bool (window_bit W hist i)"
    using missed_in_window_snoc [OF W(2), of hist m] by (simp add: i_def)
  have small: "int (missed_in_window W hist) < 2 ^ 63 - 1" using n missed_in_window_le [of W hist] by linarith
  have start: "\<not> height < sg_start_height info" using h(1) by simp
  show ?thesis
  proof (cases "window_bit W hist i = m")
    case True
    then have u: "UpdateSigningInfo B pk m height s = Inr (False, info, s)"
      using info(1) bits [OF i(1)] idx W start by (auto simp: UpdateSigningInfo_def Let_def)
    have "tracks B (set_signing_info pk info s) pk info (hist @ [m])"
      using info cnt True bits window_bit_snoc [OF W(2), of hist m]
      by (simp add: tracks_def set_signing_info_def W i_def)
    then show ?thesis by (rule that [OF u]) (auto intro: exI [of _ "fs_bitmap s"])
  next
    case False
    obtain t where t: "SetMissedBlockBitmapValue B pk (int i) m s = Inr t"
      and tb: "\<forall>pk' j. j < 2 ^ 63 \<longrightarrow> GetMissedBlockBitmapValue B t pk' (int j) =
        (if pk' = pk \<and> j = i then Inr m else GetMissedBlockBitmapValue B s pk' (int j))"
      and frame: "\<exists>b. t = s\<lparr>fs_bitmap := b\<rparr>"
      by (rule SetMissedBlockBitmapValue_bits [where w = m, OF B i(2) bits [OF i(1)]])
    define info' where "info' = (if m then IncrementMissedBlocksCounter info else DecrementMissedBlocksCounter info)"
    have u: "UpdateSigningInfo B pk m height s = Inr (True, info', t)"
      using info(1) bits [OF i(1)] idx W start t False by (auto simp: UpdateSigningInfo_def Let_def info'_def)
    have c: "sg_missed_blocks_counter info' = int (missed_in_window W (hist @ [m]))"
      using cnt False small info(3)
      by (auto simp: info'_def IncrementMissedBlocksCounter_def DecrementMissedBlocksCounter_def wrap64_id is_i64_def)
    have st: "sg_start_height info' = sg_start_height info" "sg_jailed_until info' = sg_jailed_until info"
      by (simp_all add: info'_def IncrementMissedBlocksCounter_def DecrementMissedBlocksCounter_def)
    have "GetMissedBlockBitmapValue B t pk (int j) = Inr (window_bit W (hist @ [m]) j)" if "j < W" for j
      using tb [rule_format, of j pk] that W(3) bits [OF that] window_bit_snoc [OF W(2), of hist m j] by (simp add: i_def)
    then have "tracks B (set_signing_info pk info' t) pk info' (hist @ [m])"
      using frame c st info(2) by (auto simp: tracks_def set_signing_info_def W)
    then show ?thesis by (rule that [OF u]) (use frame st in auto)
  qed
qed


text \<open>A bit set as a list of its bits, encoded as one byte for each bit.\<close>

definition list_bitset :: "bool list bitset_ops" where
  "list_bitset = \<lparr>bst_New = \<lambda>n. replicate n False,
     bst_UnmarshalBinary = \<lambda>x. Inr (map (\<lambda>y. y = 1) x),
     bst_MarshalBinary = \<lambda>b. Inr (map (\<lambda>y. if y then 1 else 0) b),
     bst_Set = \<lambda>i b. if i < length b then b[i := True] else b @ replicate (i - length b) False @ [True],
     bst_Clear = \<lambda>i b. if i < length b then b[i := False] else b, bst_Test = \<lambda>b i. i < length b \<and> b ! i\<rparr>"

lemma list_bitset_laws: "bitset_laws list_bitset"
  unfolding bitset_laws_def
proof (intro conjI allI)
  fix b :: "bool list"
  have "map ((\<lambda>y :: byte. y = 1) \<circ> (\<lambda>y. if y then 1 else 0)) b = b" by (rule map_idI) simp
  then show "\<exists>x b'. bst_MarshalBinary list_bitset b = Inr x \<and> bst_UnmarshalBinary list_bitset x = Inr b' \<and>
      bst_Test list_bitset b' = bst_Test list_bitset b"
    by (simp add: list_bitset_def)
qed (auto simp: list_bitset_def nth_list_update nth_append less_Suc_eq split: if_splits)

definition liveness_state :: "int fin_state" where
  "liveness_state = voting_state\<lparr>
     fs_params := Some \<lparr>pm_max_active_fps = 1, pm_sig_timeout = 1, pm_signed_blocks_window = 2,
       pm_min_signed_per_window = Some (5 * 10 ^ 17), pm_min_pub_rand = 1, pm_jail_duration = 10, pm_activation_height = 0\<rparr>,
     fs_signing_infos := [(ending_in 3, NewFinalityProviderSigningInfo (ending_in 3) 4 0)]\<rparr>"


section \<open>A window that shrinks\<close>

text \<open>The bits at positions beyond the window are never cleared, and the counter still counts them.\<close>

definition missed_bits :: "'b bitset_ops \<Rightarrow> 'c fin_state \<Rightarrow> BIP340PubKey \<Rightarrow> nat set" where
  "missed_bits B s pk = {i. i < 2 ^ 63 \<and> GetMissedBlockBitmapValue B s pk (int i) = Inr True}"


definition shrunk_state :: "int fin_state" where
  "shrunk_state = liveness_state\<lparr>
     fs_signing_infos := [(ending_in 3, NewFinalityProviderSigningInfo (ending_in 3) 4 2)],
     fs_bitmap := [((ending_in 3, 0), [0, 0, 1, 1])]\<rparr>"

lemma shrunk_bits:
  assumes "i < 2 ^ 63"
  shows "GetMissedBlockBitmapValue list_bitset shrunk_state (ending_in 3) (int i) = Inr (i = 2 \<or> i = 3)"
proof (cases "i < 1024")
  case True
  then have "unat (to_u64 (int i mod 1024)) = i" "int i div 1024 = 0" by (simp_all add: unat_to_u64)
  moreover have "i < Suc (Suc (Suc (Suc 0))) \<and> [False, False, True, True] ! i \<longleftrightarrow> i = 2 \<or> i = 3"
    by (auto simp: numeral_eq_Suc less_Suc_eq)
  ultimately show ?thesis
    by (simp add: GetMissedBlockBitmapValue_def bitset_of_chunk_def getMissedBlockBitmapChunk_def shrunk_state_def
        MissedBlockBitmapChunkSize_def signed_div_nonneg to_u64_def list_bitset_def)
next
  case False
  have "int i div 1024 \<le> int i" using zdiv_mono2 [of "int i" 1 1024] by simp
  then have "unat (to_u64 (int i div 1024)) = nat (int i div 1024)"
    using assms by (intro unat_to_u64) (simp_all add: pos_imp_zdiv_nonneg_iff)
  moreover have "0 < int i div 1024" using False by (simp add: pos_imp_zdiv_pos_iff)
  ultimately have "to_u64 (int i div 1024) \<noteq> 0" by (metis nat_0_iff not_le unat_0)
  then show ?thesis using False
    by (simp add: GetMissedBlockBitmapValue_def bitset_of_chunk_def getMissedBlockBitmapChunk_def shrunk_state_def
        MissedBlockBitmapChunkSize_def signed_div_nonneg bitset_lawsD(1) [OF list_bitset_laws])
qed


section \<open>Listing the missed blocks\<close>

lemma chunk_walk_collect:
  assumes "0 \<le> index" "index + int (length bs) < 2 ^ 63"
  shows "chunk_walk (\<lambda>index missed acc. (False, if missed then acc @ [\<lparr>mb_index = index, mb_missed = missed\<rparr>] else acc)) bs
      (index, acc) = (index + int (length bs),
      acc @ map (\<lambda>k. \<lparr>mb_index = index + int k, mb_missed = True\<rparr>) (filter (\<lambda>k. bs ! k) [0 ..< length bs]))"
  using assms
proof (induction bs arbitrary: index acc)
  case (Cons b bs)
  have w: "wrap64 (index + 1) = index + 1" using Cons.prems by (simp add: wrap64_id is_i64_def)
  have up: "[0 ..< Suc (length bs)] = 0 # map Suc [0 ..< length bs]" by (simp add: map_Suc_upt upt_conv_Cons del: upt_Suc)
  have ih: "0 \<le> index + 1" "index + 1 + int (length bs) < 2 ^ 63" using Cons.prems by simp_all
  show ?case by (simp add: w up filter_map o_def Cons.IH [OF ih] del: upt_Suc)
qed simp

text \<open>The listing ignores the position of a chunk: when the only chunk stored is a later one, the indices
  it reports are those of the first chunk.\<close>

theorem GetFinalityProviderMissedBlocks_gap:
  assumes "kv_prefix pk (fs_bitmap s) = [(c, chunk)]" and "bst_UnmarshalBinary B chunk = Inr bs"
  shows "GetFinalityProviderMissedBlocks B s pk =
     Inr (map (\<lambda>k. \<lparr>mb_index = int k, mb_missed = True\<rparr>) (filter (bst_Test B bs) [0 ..< 1024]))"
proof -
  let ?l = "map (bst_Test B bs) [0 ..< 1024]"
  have "filter (\<lambda>k. ?l ! k) [0 ..< 1024] = filter (bst_Test B bs) [0 ..< 1024]" by (rule filter_cong) simp_all
  then show ?thesis using chunk_walk_collect [of 0 ?l "[]"] assms
    by (simp add: GetFinalityProviderMissedBlocks_def IterateMissedBlockBitmap_def MissedBlockBitmapChunkSize_def del: upt_rec_numeral)
qed

end
