(* ===== verification/Finality_Power.thy ===== *)
theory Finality_Power
  imports Finality_Msg
begin

text \<open>
  The voting power of a block (\<open>keeper/power_dist_change.go\<close> and the processing state of
  \<open>types/finality.go\<close>): the begin blocker applies the queued events of the BTC staking module to the
  distribution cache of the previous height, gives voting power to the active finality providers, and
  calls the hooks of the incentive and costaking modules.

  Go maps are sorted association lists: the code sorts their keys before it depends on their order.
  Typed events and metrics have no effect on the state.
\<close>

section \<open>The processing state\<close>

datatype FinalityProviderState =
    FinalityProviderState_UNKNOWN
  | FinalityProviderState_UNJAILED
  | FinalityProviderState_JAILED
  | FinalityProviderState_SLASHED

record DelegationInfo =
  dli_delegator :: bytes
  dli_fp_btc_pk :: string
  dli_total_sat :: u64

record ProcessingState =
  ps_prev_active :: "(string, unit) store"
  ps_fp_states :: "(string, FinalityProviderState) store"
  ps_fps :: "(string, FinalityProvider) store"
  ps_delta_sats :: "(string, i64) store"
  ps_expired_events :: "(string \<times> BTCDelegationStatus) list"
  ps_slashed_events :: "BIP340PubKey list"
  ps_active_delegations :: "DelegationInfo list"
  ps_unbonding_delegations :: "DelegationInfo list"

definition NewProcessingState :: ProcessingState where
  "NewProcessingState = \<lparr>ps_prev_active = [], ps_fp_states = [], ps_fps = [], ps_delta_sats = [],
     ps_expired_events = [], ps_slashed_events = [], ps_active_delegations = [], ps_unbonding_delegations = []\<rparr>"

definition set_fp_state :: "string \<Rightarrow> FinalityProviderState \<Rightarrow> ProcessingState \<Rightarrow> ProcessingState" where
  "set_fp_state fpBTCPKHex st ps = ps\<lparr>ps_fp_states := kv_set fpBTCPKHex st (ps_fp_states ps)\<rparr>"

definition fp_state_of :: "ProcessingState \<Rightarrow> string \<Rightarrow> FinalityProviderState" where
  "fp_state_of ps fpBTCPKHex =
     (case kv_get (ps_fp_states ps) fpBTCPKHex of None \<Rightarrow> FinalityProviderState_UNKNOWN | Some st \<Rightarrow> st)"

definition delta_sats_of :: "ProcessingState \<Rightarrow> string \<Rightarrow> i64" where
  "delta_sats_of ps fpBTCPKHex = (case kv_get (ps_delta_sats ps) fpBTCPKHex of None \<Rightarrow> 0 | Some d \<Rightarrow> d)"

definition AddStateForFp :: "FinalityProviderDistInfo \<Rightarrow> ProcessingState \<Rightarrow> ProcessingState" where
  "AddStateForFp fp ps =
     (let fpBTCPKHex = MarshalHex (di_btc_pk fp);
          ps1 = (if di_is_slashed fp then set_fp_state fpBTCPKHex FinalityProviderState_SLASHED ps else ps)
      in if di_is_jailed fp then set_fp_state fpBTCPKHex FinalityProviderState_JAILED ps1 else ps1)"

definition FillByPrevVpDstCache :: "VotingPowerDistCache \<Rightarrow> ProcessingState \<Rightarrow> ProcessingState" where
  "FillByPrevVpDstCache dc ps =
     fold (\<lambda>(idx, fp) ps.
             let isActive = (idx < unat (dc_num_active_fps dc));
                 ps1 = (if isActive
                        then ps\<lparr>ps_prev_active := kv_set (MarshalHex (di_btc_pk fp)) () (ps_prev_active ps)\<rparr>
                        else ps)
             in AddStateForFp fp ps1) (enumerate 0 (dc_finality_providers dc)) ps"

definition IsFpInPrevActiveSet :: "ProcessingState \<Rightarrow> BIP340PubKey \<Rightarrow> bool" where
  "IsFpInPrevActiveSet ps fpBtcPk \<longleftrightarrow> kv_has (ps_prev_active ps) (MarshalHex fpBtcPk)"

definition AddActiveDelegation ::
  "ext \<Rightarrow> string \<Rightarrow> BIP340PubKey \<Rightarrow> u64 \<Rightarrow> ProcessingState \<Rightarrow> ProcessingState res" where
  "AddActiveDelegation X delAddr fpPubKey totalSat ps =
     rbind (MustAccAddressFromBech32 X delAddr) (\<lambda>delAccAddr.
       Inr (ps\<lparr>ps_active_delegations := ps_active_delegations ps @
         [\<lparr>dli_delegator = delAccAddr, dli_fp_btc_pk = MarshalHex fpPubKey, dli_total_sat = totalSat\<rparr>]\<rparr>))"

definition AddUnbondingDelegation ::
  "ext \<Rightarrow> string \<Rightarrow> BIP340PubKey \<Rightarrow> u64 \<Rightarrow> ProcessingState \<Rightarrow> ProcessingState res" where
  "AddUnbondingDelegation X delAddr fpPubKey totalSat ps =
     rbind (MustAccAddressFromBech32 X delAddr) (\<lambda>delAccAddr.
       Inr (ps\<lparr>ps_unbonding_delegations := ps_unbonding_delegations ps @
         [\<lparr>dli_delegator = delAccAddr, dli_fp_btc_pk = MarshalHex fpPubKey, dli_total_sat = totalSat\<rparr>]\<rparr>))"

datatype FinalityProviderStatus = FP_INACTIVE | FP_ACTIVE | FP_JAILED | FP_SLASHED

definition FpStatus :: "bool \<Rightarrow> FinalityProviderDistInfo \<Rightarrow> FinalityProviderStatus" where
  "FpStatus canBeActive fp =
     (if di_is_slashed fp then FP_SLASHED
      else if di_is_jailed fp then FP_JAILED
      else if canBeActive \<and> di_is_timestamped fp \<and> di_total_bonded_sat fp > 0 then FP_ACTIVE
      else FP_INACTIVE)"

section \<open>Processing the events\<close>

definition add_delta :: "string \<Rightarrow> i64 \<Rightarrow> ProcessingState \<Rightarrow> ProcessingState" where
  "add_delta fpBTCPKHex d ps =
     ps\<lparr>ps_delta_sats := kv_set fpBTCPKHex (wrap64 (delta_sats_of ps fpBTCPKHex + d)) (ps_delta_sats ps)\<rparr>"

definition processPowerDistUpdateEventUnbond ::
  "ext \<Rightarrow> BTCDelegation \<Rightarrow> ProcessingState \<Rightarrow> ProcessingState res" where
  "processPowerDistUpdateEventUnbond X btcDel ps =
     rfold (\<lambda>fpBTCPK ps.
              rbind (AddUnbondingDelegation X (bd_staker_addr btcDel) fpBTCPK (bd_total_sat btcDel) ps) (\<lambda>ps1.
                Inr (add_delta (MarshalHex fpBTCPK) (- to_i64 (bd_total_sat btcDel)) ps1)))
       (bd_fp_btc_pk_list btcDel) ps"

definition processPowerDistUpdateEventActive ::
  "ext \<Rightarrow> BTCDelegation \<Rightarrow> ProcessingState \<Rightarrow> ProcessingState res" where
  "processPowerDistUpdateEventActive X btcDel ps =
     rfold (\<lambda>fpBTCPK ps.
              rbind (AddActiveDelegation X (bd_staker_addr btcDel) fpBTCPK (bd_total_sat btcDel) ps) (\<lambda>ps1.
                Inr (add_delta (MarshalHex fpBTCPK) (to_i64 (bd_total_sat btcDel)) ps1)))
       (bd_fp_btc_pk_list btcDel) ps"

definition unbond_if_quorum ::
  "ext \<Rightarrow> bs_state \<Rightarrow> BTCDelegation \<Rightarrow> ProcessingState \<Rightarrow> ProcessingState res" where
  "unbond_if_quorum X s btcDel ps =
     (case GetParamsByVersion s (bd_params_version btcDel) of
        None \<Rightarrow> Inl (Panic ''nil pointer dereference'')
      | Some delParams \<Rightarrow>
          (case BtcDelHasCovenantQuorums X s btcDel (p_covenant_quorum delParams) of
             Inl _ \<Rightarrow> Inl (Panic ''failed to check the covenant quorums'')
           | Inr hasQuorum \<Rightarrow> if hasQuorum then processPowerDistUpdateEventUnbond X btcDel ps else Inr ps))"

definition processBtcDelUpdate ::
  "ext \<Rightarrow> bs_state \<Rightarrow> string \<Rightarrow> BTCDelegationStatus \<Rightarrow> ProcessingState \<Rightarrow> ProcessingState res" where
  "processBtcDelUpdate X s delStkTxHash newState ps =
     (case GetBTCDelegation X s delStkTxHash of
        Inl _ \<Rightarrow> Inl (Panic ''failed to get the BTC delegation'')
      | Inr btcDel \<Rightarrow>
          (case newState of
             ACTIVE \<Rightarrow> processPowerDistUpdateEventActive X btcDel ps
           | UNBONDED \<Rightarrow> unbond_if_quorum X s btcDel ps
           | _ \<Rightarrow> Inr ps))"

fun processFPEventImmediate :: "EventPowerDistUpdate \<Rightarrow> ProcessingState \<Rightarrow> ProcessingState" where
  "processFPEventImmediate (JailedFp pk) ps = set_fp_state (MarshalHex pk) FinalityProviderState_JAILED ps"
| "processFPEventImmediate (UnjailedFp pk) ps = set_fp_state (MarshalHex pk) FinalityProviderState_UNJAILED ps"
| "processFPEventImmediate _ ps = ps"

definition process_power_event ::
  "ext \<Rightarrow> bs_state \<Rightarrow> EventPowerDistUpdate \<Rightarrow> ProcessingState \<Rightarrow> ProcessingState res" where
  "process_power_event X s event ps =
     (case event of
        BtcDelStateUpdate stakingTxHash newState \<Rightarrow>
          if newState = EXPIRED
          then Inr (ps\<lparr>ps_expired_events := ps_expired_events ps @ [(stakingTxHash, newState)]\<rparr>)
          else processBtcDelUpdate X s stakingTxHash newState ps
      | SlashedFp pk \<Rightarrow> Inr (ps\<lparr>ps_slashed_events := ps_slashed_events ps @ [pk]\<rparr>)
      | _ \<Rightarrow> Inr (processFPEventImmediate event ps))"

definition processEventsAtHeight ::
  "ext \<Rightarrow> bs_state \<Rightarrow> u32 \<Rightarrow> ProcessingState \<Rightarrow> ProcessingState res" where
  "processEventsAtHeight X s btcHeight ps = rfold (process_power_event X s) (PowerDistUpdateEvents s btcHeight) ps"

definition processExpiredEvents :: "ext \<Rightarrow> bs_state \<Rightarrow> ProcessingState \<Rightarrow> ProcessingState res" where
  "processExpiredEvents X s ps =
     rfold (\<lambda>(delStkTxHash, _) ps.
              case GetBTCDelegation X s delStkTxHash of
                Inl _ \<Rightarrow> Inl (Panic ''failed to get the BTC delegation'')
              | Inr btcDel \<Rightarrow>
                  if IsUnbondedEarly btcDel then Inr ps else unbond_if_quorum X s btcDel ps)
       (ps_expired_events ps) ps"

definition processSlashedEvents :: "ProcessingState \<Rightarrow> ProcessingState" where
  "processSlashedEvents ps =
     fold (\<lambda>pk. set_fp_state (MarshalHex pk) FinalityProviderState_SLASHED) (ps_slashed_events ps) ps"

section \<open>The new distribution\<close>

definition loadFP :: "bs_state \<Rightarrow> string \<Rightarrow> ProcessingState \<Rightarrow> (FinalityProvider \<times> ProcessingState) res" where
  "loadFP s fpBTCPKHex ps =
     (case kv_get (ps_fps ps) fpBTCPKHex of
        Some fp \<Rightarrow> Inr (fp, ps)
      | None \<Rightarrow>
          rbind (NewBIP340PubKeyFromHex fpBTCPKHex) (\<lambda>fpBTCPK.
          rbind (GetFinalityProvider s fpBTCPK) (\<lambda>fp.
            Inr (fp, ps\<lparr>ps_fps := kv_set fpBTCPKHex fp (ps_fps ps)\<rparr>))))"

definition with_jail_state :: "FinalityProviderState \<Rightarrow> FinalityProviderDistInfo \<Rightarrow> FinalityProviderDistInfo" where
  "with_jail_state st fp =
     (case st of
        FinalityProviderState_JAILED \<Rightarrow> fp\<lparr>di_is_jailed := True\<rparr>
      | FinalityProviderState_UNJAILED \<Rightarrow> fp\<lparr>di_is_jailed := False\<rparr>
      | _ \<Rightarrow> fp)"

text \<open>One finality provider of the previous cache.\<close>

definition apply_to_known ::
  "FinalityProviderDistInfo \<Rightarrow> VotingPowerDistCache \<times> ProcessingState \<Rightarrow> (VotingPowerDistCache \<times> ProcessingState) res" where
  "apply_to_known fp acc =
     (let (newDc, ps) = acc; fpBTCPKHex = MarshalHex (di_btc_pk fp)
      in if fp_state_of ps fpBTCPKHex = FinalityProviderState_SLASHED then Inr (newDc, ps)
         else case ChangeDeltaSats (delta_sats_of ps fpBTCPKHex) (with_jail_state (fp_state_of ps fpBTCPKHex) fp) of
                Inl _ \<Rightarrow> Inl (Panic ''unable to update delta sats'')
              | Inr fp' \<Rightarrow>
                  let ps' = ps\<lparr>ps_delta_sats := kv_del fpBTCPKHex (ps_delta_sats ps)\<rparr>
                  in Inr (if di_total_bonded_sat fp' > 0 then AddFinalityProviderDistInfo fp' newDc else newDc, ps'))"

text \<open>One finality provider that was not in the previous cache.\<close>

definition apply_to_new ::
  "ext \<Rightarrow> bs_state \<Rightarrow> string \<Rightarrow> VotingPowerDistCache \<times> ProcessingState \<Rightarrow> (VotingPowerDistCache \<times> ProcessingState) res" where
  "apply_to_new X s fpBTCPKHex acc =
     (let (newDc, ps) = acc
      in case loadFP s fpBTCPKHex ps of
           Inl _ \<Rightarrow> Inl (Panic ''unable to load fp'')
         | Inr (newFP, ps') \<Rightarrow>
             if FinalityProvider_IsSlashed newFP then Inr (newDc, ps')
             else
               rbind (NewFinalityProviderDistInfo X newFP) (\<lambda>fpDistInfo.
               case ChangeDeltaSats (delta_sats_of ps' fpBTCPKHex)
                      (with_jail_state (fp_state_of ps' fpBTCPKHex) fpDistInfo) of
                 Inl _ \<Rightarrow> Inl (Panic ''unable to update delta sats'')
               | Inr fp' \<Rightarrow>
                   Inr (if di_total_bonded_sat fp' > 0 then AddFinalityProviderDistInfo fp' newDc else newDc, ps')))"

definition new_fp_hexes :: "ProcessingState \<Rightarrow> string list" where
  "new_fp_hexes ps =
     slice_stable (<) (filter (\<lambda>h. fp_state_of ps h \<noteq> FinalityProviderState_SLASHED) (map fst (ps_delta_sats ps)))"

definition ProcessAllPowerDistUpdateEvents ::
  "ext \<Rightarrow> bs_state \<Rightarrow> VotingPowerDistCache \<Rightarrow> u32 \<Rightarrow> u32 \<Rightarrow> (VotingPowerDistCache \<times> ProcessingState) res" where
  "ProcessAllPowerDistUpdateEvents X s dc lastBTCTip curBTCTip =
     rbind (rfold (processEventsAtHeight X s) (range_u32 lastBTCTip curBTCTip)
              (FillByPrevVpDstCache dc NewProcessingState)) (\<lambda>ps1.
     rbind (processExpiredEvents X s ps1) (\<lambda>ps2.
     rbind (rfold apply_to_known (dc_finality_providers dc) (NewVotingPowerDistCache, processSlashedEvents ps2))
       (\<lambda>(dc1, ps3). rfold (apply_to_new X s) (new_fp_hexes ps3) (dc1, ps3))))"

section \<open>Recording the voting power\<close>

definition RecordVotingPowerAndCache ::
  "ctx \<Rightarrow> VotingPowerDistCache \<Rightarrow> 'c fin_state \<Rightarrow> (VotingPowerDistCache \<times> 'c fin_state) res" where
  "RecordVotingPowerAndCache cx newDc s =
     (let anonTipHeight = to_u64 (ctx_height cx);
          labelled = newDc\<lparr>dc_finality_providers :=
            map (\<lambda>fp. fp\<lparr>di_is_timestamped := HasTimestampedPubRand cx s (di_btc_pk fp) anonTipHeight\<rparr>)
              (dc_finality_providers newDc)\<rparr>;
          dc = ApplyActiveFinalityProviders (pm_max_active_fps (fin_GetParams s)) labelled
      in rbind (fps_upto dc) (\<lambda>active.
           let s1 = fold (\<lambda>fp. SetVotingPower (di_btc_pk fp) anonTipHeight (di_total_bonded_sat fp)) active s
           in Inr (dc, SetVotingPowerDistCache anonTipHeight dc s1)))"

section \<open>Hooks\<close>

text \<open>The finality hooks of the application: those of the incentive module, then those of costaking.  The
  incentive module ignores the changes of the active set.\<close>

definition with_cos :: "('c cos_state, unit) act \<Rightarrow> 'c fin_state \<Rightarrow> 'c fin_state res" where
  "with_cos m s = (case m (fs_cos s) of (Inl e, _) \<Rightarrow> Inl e | (Inr _, t) \<Rightarrow> Inr (s\<lparr>fs_cos := t\<rparr>))"

definition with_inc :: "('c inc_state \<Rightarrow> 'c inc_state) \<Rightarrow> 'c fin_state \<Rightarrow> 'c fin_state" where
  "with_inc f s = s\<lparr>fs_cos := (fs_cos s)\<lparr>cs_inc := f (cs_inc (fs_cos s))\<rparr>\<rparr>"

definition AfterBtcDelegationActivated ::
  "ext \<Rightarrow> 'c coins_ops \<Rightarrow> ctx \<Rightarrow> bytes \<Rightarrow> bytes \<Rightarrow> bool \<Rightarrow> bool \<Rightarrow> u64 \<Rightarrow> 'c fin_state \<Rightarrow> 'c fin_state res" where
  "AfterBtcDelegationActivated X C cx fpAddr btcDelAddr isFpActiveInPrevSet isFpActiveInCurrSet sats s =
     with_cos (AfterBtcDelegationActivated_cos C btcDelAddr isFpActiveInPrevSet sats)
       (with_inc (AfterBtcDelegationActivated_inc X cx fpAddr btcDelAddr sats) s)"

definition AfterBtcDelegationUnbonded ::
  "ext \<Rightarrow> 'c coins_ops \<Rightarrow> ctx \<Rightarrow> bytes \<Rightarrow> bytes \<Rightarrow> bool \<Rightarrow> bool \<Rightarrow> u64 \<Rightarrow> 'c fin_state \<Rightarrow> 'c fin_state res" where
  "AfterBtcDelegationUnbonded X C cx fpAddr btcDelAddr isFpActiveInPrevSet isFpActiveInCurrSet sats s =
     with_cos (AfterBtcDelegationUnbonded_cos C btcDelAddr isFpActiveInPrevSet sats)
       (with_inc (AfterBtcDelegationUnbonded_inc X cx fpAddr btcDelAddr sats) s)"

definition AfterAncFpEntersActiveSet ::
  "ext \<Rightarrow> 'c coins_ops \<Rightarrow> ctx \<Rightarrow> bytes \<Rightarrow> 'c fin_state \<Rightarrow> 'c fin_state res" where
  "AfterAncFpEntersActiveSet X C cx fpAddr s = with_cos (AfterAncFpEntersActiveSet_cos X C cx fpAddr) s"

definition AfterAncFpRemovedFromActiveSet ::
  "ext \<Rightarrow> 'c coins_ops \<Rightarrow> ctx \<Rightarrow> bytes \<Rightarrow> 'c fin_state \<Rightarrow> 'c fin_state res" where
  "AfterAncFpRemovedFromActiveSet X C cx fpAddr s = with_cos (AfterAncFpRemovedFromActiveSet_cos X C cx fpAddr) s"

definition HandleActivatedFinalityProvider :: "ctx \<Rightarrow> BIP340PubKey \<Rightarrow> 'c fin_state \<Rightarrow> 'c fin_state" where
  "HandleActivatedFinalityProvider cx fpPk s =
     (let signingInfo = (case kv_get (fs_signing_infos s) fpPk of
                           Some info \<Rightarrow> info\<lparr>sg_start_height := ctx_height cx, sg_jailed_until := 0\<rparr>
                         | None \<Rightarrow> NewFinalityProviderSigningInfo fpPk (ctx_height cx) 0)
      in s\<lparr>fs_signing_infos := kv_set fpPk signingInfo (fs_signing_infos s)\<rparr>)"

definition processActiveFp ::
  "ext \<Rightarrow> 'c coins_ops \<Rightarrow> ctx \<Rightarrow> bool \<Rightarrow> FinalityProviderDistInfo \<Rightarrow> 'c fin_state \<Rightarrow> 'c fin_state res" where
  "processActiveFp X C cx shouldCallHooks fp s =
     (let s1 = HandleActivatedFinalityProvider cx (di_btc_pk fp) s
      in if \<not> shouldCallHooks then Inr s1
         else case AfterAncFpEntersActiveSet X C cx (di_addr fp) s1 of
                Inl _ \<Rightarrow> Inl (Panic ''failed to call hook fp enters active set'')
              | Inr t \<Rightarrow> Inr t)"

text \<open>The processing state is \<open>None\<close> where the code passes a nil pointer.  The check whether the finality
  provider is slashed or jailed only decides on an event, but dereferences the pointer.\<close>

definition isFpSlashedOrJailed :: "ProcessingState option \<Rightarrow> FinalityProviderDistInfo \<Rightarrow> bool res" where
  "isFpSlashedOrJailed state fp =
     (if di_is_jailed fp \<or> di_is_slashed fp then Inr True
      else case state of
             None \<Rightarrow> Inl (Panic ''nil pointer dereference'')
           | Some ps \<Rightarrow>
               let fpstate = fp_state_of ps (MarshalHex (di_btc_pk fp))
               in Inr (fpstate = FinalityProviderState_JAILED \<or> fpstate = FinalityProviderState_SLASHED))"

definition processInactiveFp ::
  "ext \<Rightarrow> 'c coins_ops \<Rightarrow> ctx \<Rightarrow> ProcessingState option \<Rightarrow> bool \<Rightarrow> FinalityProviderDistInfo \<Rightarrow> 'c fin_state \<Rightarrow>
   'c fin_state res" where
  "processInactiveFp X C cx state shouldCallHooks fp s =
     rbind (if shouldCallHooks
            then (case state of
                    None \<Rightarrow> Inl (Panic ''nil pointer dereference'')
                  | Some ps \<Rightarrow>
                      if IsFpInPrevActiveSet ps (di_btc_pk fp)
                      then (case AfterAncFpRemovedFromActiveSet X C cx (di_addr fp) s of
                              Inl _ \<Rightarrow> Inl (Panic ''failed to call hook fp removed from active set'')
                            | Inr t \<Rightarrow> Inr t)
                      else Inr s)
            else Inr s) (\<lambda>t.
       rbind (isFpSlashedOrJailed state fp) (\<lambda>_. Inr t))"

definition HandleFPStateUpdates ::
  "ext \<Rightarrow> 'c coins_ops \<Rightarrow> ctx \<Rightarrow> ProcessingState option \<Rightarrow> VotingPowerDistCache \<Rightarrow> VotingPowerDistCache \<Rightarrow> bool \<Rightarrow>
   'c fin_state \<Rightarrow> 'c fin_state res" where
  "HandleFPStateUpdates X C cx state prevDc newDc shouldCallHooks s =
     rbind (FindNewActiveFinalityProviders newDc prevDc) (\<lambda>newlyActiveFPs.
     rbind (rfold (processActiveFp X C cx shouldCallHooks) newlyActiveFPs s) (\<lambda>s1.
     rbind (FindNewInactiveFinalityProviders newDc prevDc) (\<lambda>newlyInactiveFPs.
       rfold (processInactiveFp X C cx state shouldCallHooks) newlyInactiveFPs s1)))"

definition processBtcDelHook ::
  "ext \<Rightarrow> (bytes \<Rightarrow> bytes \<Rightarrow> bool \<Rightarrow> bool \<Rightarrow> u64 \<Rightarrow> 'c fin_state \<Rightarrow> 'c fin_state res) \<Rightarrow> (string, unit) store \<Rightarrow>
   DelegationInfo list \<Rightarrow> ProcessingState \<times> 'c fin_state \<Rightarrow> (ProcessingState \<times> 'c fin_state) res" where
  "processBtcDelHook X hookFn activeFpsByBtcPkInCurrSet fpDels acc =
     rfold (\<lambda>del (ps, s).
              case loadFP (fs_bs s) (dli_fp_btc_pk del) ps of
                Inl _ \<Rightarrow> Inl (Errorf ''failed to load fp'')
              | Inr (fp, ps') \<Rightarrow>
                  rbind (MustAccAddressFromBech32 X (fp_addr fp)) (\<lambda>fpAddr.
                  case hookFn fpAddr (dli_delegator del) (IsFpInPrevActiveSet ps' (fp_btc_pk fp))
                         (kv_has activeFpsByBtcPkInCurrSet (MarshalHex (fp_btc_pk fp))) (dli_total_sat del) s of
                    Inl _ \<Rightarrow> Inl (Errorf ''failed to call hook for fp'')
                  | Inr t \<Rightarrow> Inr (ps', t))) fpDels acc"

definition processHooksBTCDelegation ::
  "ext \<Rightarrow> 'c coins_ops \<Rightarrow> ctx \<Rightarrow> VotingPowerDistCache \<Rightarrow> ProcessingState \<times> 'c fin_state \<Rightarrow>
   (ProcessingState \<times> 'c fin_state) res" where
  "processHooksBTCDelegation X C cx newDc acc =
     rbind (ActiveFpsByBtcPk newDc) (\<lambda>activeFpsByBtcPk.
     rbind (processBtcDelHook X (AfterBtcDelegationActivated X C cx) activeFpsByBtcPk
              (ps_active_delegations (fst acc)) acc) (\<lambda>acc1.
       processBtcDelHook X (AfterBtcDelegationUnbonded X C cx) activeFpsByBtcPk
         (ps_unbonding_delegations (fst acc1)) acc1))"

section \<open>The begin blocker\<close>

definition UpdatePowerDist :: "ext \<Rightarrow> 'c coins_ops \<Rightarrow> ctx \<Rightarrow> 'c fin_state \<Rightarrow> 'c fin_state res" where
  "UpdatePowerDist X C cx s =
     (let height = to_u64 (ctx_height cx)
      in rbind (GetCurrentBTCHeight cx (fs_bs s)) (\<lambda>btcTipHeight.
         let dc = (case GetVotingPowerDistCache s (height - 1) of None \<Rightarrow> NewVotingPowerDistCache | Some dc \<Rightarrow> dc)
         in rbind (GetBTCHeightAtAnonHeight cx (fs_bs s) (height - 1)) (\<lambda>lastBTCTipHeight.
            rbind (ProcessAllPowerDistUpdateEvents X (fs_bs s) dc lastBTCTipHeight btcTipHeight) (\<lambda>(newDc0, state0).
            rbind (RecordVotingPowerAndCache cx newDc0 s) (\<lambda>(newDc, s1).
            case processHooksBTCDelegation X C cx newDc (state0, s1) of
              Inl _ \<Rightarrow> Inl (Panic ''failed to execute btc delegation hooks'')
            | Inr (state, s2) \<Rightarrow>
                rbind (HandleFPStateUpdates X C cx (Some state) dc newDc True s2) (\<lambda>s3.
                  Inr (s3\<lparr>fs_bs := fold ClearPowerDistUpdateEvents (range_u32 lastBTCTipHeight btcTipHeight) (fs_bs s3)\<rparr>)))))))"

definition BeginBlocker_fin :: "ext \<Rightarrow> 'c coins_ops \<Rightarrow> ctx \<Rightarrow> 'c fin_state \<Rightarrow> 'c fin_state res" where
  "BeginBlocker_fin X C cx s = UpdatePowerDist X C cx s"

end
