(* ===== verification/Finality_Stake.thy ===== *)
theory Finality_Stake
  imports Finality_Power
begin

text \<open>What the power distribution of \<^theory_text>\<open>Finality_Power\<close> amounts to: the stake that a list of events
  moves between the finality providers, the jail flags and the slashings it leaves, and the theorem that
  \<open>ProcessAllPowerDistUpdateEvents\<close> computes exactly that from the cache of the previous block.\<close>

lemma wrap64_add: "wrap64 (wrap64 a + b) = wrap64 (a + b)"
  by (simp add: wrap64_def wi_hom_syms)

section \<open>What the events amount to\<close>

text \<open>The change of stake that an event stands for, and the finality providers an event list slashes,
  jails and unjails.\<close>

definition sats_to :: "BTCDelegation \<Rightarrow> string \<Rightarrow> int" where
  "sats_to btcDel h = to_i64 (bd_total_sat btcDel) * int (count_list (map MarshalHex (bd_fp_btc_pk_list btcDel)) h)"

definition has_quorum :: "ext \<Rightarrow> bs_state \<Rightarrow> BTCDelegation \<Rightarrow> bool" where
  "has_quorum X s btcDel \<longleftrightarrow> (\<exists>p. GetParamsByVersion s (bd_params_version btcDel) = Some p \<and>
     BtcDelHasCovenantQuorums X s btcDel (p_covenant_quorum p) = Inr True)"

definition event_delta :: "ext \<Rightarrow> bs_state \<Rightarrow> EventPowerDistUpdate \<Rightarrow> string \<Rightarrow> int" where
  "event_delta X s ev h =
     (case ev of
        BtcDelStateUpdate stakingTxHash newState \<Rightarrow>
          (case GetBTCDelegation X s stakingTxHash of
             Inl _ \<Rightarrow> 0
           | Inr btcDel \<Rightarrow>
               (case newState of
                  ACTIVE \<Rightarrow> sats_to btcDel h
                | UNBONDED \<Rightarrow> if has_quorum X s btcDel then - sats_to btcDel h else 0
                | EXPIRED \<Rightarrow> if \<not> IsUnbondedEarly btcDel \<and> has_quorum X s btcDel then - sats_to btcDel h else 0
                | _ \<Rightarrow> 0))
      | _ \<Rightarrow> 0)"

definition expired_of :: "EventPowerDistUpdate list \<Rightarrow> (string \<times> BTCDelegationStatus) list" where
  "expired_of evs = concat (map (\<lambda>ev. case ev of
     BtcDelStateUpdate h st \<Rightarrow> if st = EXPIRED then [(h, st)] else [] | _ \<Rightarrow> []) evs)"

definition slashed_of :: "EventPowerDistUpdate list \<Rightarrow> BIP340PubKey list" where
  "slashed_of evs = concat (map (\<lambda>ev. case ev of SlashedFp pk \<Rightarrow> [pk] | _ \<Rightarrow> []) evs)"

fun is_expired :: "EventPowerDistUpdate \<Rightarrow> bool" where
  "is_expired (BtcDelStateUpdate h st) = (st = EXPIRED)"
| "is_expired _ = False"

text \<open>The jail state after the events: the last jailing or unjailing event decides.\<close>

definition jail_state :: "EventPowerDistUpdate list \<Rightarrow> string \<Rightarrow> FinalityProviderState \<Rightarrow> FinalityProviderState" where
  "jail_state evs h st = fold (\<lambda>ev st. case ev of
     JailedFp pk \<Rightarrow> if MarshalHex pk = h then FinalityProviderState_JAILED else st
   | UnjailedFp pk \<Rightarrow> if MarshalHex pk = h then FinalityProviderState_UNJAILED else st
   | _ \<Rightarrow> st) evs st"

lemma delta_add_delta:
  "delta_sats_of (add_delta h d ps) h' = (if h' = h then wrap64 (delta_sats_of ps h + d) else delta_sats_of ps h')"
  by (simp add: delta_sats_of_def add_delta_def)

lemma fp_state_set [simp]: "fp_state_of (set_fp_state h st ps) h' = (if h' = h then st else fp_state_of ps h')"
  by (simp add: fp_state_of_def set_fp_state_def)

definition ps_rest :: "ProcessingState \<Rightarrow> _" where
  "ps_rest ps = (ps_fp_states ps, ps_fps ps, ps_expired_events ps, ps_slashed_events ps, ps_prev_active ps)"

definition deltas_ok :: "(string \<Rightarrow> int) \<Rightarrow> ProcessingState \<Rightarrow> bool" where
  "deltas_ok D ps \<longleftrightarrow> kv_ok (ps_delta_sats ps) \<and> (\<forall>h. delta_sats_of ps h = wrap64 (D h)) \<and>
     (\<forall>h. kv_has (ps_delta_sats ps) h \<longrightarrow> (\<exists>pk. h = MarshalHex pk))"

lemma delta_loop:
  assumes "rfold (\<lambda>pk ps. rbind (g pk ps) (\<lambda>ps1. Inr (add_delta (MarshalHex pk) d ps1))) pks ps = Inr ps'"
    and g: "\<And>pk ps ps1. g pk ps = Inr ps1 \<Longrightarrow> ps_rest ps1 = ps_rest ps \<and> ps_delta_sats ps1 = ps_delta_sats ps"
    and "deltas_ok D ps"
  shows "deltas_ok (\<lambda>h. D h + d * int (count_list (map MarshalHex pks) h)) ps' \<and> ps_rest ps' = ps_rest ps"
  using assms(1,3)
proof (induction pks arbitrary: ps D)
  case (Cons pk pks)
  then obtain ps1 where ps1: "g pk ps = Inr ps1"
    and rest: "rfold (\<lambda>pk ps. rbind (g pk ps) (\<lambda>ps1. Inr (add_delta (MarshalHex pk) d ps1))) pks
      (add_delta (MarshalHex pk) d ps1) = Inr ps'"
    by (auto simp: rbind_eq_Inr)
  note same = g [OF ps1]
  have "deltas_ok (\<lambda>h. D h + (if h = MarshalHex pk then d else 0)) (add_delta (MarshalHex pk) d ps1)"
    using Cons.prems(2) same
    by (auto simp: deltas_ok_def delta_add_delta wrap64_add delta_sats_of_def) (auto simp: add_delta_def delta_sats_of_def wrap64_add)
  from Cons.IH [OF rest this] same show ?case
    by (auto simp: ps_rest_def add_delta_def distrib_left algebra_simps elim!: back_subst [of "\<lambda>D. deltas_ok D ps'"] intro!: ext)
qed simp

lemma active_event_delta:
  assumes "processPowerDistUpdateEventActive X btcDel ps = Inr ps'" and "deltas_ok D ps"
  shows "deltas_ok (\<lambda>h. D h + sats_to btcDel h) ps' \<and> ps_rest ps' = ps_rest ps"
  unfolding sats_to_def
  by (rule delta_loop [OF assms(1) [unfolded processPowerDistUpdateEventActive_def] _ assms(2)])
    (auto simp: AddActiveDelegation_def ps_rest_def rbind_eq_Inr)

lemma unbond_event_delta:
  assumes "processPowerDistUpdateEventUnbond X btcDel ps = Inr ps'" and "deltas_ok D ps"
  shows "deltas_ok (\<lambda>h. D h - sats_to btcDel h) ps' \<and> ps_rest ps' = ps_rest ps"
proof -
  have "deltas_ok (\<lambda>h. D h + - to_i64 (bd_total_sat btcDel) * int (count_list (map MarshalHex (bd_fp_btc_pk_list btcDel)) h)) ps' \<and>
      ps_rest ps' = ps_rest ps"
    by (rule delta_loop [OF assms(1) [unfolded processPowerDistUpdateEventUnbond_def] _ assms(2)])
      (auto simp: AddUnbondingDelegation_def ps_rest_def rbind_eq_Inr)
  then show ?thesis by (simp add: sats_to_def)
qed

lemma unbond_if_quorum_delta:
  assumes "unbond_if_quorum X s btcDel ps = Inr ps'" and "deltas_ok D ps"
  shows "deltas_ok (\<lambda>h. D h + (if has_quorum X s btcDel then - sats_to btcDel h else 0)) ps' \<and> ps_rest ps' = ps_rest ps"
proof -
  obtain p q where p: "GetParamsByVersion s (bd_params_version btcDel) = Some p"
    and q: "BtcDelHasCovenantQuorums X s btcDel (p_covenant_quorum p) = Inr q"
    and ps': "(if q then processPowerDistUpdateEventUnbond X btcDel ps else Inr ps) = Inr ps'"
    using assms(1) by (auto simp: unbond_if_quorum_def split: option.splits sum.splits)
  have "has_quorum X s btcDel \<longleftrightarrow> q" using p q by (simp add: has_quorum_def)
  then show ?thesis using ps' assms(2) unbond_event_delta [of X btcDel ps ps' D] by (cases q) simp_all
qed

definition imm_delta :: "ext \<Rightarrow> bs_state \<Rightarrow> EventPowerDistUpdate \<Rightarrow> string \<Rightarrow> int" where
  "imm_delta X s ev h = (if is_expired ev then 0 else event_delta X s ev h)"

definition proc_inv ::
  "ext \<Rightarrow> bs_state \<Rightarrow> (string \<Rightarrow> FinalityProviderState) \<Rightarrow> EventPowerDistUpdate list \<Rightarrow> ProcessingState \<Rightarrow> bool" where
  "proc_inv X s base evs ps \<longleftrightarrow>
     deltas_ok (\<lambda>h. \<Sum>ev\<leftarrow>evs. imm_delta X s ev h) ps \<and> ps_fps ps = [] \<and>
     (\<forall>h. fp_state_of ps h = jail_state evs h (base h)) \<and>
     ps_expired_events ps = expired_of evs \<and> ps_slashed_events ps = slashed_of evs"

lemma of_snoc [simp]:
  "expired_of (evs @ [ev]) = expired_of evs @ (case ev of BtcDelStateUpdate h st \<Rightarrow> if st = EXPIRED then [(h, st)] else [] | _ \<Rightarrow> [])"
  "slashed_of (evs @ [ev]) = slashed_of evs @ (case ev of SlashedFp pk \<Rightarrow> [pk] | _ \<Rightarrow> [])"
  "jail_state (evs @ [ev]) h st = (case ev of
     JailedFp pk \<Rightarrow> if MarshalHex pk = h then FinalityProviderState_JAILED else jail_state evs h st
   | UnjailedFp pk \<Rightarrow> if MarshalHex pk = h then FinalityProviderState_UNJAILED else jail_state evs h st
   | _ \<Rightarrow> jail_state evs h st)"
  by (simp_all add: expired_of_def slashed_of_def jail_state_def split: EventPowerDistUpdate.split)

lemma proc_inv_rest:
  assumes "proc_inv X s base evs ps" and "deltas_ok (\<lambda>h. (\<Sum>ev\<leftarrow>evs. imm_delta X s ev h) + imm_delta X s ev h) ps'"
    and "ps_rest ps' = ps_rest ps" and "ev = BtcDelStateUpdate h st" and "st \<noteq> EXPIRED"
  shows "proc_inv X s base (evs @ [ev]) ps'"
  using assms by (simp add: proc_inv_def ps_rest_def fp_state_of_def)

lemma process_power_event_inv:
  assumes "process_power_event X s ev ps = Inr ps'" and inv: "proc_inv X s base evs ps"
  shows "proc_inv X s base (evs @ [ev]) ps'"
proof (cases ev)
  case (BtcDelStateUpdate h st)
  note ev = this
  have D: "deltas_ok (\<lambda>h. \<Sum>ev\<leftarrow>evs. imm_delta X s ev h) ps" using inv by (simp add: proc_inv_def)
  show ?thesis
  proof (cases "st = EXPIRED")
    case True
    then have "ps' = ps\<lparr>ps_expired_events := ps_expired_events ps @ [(h, st)]\<rparr>"
      using assms(1) ev by (simp add: process_power_event_def)
    with inv True ev show ?thesis
      by (simp add: proc_inv_def deltas_ok_def delta_sats_of_def fp_state_of_def imm_delta_def)
  next
    case False
    then obtain btcDel where d: "GetBTCDelegation X s h = Inr btcDel"
      and p: "(case st of ACTIVE \<Rightarrow> processPowerDistUpdateEventActive X btcDel ps
           | UNBONDED \<Rightarrow> unbond_if_quorum X s btcDel ps | _ \<Rightarrow> Inr ps) = Inr ps'"
      using assms(1) ev by (auto simp: process_power_event_def processBtcDelUpdate_def split: sum.splits)
    have "deltas_ok (\<lambda>h. (\<Sum>ev\<leftarrow>evs. imm_delta X s ev h) + imm_delta X s ev h) ps' \<and> ps_rest ps' = ps_rest ps"
    proof (cases st)
      case ACTIVE
      with p have "processPowerDistUpdateEventActive X btcDel ps = Inr ps'" by simp
      from active_event_delta [OF this D] show ?thesis by (simp add: imm_delta_def event_delta_def ev d ACTIVE)
    next
      case UNBONDED
      with p have "unbond_if_quorum X s btcDel ps = Inr ps'" by simp
      from unbond_if_quorum_delta [OF this D] show ?thesis by (simp add: imm_delta_def event_delta_def ev d UNBONDED)
    qed (use p D False in \<open>simp_all add: imm_delta_def event_delta_def ev d\<close>)
    then show ?thesis using proc_inv_rest [OF inv _ _ ev False] by blast
  qed
qed (use assms in \<open>auto simp: process_power_event_def proc_inv_def imm_delta_def event_delta_def deltas_ok_def
  delta_sats_of_def set_fp_state_def fp_state_of_def\<close>)

lemma process_power_events_inv:
  assumes "rfold (process_power_event X s) evs ps0 = Inr ps" and "proc_inv X s base [] ps0"
  shows "proc_inv X s base evs ps"
  using assms
proof (induction evs arbitrary: ps rule: rev_induct)
  case (snoc ev evs)
  from snoc.prems(1) obtain ps1 where "rfold (process_power_event X s) evs ps0 = Inr ps1" "process_power_event X s ev ps1 = Inr ps"
    by (auto simp: rfold_append rbind_eq_Inr)
  with snoc.IH snoc.prems(2) show ?case using process_power_event_inv by blast
qed simp

lemma expired_phase:
  fixes xs :: "(string \<times> BTCDelegationStatus) list"
  assumes "rfold (\<lambda>(delStkTxHash, _) ps.
              case GetBTCDelegation X s delStkTxHash of
                Inl _ \<Rightarrow> Inl (Panic ''failed to get the BTC delegation'')
              | Inr btcDel \<Rightarrow>
                  if IsUnbondedEarly btcDel then Inr ps else unbond_if_quorum X s btcDel ps) xs ps = Inr ps'"
    and "deltas_ok D ps"
  shows "deltas_ok (\<lambda>h. D h + (\<Sum>x\<leftarrow>xs. event_delta X s (BtcDelStateUpdate (fst x) EXPIRED) h)) ps' \<and> ps_rest ps' = ps_rest ps"
  using assms
proof (induction xs arbitrary: ps D)
  case (Cons x xs)
  let ?step = "\<lambda>(delStkTxHash, _ :: BTCDelegationStatus) ps.
              case GetBTCDelegation X s delStkTxHash of
                Inl _ \<Rightarrow> Inl (Panic ''failed to get the BTC delegation'')
              | Inr btcDel \<Rightarrow>
                  if IsUnbondedEarly btcDel then Inr ps else unbond_if_quorum X s btcDel ps"
  from Cons.prems(1) obtain ps1 where ps1: "?step x ps = Inr ps1" and rest: "rfold ?step xs ps1 = Inr ps'"
    by (auto simp: rbind_eq_Inr)
  obtain btcDel where d: "GetBTCDelegation X s (fst x) = Inr btcDel"
    and e: "(if IsUnbondedEarly btcDel then Inr ps else unbond_if_quorum X s btcDel ps) = Inr ps1"
    using ps1 by (auto split: prod.splits sum.splits)
  have "deltas_ok (\<lambda>h. D h + event_delta X s (BtcDelStateUpdate (fst x) EXPIRED) h) ps1 \<and> ps_rest ps1 = ps_rest ps"
    using e Cons.prems(2) unbond_if_quorum_delta [of X s btcDel ps ps1 D]
    by (cases "IsUnbondedEarly btcDel") (simp_all add: event_delta_def d)
  with Cons.IH [OF rest] show ?case by (fastforce simp: add.assoc)
qed simp

lemma expired_sum:
  "(\<Sum>ev\<leftarrow>evs. imm_delta X s ev h) + (\<Sum>x\<leftarrow>expired_of evs. event_delta X s (BtcDelStateUpdate (fst x) EXPIRED) h) =
   (\<Sum>ev\<leftarrow>evs. event_delta X s ev h)"
proof (induction evs rule: rev_induct)
  case (snoc ev evs)
  have "imm_delta X s ev h + (\<Sum>x\<leftarrow>(case ev of BtcDelStateUpdate h st \<Rightarrow> if st = EXPIRED then [(h, st)] else [] | _ \<Rightarrow> []).
      event_delta X s (BtcDelStateUpdate (fst x) EXPIRED) h) = event_delta X s ev h"
    by (cases ev) (simp_all add: imm_delta_def)
  with snoc show ?case by simp
qed (simp add: expired_of_def)

lemma slashed_phase:
  "ps_delta_sats (processSlashedEvents ps) = ps_delta_sats ps" "ps_fps (processSlashedEvents ps) = ps_fps ps"
  "fp_state_of (processSlashedEvents ps) h =
     (if h \<in> MarshalHex ` set (ps_slashed_events ps) then FinalityProviderState_SLASHED else fp_state_of ps h)"
proof -
  have "ps_delta_sats (fold (\<lambda>pk. set_fp_state (MarshalHex pk) FinalityProviderState_SLASHED) pks ps) = ps_delta_sats ps \<and>
    ps_fps (fold (\<lambda>pk. set_fp_state (MarshalHex pk) FinalityProviderState_SLASHED) pks ps) = ps_fps ps \<and>
    fp_state_of (fold (\<lambda>pk. set_fp_state (MarshalHex pk) FinalityProviderState_SLASHED) pks ps) h =
     (if h \<in> MarshalHex ` set pks then FinalityProviderState_SLASHED else fp_state_of ps h)" for pks
    by (induction pks arbitrary: ps) (auto simp: set_fp_state_def fp_state_of_def)
  then show "ps_delta_sats (processSlashedEvents ps) = ps_delta_sats ps" "ps_fps (processSlashedEvents ps) = ps_fps ps"
    "fp_state_of (processSlashedEvents ps) h =
     (if h \<in> MarshalHex ` set (ps_slashed_events ps) then FinalityProviderState_SLASHED else fp_state_of ps h)"
    by (simp_all add: processSlashedEvents_def)
qed

text \<open>The states the previous cache starts with.\<close>

definition base_state :: "VotingPowerDistCache \<Rightarrow> string \<Rightarrow> FinalityProviderState" where
  "base_state dc h = (if \<exists>fp \<in> set (dc_finality_providers dc). di_is_jailed fp \<and> MarshalHex (di_btc_pk fp) = h
     then FinalityProviderState_JAILED else FinalityProviderState_UNKNOWN)"

lemma fill_inv:
  assumes "\<forall>fp \<in> set (dc_finality_providers dc). \<not> di_is_slashed fp"
  shows "proc_inv X s (base_state dc) [] (FillByPrevVpDstCache dc NewProcessingState)"
proof -
  let ?f = "\<lambda>(idx, fp) ps.
             let isActive = (idx < unat (dc_num_active_fps dc));
                 ps1 = (if isActive
                        then ps\<lparr>ps_prev_active := kv_set (MarshalHex (di_btc_pk fp)) () (ps_prev_active ps)\<rparr>
                        else ps)
             in AddStateForFp fp ps1"
  have "ps_delta_sats (fold ?f xs ps) = ps_delta_sats ps \<and> ps_fps (fold ?f xs ps) = ps_fps ps \<and>
      ps_expired_events (fold ?f xs ps) = ps_expired_events ps \<and> ps_slashed_events (fold ?f xs ps) = ps_slashed_events ps \<and>
      fp_state_of (fold ?f xs ps) h = (if \<exists>fp \<in> snd ` set xs. di_is_jailed fp \<and> MarshalHex (di_btc_pk fp) = h
        then FinalityProviderState_JAILED else fp_state_of ps h)"
    if "\<forall>fp \<in> snd ` set xs. \<not> di_is_slashed fp" for xs ps h
    using that
  proof (induction xs arbitrary: ps)
    case (Cons x xs)
    obtain idx fp where x: "x = (idx, fp)" by (cases x)
    have "ps_delta_sats (?f x ps) = ps_delta_sats ps" "ps_fps (?f x ps) = ps_fps ps"
      "ps_expired_events (?f x ps) = ps_expired_events ps" "ps_slashed_events (?f x ps) = ps_slashed_events ps"
      "fp_state_of (?f x ps) h = (if di_is_jailed fp \<and> MarshalHex (di_btc_pk fp) = h
        then FinalityProviderState_JAILED else fp_state_of ps h)"
      using Cons.prems by (simp_all add: x AddStateForFp_def set_fp_state_def fp_state_of_def Let_def)
    with Cons show ?case by (auto simp: x)
  qed simp
  note main = this
  have snds: "snd ` set (enumerate 0 (dc_finality_providers dc)) = set (dc_finality_providers dc)"
    by (metis image_set map_snd_enumerate)
  have new: "ps_delta_sats NewProcessingState = []" "ps_fps NewProcessingState = []" "ps_expired_events NewProcessingState = []"
    "ps_slashed_events NewProcessingState = []" "fp_state_of NewProcessingState h = FinalityProviderState_UNKNOWN" for h
    by (simp_all add: NewProcessingState_def fp_state_of_def)
  have "ps_delta_sats (FillByPrevVpDstCache dc NewProcessingState) = [] \<and> ps_fps (FillByPrevVpDstCache dc NewProcessingState) = [] \<and>
      ps_expired_events (FillByPrevVpDstCache dc NewProcessingState) = [] \<and>
      ps_slashed_events (FillByPrevVpDstCache dc NewProcessingState) = [] \<and>
      fp_state_of (FillByPrevVpDstCache dc NewProcessingState) h = base_state dc h" for h
    using main [of "enumerate 0 (dc_finality_providers dc)" NewProcessingState h] assms
    unfolding snds new FillByPrevVpDstCache_def base_state_def by blast
  then show ?thesis
    by (simp add: proc_inv_def deltas_ok_def delta_sats_of_def wrap64_def kv_has_def expired_of_def slashed_of_def jail_state_def)
qed

section \<open>Stake\<close>

definition stake_in :: "FinalityProviderDistInfo list \<Rightarrow> string \<Rightarrow> int" where
  "stake_in fps h = (\<Sum>fp\<leftarrow>fps. if MarshalHex (di_btc_pk fp) = h then uint (di_total_bonded_sat fp) else 0)"

lemma stake_in_simps [simp]:
  "stake_in [] h = 0"
  "stake_in (fp # fps) h = (if MarshalHex (di_btc_pk fp) = h then uint (di_total_bonded_sat fp) else 0) + stake_in fps h"
  "stake_in (fps @ fps') h = stake_in fps h + stake_in fps' h"
  by (simp_all add: stake_in_def)

lemma stake_in_absent: "h \<notin> MarshalHex ` di_btc_pk ` set fps \<Longrightarrow> stake_in fps h = 0"
  by (induction fps) auto

lemma stake_in_member: "fp \<in> set fps \<Longrightarrow> distinct (map di_btc_pk fps) \<Longrightarrow> stake_in fps (MarshalHex (di_btc_pk fp)) = uint (di_total_bonded_sat fp)"
  by (induction fps) (auto intro!: stake_in_absent)

lemma stake_in_nonneg: "0 \<le> stake_in fps h"
  by (induction fps) auto

definition known_result :: "ProcessingState \<Rightarrow> FinalityProviderDistInfo \<Rightarrow> FinalityProviderDistInfo list" where
  "known_result ps fp =
     (let h = MarshalHex (di_btc_pk fp);
          fp' = (with_jail_state (fp_state_of ps h) fp)
            \<lparr>di_total_bonded_sat := word_of_int (uint (di_total_bonded_sat fp) + delta_sats_of ps h)\<rparr>
      in if fp_state_of ps h \<noteq> FinalityProviderState_SLASHED \<and> di_total_bonded_sat fp' > 0 then [fp'] else [])"

lemma with_jail_state_simps [simp]:
  "di_btc_pk (with_jail_state st fp) = di_btc_pk fp" "di_total_bonded_sat (with_jail_state st fp) = di_total_bonded_sat fp"
  "di_is_slashed (with_jail_state st fp) = di_is_slashed fp"
  by (cases st; simp add: with_jail_state_def)+

lemma apply_to_known_Inr:
  assumes "apply_to_known fp (d, ps) = Inr (d', ps')" and "is_i64 (delta_sats_of ps (MarshalHex (di_btc_pk fp)))"
  shows "dc_finality_providers d' = dc_finality_providers d @ known_result ps fp"
    "fp_state_of ps (MarshalHex (di_btc_pk fp)) \<noteq> FinalityProviderState_SLASHED \<Longrightarrow>
      0 \<le> uint (di_total_bonded_sat fp) + delta_sats_of ps (MarshalHex (di_btc_pk fp)) \<and>
      ps' = ps\<lparr>ps_delta_sats := kv_del (MarshalHex (di_btc_pk fp)) (ps_delta_sats ps)\<rparr>"
    "fp_state_of ps (MarshalHex (di_btc_pk fp)) = FinalityProviderState_SLASHED \<Longrightarrow> ps' = ps"
  using assms
  by (auto simp: apply_to_known_def known_result_def ChangeDeltaSats_arith AddFinalityProviderDistInfo_def Let_def
      split: if_splits)

lemma known_loop:
  assumes "rfold apply_to_known fps (d, ps) = Inr (d', ps')" and "distinct (map di_btc_pk fps)"
    and "\<forall>h. is_i64 (delta_sats_of ps h)"
  shows "dc_finality_providers d' = dc_finality_providers d @ concat (map (known_result ps) fps) \<and>
    (\<forall>fp \<in> set fps. fp_state_of ps (MarshalHex (di_btc_pk fp)) \<noteq> FinalityProviderState_SLASHED \<longrightarrow>
       0 \<le> uint (di_total_bonded_sat fp) + delta_sats_of ps (MarshalHex (di_btc_pk fp))) \<and>
    ps_fp_states ps' = ps_fp_states ps \<and> ps_fps ps' = ps_fps ps \<and> (kv_ok (ps_delta_sats ps) \<longrightarrow> kv_ok (ps_delta_sats ps')) \<and>
    (\<forall>h. kv_get (ps_delta_sats ps') h =
       (if h \<in> MarshalHex ` di_btc_pk ` set fps \<and> fp_state_of ps h \<noteq> FinalityProviderState_SLASHED then None
        else kv_get (ps_delta_sats ps) h))"
  using assms
proof (induction fps arbitrary: d ps)
  case (Cons fp fps)
  let ?h = "MarshalHex (di_btc_pk fp)"
  from Cons.prems(1) obtain d1 ps1 where 1: "apply_to_known fp (d, ps) = Inr (d1, ps1)"
    and 2: "rfold apply_to_known fps (d1, ps1) = Inr (d', ps')" by (auto simp: rbind_eq_Inr)
  note one = apply_to_known_Inr [OF 1 Cons.prems(3) [rule_format]]
  have ps1: "ps1 = (if fp_state_of ps ?h = FinalityProviderState_SLASHED then ps
      else ps\<lparr>ps_delta_sats := kv_del ?h (ps_delta_sats ps)\<rparr>)" using one(2,3) by auto
  have states: "fp_state_of ps1 = fp_state_of ps" by (rule ext) (simp add: ps1 fp_state_of_def)
  have delta: "delta_sats_of ps1 h = (if h = ?h \<and> fp_state_of ps ?h \<noteq> FinalityProviderState_SLASHED then 0 else delta_sats_of ps h)" for h
    by (simp add: ps1 delta_sats_of_def)
  have hne: "MarshalHex (di_btc_pk x) \<noteq> ?h" if "x \<in> set fps" for x
    using Cons.prems(2) imageI [OF that, of di_btc_pk] by auto
  have "known_result ps1 x = known_result ps x" if "x \<in> set fps" for x
    using hne [OF that] by (simp add: known_result_def states delta Let_def)
  then have same: "map (known_result ps1) fps = map (known_result ps) fps" by simp
  have "\<forall>h. is_i64 (delta_sats_of ps1 h)" using Cons.prems(3) by (simp add: delta is_i64_def)
  note IH = Cons.IH [OF 2 _ this]
  have d: "distinct (map di_btc_pk fps)" using Cons.prems(2) by simp
  note IH = IH [OF d, unfolded same states]
  show ?case
  proof (intro conjI)
    show "dc_finality_providers d' = dc_finality_providers d @ concat (map (known_result ps) (fp # fps))"
      using IH one(1) by simp
    show "\<forall>x \<in> set (fp # fps). fp_state_of ps (MarshalHex (di_btc_pk x)) \<noteq> FinalityProviderState_SLASHED \<longrightarrow>
       0 \<le> uint (di_total_bonded_sat x) + delta_sats_of ps (MarshalHex (di_btc_pk x))"
      using IH one(2) hne by (auto simp: delta)
    show "ps_fp_states ps' = ps_fp_states ps" "ps_fps ps' = ps_fps ps" using IH by (simp_all add: ps1)
    show "kv_ok (ps_delta_sats ps) \<longrightarrow> kv_ok (ps_delta_sats ps')" using IH by (simp add: ps1)
    have "kv_get (ps_delta_sats ps1) h =
      (if h = ?h \<and> fp_state_of ps h \<noteq> FinalityProviderState_SLASHED then None else kv_get (ps_delta_sats ps) h)" for h
      by (auto simp: ps1)
    then show "\<forall>h. kv_get (ps_delta_sats ps') h =
       (if h \<in> MarshalHex ` di_btc_pk ` set (fp # fps) \<and> fp_state_of ps h \<noteq> FinalityProviderState_SLASHED then None
        else kv_get (ps_delta_sats ps) h)"
      using IH by auto
  qed
qed simp

lemma stake_known:
  assumes "distinct (map di_btc_pk fps)"
    and "\<And>fp. fp \<in> set fps \<Longrightarrow> fp_state_of ps (MarshalHex (di_btc_pk fp)) \<noteq> FinalityProviderState_SLASHED \<Longrightarrow>
       0 \<le> uint (di_total_bonded_sat fp) + delta_sats_of ps (MarshalHex (di_btc_pk fp)) \<and>
       uint (di_total_bonded_sat fp) + delta_sats_of ps (MarshalHex (di_btc_pk fp)) < 2 ^ 64"
  shows "stake_in (concat (map (known_result ps) fps)) h =
    (if h \<in> MarshalHex ` di_btc_pk ` set fps \<and> fp_state_of ps h \<noteq> FinalityProviderState_SLASHED
     then stake_in fps h + delta_sats_of ps h else 0)"
  using assms
proof (induction fps)
  case (Cons fp fps)
  let ?h = "MarshalHex (di_btc_pk fp)"
  have one: "stake_in (known_result ps fp) h = (if h = ?h \<and> fp_state_of ps h \<noteq> FinalityProviderState_SLASHED
      then uint (di_total_bonded_sat fp) + delta_sats_of ps h else 0)"
  proof (cases "fp_state_of ps ?h = FinalityProviderState_SLASHED")
    case False
    define n where "n = uint (di_total_bonded_sat fp) + delta_sats_of ps ?h"
    have b: "0 \<le> n" "n < 2 ^ 64" using Cons.prems(2) [of fp] False by (simp_all add: n_def)
    have n: "uint (word_of_int n :: u64) = n" using b by (simp add: uint_word_of_int)
    have z: "0 < (word_of_int n :: u64) \<longleftrightarrow> n \<noteq> 0" using n by (metis uint_0_eq uint_0_iff word_gt_0)
    have "known_result ps fp = (if n \<noteq> 0
        then [(with_jail_state (fp_state_of ps ?h) fp)\<lparr>di_total_bonded_sat := word_of_int n\<rparr>] else [])"
      unfolding known_result_def Let_def n_def [symmetric] using False z by simp
    then show ?thesis using n False by (auto simp: n_def)
  qed (auto simp: known_result_def)
  have "stake_in fps ?h = 0" by (rule stake_in_absent) (use Cons.prems(1) in auto)
  moreover have "?h \<notin> MarshalHex ` di_btc_pk ` set fps" using Cons.prems(1) by auto
  ultimately show ?case using Cons one by auto
qed simp

lemma known_entries:
  assumes "fp' \<in> set (concat (map (known_result ps) fps))"
  shows "\<exists>fp \<in> set fps. di_btc_pk fp' = di_btc_pk fp \<and> di_is_slashed fp' = di_is_slashed fp \<and> 0 < di_total_bonded_sat fp' \<and>
    di_is_jailed fp' = di_is_jailed (with_jail_state (fp_state_of ps (MarshalHex (di_btc_pk fp))) fp) \<and>
    fp_state_of ps (MarshalHex (di_btc_pk fp)) \<noteq> FinalityProviderState_SLASHED"
proof -
  obtain fp where "fp \<in> set fps" "fp' \<in> set (known_result ps fp)" using assms by auto
  then show ?thesis by (intro bexI [of _ fp]) (auto simp: known_result_def Let_def split: if_splits)
qed

lemma known_distinct:
  "distinct (map di_btc_pk fps) \<Longrightarrow> distinct (map di_btc_pk (concat (map (known_result ps) fps)))"
proof (induction fps)
  case (Cons fp fps)
  have "map di_btc_pk (known_result ps fp) \<in> {[], [di_btc_pk fp]}" by (simp add: known_result_def Let_def)
  moreover have "di_btc_pk fp \<notin> di_btc_pk ` set (concat (map (known_result ps) fps))"
  proof
    assume "di_btc_pk fp \<in> di_btc_pk ` set (concat (map (known_result ps) fps))"
    then obtain fp' where fp': "di_btc_pk fp = di_btc_pk fp'" "fp' \<in> set (concat (map (known_result ps) fps))" by (rule imageE)
    from known_entries [OF fp'(2)] fp'(1) obtain x where "x \<in> set fps" "di_btc_pk fp = di_btc_pk x" by auto
    with Cons.prems show False by auto
  qed
  ultimately show ?case using Cons by (auto simp: image_iff)
qed simp

text \<open>Finality providers that were not in the cache.\<close>

definition cache_ok :: "bs_state \<Rightarrow> ProcessingState \<Rightarrow> bool" where
  "cache_ok s ps \<longleftrightarrow> (\<forall>h fp. kv_get (ps_fps ps) h = Some fp \<longrightarrow>
     (\<exists>pk. NewBIP340PubKeyFromHex h = Inr pk \<and> GetFinalityProvider s pk = Inr fp))"

lemma loadFP_Inr:
  assumes "loadFP s h ps = Inr (fp, ps')" and "cache_ok s ps"
  shows "cache_ok s ps'" "\<exists>m. ps' = ps\<lparr>ps_fps := m\<rparr>"
    "\<exists>pk. NewBIP340PubKeyFromHex h = Inr pk \<and> kv_get (bs_fps s) pk = Some fp"
proof -
  have "cache_ok s ps' \<and> (\<exists>m. ps' = ps\<lparr>ps_fps := m\<rparr>) \<and> (\<exists>pk. NewBIP340PubKeyFromHex h = Inr pk \<and> GetFinalityProvider s pk = Inr fp)"
  proof (cases "kv_get (ps_fps ps) h")
    case None
    with assms obtain pk where pk: "NewBIP340PubKeyFromHex h = Inr pk" "GetFinalityProvider s pk = Inr fp"
      "ps' = ps\<lparr>ps_fps := kv_set h fp (ps_fps ps)\<rparr>"
      by (auto simp: loadFP_def rbind_eq_Inr)
    with assms(2) show ?thesis by (auto simp: cache_ok_def)
  next
    case (Some fp')
    with assms have "fp' = fp" "ps' = ps" by (simp_all add: loadFP_def)
    with Some assms(2) show ?thesis by (auto simp: cache_ok_def intro: exI [of _ "ps_fps ps"])
  qed
  then show "cache_ok s ps'" "\<exists>m. ps' = ps\<lparr>ps_fps := m\<rparr>"
    "\<exists>pk. NewBIP340PubKeyFromHex h = Inr pk \<and> kv_get (bs_fps s) pk = Some fp"
    by (auto simp: GetFinalityProvider_def split: option.splits)
qed

lemma MarshalHex_from_hex: "NewBIP340PubKeyFromHex (MarshalHex a) = Inr pk \<Longrightarrow> pk = a"
  by (auto simp: NewBIP340PubKeyFromHex_def UnmarshalHex_def MarshalHex_def NewBIP340PubKey_def BIP340PubKey_Unmarshal_def rbind_eq_Inr split: if_splits sum.splits)

definition store_slashed :: "bs_state \<Rightarrow> string \<Rightarrow> bool" where
  "store_slashed s h \<longleftrightarrow> (\<exists>pk fp. h = MarshalHex pk \<and> kv_get (bs_fps s) pk = Some fp \<and> FinalityProvider_IsSlashed fp)"

lemma apply_to_new_Inr:
  assumes "apply_to_new X s (MarshalHex pk) (d, ps) = Inr (d', ps')" and ok: "cache_ok s ps" "fps_ok s"
    and "is_i64 (delta_sats_of ps (MarshalHex pk))" "delta_sats_of ps (MarshalHex pk) < 2 ^ 64"
  obtains new m where "dc_finality_providers d' = dc_finality_providers d @ new" "ps' = ps\<lparr>ps_fps := m\<rparr>" "cache_ok s ps'"
    "\<forall>h. stake_in new h = (if h = MarshalHex pk \<and> \<not> store_slashed s h then delta_sats_of ps h else 0)"
    "\<forall>x \<in> set new. di_btc_pk x = pk \<and> \<not> di_is_slashed x \<and> 0 < di_total_bonded_sat x \<and>
      (\<exists>fp. kv_get (bs_fps s) pk = Some fp \<and> \<not> FinalityProvider_IsSlashed fp \<and>
        di_is_jailed x = (case fp_state_of ps (MarshalHex pk) of FinalityProviderState_JAILED \<Rightarrow> True
          | FinalityProviderState_UNJAILED \<Rightarrow> False | _ \<Rightarrow> fp_jailed fp))"
    "length new \<le> 1"
proof -
  let ?h = "MarshalHex pk"
  obtain fp ps1 where load: "loadFP s ?h ps = Inr (fp, ps1)"
    using assms(1) by (auto simp: apply_to_new_def split: sum.splits)
  note L = loadFP_Inr [OF load ok(1)]
  have fp: "kv_get (bs_fps s) pk = Some fp" using L(3) MarshalHex_from_hex by blast
  then have pk: "fp_btc_pk fp = pk" by (rule fps_ok_get [OF ok(2)])
  obtain m where m: "ps1 = ps\<lparr>ps_fps := m\<rparr>" using L(2) by blast
  have same: "fp_state_of ps1 = fp_state_of ps" "delta_sats_of ps1 = delta_sats_of ps"
    by (auto simp: m fp_state_of_def delta_sats_of_def intro!: ext)
  show ?thesis
  proof (cases "FinalityProvider_IsSlashed fp")
    case True
    then have "d' = d" "ps' = ps1" using assms(1) load by (simp_all add: apply_to_new_def)
    moreover have "store_slashed s ?h" using fp True by (auto simp: store_slashed_def)
    ultimately show ?thesis using that [of "[]" m] m L(1) by auto
  next
    case False
    obtain info where info: "NewFinalityProviderDistInfo X fp = Inr info"
      and r: "(case ChangeDeltaSats (delta_sats_of ps ?h) (with_jail_state (fp_state_of ps ?h) info) of
          Inl _ \<Rightarrow> Inl (Panic ''unable to update delta sats'')
        | Inr fp' \<Rightarrow> Inr (if di_total_bonded_sat fp' > 0 then AddFinalityProviderDistInfo fp' d else d, ps1)) = Inr (d', ps')"
      using assms(1) load False by (auto simp only: apply_to_new_def same rbind_eq_Inr Let_def prod.case sum.case if_False)
    obtain x where x: "ChangeDeltaSats (delta_sats_of ps ?h) (with_jail_state (fp_state_of ps ?h) info) = Inr x"
      and d': "d' = (if 0 < di_total_bonded_sat x then AddFinalityProviderDistInfo x d else d)" "ps' = ps1"
      using r by (cases "ChangeDeltaSats (delta_sats_of ps ?h) (with_jail_state (fp_state_of ps ?h) info)") auto
    have i: "di_btc_pk info = pk" "\<not> di_is_slashed info" "di_total_bonded_sat info = 0" "di_is_jailed info = fp_jailed fp"
      using info False pk by (auto simp: NewFinalityProviderDistInfo_def split: sum.splits)
    have nonneg: "0 \<le> delta_sats_of ps ?h"
      and xs: "x = (with_jail_state (fp_state_of ps ?h) info)\<lparr>di_total_bonded_sat := word_of_int (delta_sats_of ps ?h)\<rparr>"
      using x assms(4) i(3) by (auto simp: ChangeDeltaSats_arith split: if_splits)
    have sat: "uint (di_total_bonded_sat x) = delta_sats_of ps ?h"
      using nonneg assms(5) by (simp add: xs uint_word_of_int)
    have ns: "\<not> store_slashed s ?h" using fp False by (auto simp: store_slashed_def)
    define new where "new = (if 0 < di_total_bonded_sat x then [x] else [])"
    have "di_total_bonded_sat x = 0 \<Longrightarrow> delta_sats_of ps ?h = 0" using sat by simp
    then have "\<forall>h. stake_in new h = (if h = ?h \<and> \<not> store_slashed s h then delta_sats_of ps h else 0)"
      using sat ns i(1) by (auto simp: new_def xs word_neq_0_conv [symmetric])
    moreover have "\<forall>y \<in> set new. di_btc_pk y = pk \<and> \<not> di_is_slashed y \<and> 0 < di_total_bonded_sat y \<and>
      (\<exists>fp. kv_get (bs_fps s) pk = Some fp \<and> \<not> FinalityProvider_IsSlashed fp \<and>
        di_is_jailed y = (case fp_state_of ps ?h of FinalityProviderState_JAILED \<Rightarrow> True
          | FinalityProviderState_UNJAILED \<Rightarrow> False | _ \<Rightarrow> fp_jailed fp))"
      using i fp False by (auto simp: new_def xs with_jail_state_def split: FinalityProviderState.splits)
    moreover have "dc_finality_providers d' = dc_finality_providers d @ new" "length new \<le> 1"
      by (simp_all add: d'(1) new_def AddFinalityProviderDistInfo_def)
    ultimately show ?thesis using that [of new m] m d'(2) L(1) by auto
  qed
qed

lemma new_loop:
  assumes "rfold (apply_to_new X s) (map MarshalHex pks) (d, ps) = Inr (d', ps')" and "cache_ok s ps" "fps_ok s" "distinct pks"
    and "\<forall>h. is_i64 (delta_sats_of ps h)"
  shows "\<exists>new. dc_finality_providers d' = dc_finality_providers d @ new \<and>
    (\<forall>h. stake_in new h = (if h \<in> MarshalHex ` set pks \<and> \<not> store_slashed s h then delta_sats_of ps h else 0)) \<and>
    (\<forall>x \<in> set new. di_btc_pk x \<in> set pks \<and> \<not> di_is_slashed x \<and> 0 < di_total_bonded_sat x \<and>
      (\<exists>fp. kv_get (bs_fps s) (di_btc_pk x) = Some fp \<and> \<not> FinalityProvider_IsSlashed fp \<and>
        di_is_jailed x = (case fp_state_of ps (MarshalHex (di_btc_pk x)) of FinalityProviderState_JAILED \<Rightarrow> True
          | FinalityProviderState_UNJAILED \<Rightarrow> False | _ \<Rightarrow> fp_jailed fp))) \<and>
    distinct (map di_btc_pk new)"
  using assms
proof (induction pks arbitrary: d ps)
  case (Cons pk pks)
  from Cons.prems(1) obtain d1 ps1 where 1: "apply_to_new X s (MarshalHex pk) (d, ps) = Inr (d1, ps1)"
    and 2: "rfold (apply_to_new X s) (map MarshalHex pks) (d1, ps1) = Inr (d', ps')" by (auto simp: rbind_eq_Inr)
  have small: "is_i64 (delta_sats_of ps (MarshalHex pk))" using Cons.prems(5) by blast
  then have less: "delta_sats_of ps (MarshalHex pk) < 2 ^ 64" by (simp add: is_i64_def)
  obtain new1 m where n1: "dc_finality_providers d1 = dc_finality_providers d @ new1" "ps1 = ps\<lparr>ps_fps := m\<rparr>" "cache_ok s ps1"
    "\<forall>h. stake_in new1 h = (if h = MarshalHex pk \<and> \<not> store_slashed s h then delta_sats_of ps h else 0)"
    "\<forall>x \<in> set new1. di_btc_pk x = pk \<and> \<not> di_is_slashed x \<and> 0 < di_total_bonded_sat x \<and>
      (\<exists>fp. kv_get (bs_fps s) pk = Some fp \<and> \<not> FinalityProvider_IsSlashed fp \<and>
        di_is_jailed x = (case fp_state_of ps (MarshalHex pk) of FinalityProviderState_JAILED \<Rightarrow> True
          | FinalityProviderState_UNJAILED \<Rightarrow> False | _ \<Rightarrow> fp_jailed fp))"
    "length new1 \<le> 1"
    by (rule apply_to_new_Inr [OF 1 Cons.prems(2,3) small less])
  have same: "fp_state_of ps1 = fp_state_of ps" "delta_sats_of ps1 = delta_sats_of ps"
    by (auto simp: n1(2) fp_state_of_def delta_sats_of_def intro!: ext)
  have i64: "\<forall>h. is_i64 (delta_sats_of ps1 h)" using Cons.prems(5) by (simp add: same)
  have d: "distinct pks" "pk \<notin> set pks" using Cons.prems(4) by simp_all
  obtain new2 where n2: "dc_finality_providers d' = dc_finality_providers d1 @ new2"
    "\<forall>h. stake_in new2 h = (if h \<in> MarshalHex ` set pks \<and> \<not> store_slashed s h then delta_sats_of ps h else 0)"
    "\<forall>x \<in> set new2. di_btc_pk x \<in> set pks \<and> \<not> di_is_slashed x \<and> 0 < di_total_bonded_sat x \<and>
      (\<exists>fp. kv_get (bs_fps s) (di_btc_pk x) = Some fp \<and> \<not> FinalityProvider_IsSlashed fp \<and>
        di_is_jailed x = (case fp_state_of ps (MarshalHex (di_btc_pk x)) of FinalityProviderState_JAILED \<Rightarrow> True
          | FinalityProviderState_UNJAILED \<Rightarrow> False | _ \<Rightarrow> fp_jailed fp))"
    "distinct (map di_btc_pk new2)"
    using Cons.IH [OF 2 n1(3) Cons.prems(3) d(1) i64] unfolding same by blast
  show ?case
  proof (intro exI [of _ "new1 @ new2"] conjI)
    show "dc_finality_providers d' = dc_finality_providers d @ new1 @ new2" using n1(1) n2(1) by simp
    show "\<forall>h. stake_in (new1 @ new2) h =
        (if h \<in> MarshalHex ` set (pk # pks) \<and> \<not> store_slashed s h then delta_sats_of ps h else 0)"
      using n1(4) n2(2) d(2) by auto
    show "distinct (map di_btc_pk (new1 @ new2))"
      using n1(5,6) n2(3,4) d(2) by (cases new1) auto
    show "\<forall>x \<in> set (new1 @ new2). di_btc_pk x \<in> set (pk # pks) \<and> \<not> di_is_slashed x \<and> 0 < di_total_bonded_sat x \<and>
      (\<exists>fp. kv_get (bs_fps s) (di_btc_pk x) = Some fp \<and> \<not> FinalityProvider_IsSlashed fp \<and>
        di_is_jailed x = (case fp_state_of ps (MarshalHex (di_btc_pk x)) of FinalityProviderState_JAILED \<Rightarrow> True
          | FinalityProviderState_UNJAILED \<Rightarrow> False | _ \<Rightarrow> fp_jailed fp))"
      using n1(5) n2(3) by auto
  qed
qed simp

section \<open>The power distribution of a block\<close>

text \<open>The jail flag after the events of the window: the last jailing or unjailing decides.\<close>

definition jail_flag :: "EventPowerDistUpdate list \<Rightarrow> BIP340PubKey \<Rightarrow> bool \<Rightarrow> bool" where
  "jail_flag evs pk b = fold (\<lambda>ev b. case ev of
     JailedFp pk' \<Rightarrow> if pk' = pk then True else b | UnjailedFp pk' \<Rightarrow> if pk' = pk then False else b | _ \<Rightarrow> b) evs b"

lemma jail_state_flag:
  "(case jail_state evs (MarshalHex pk) st of FinalityProviderState_JAILED \<Rightarrow> True | FinalityProviderState_UNJAILED \<Rightarrow> False | _ \<Rightarrow> b) =
   jail_flag evs pk (case st of FinalityProviderState_JAILED \<Rightarrow> True | FinalityProviderState_UNJAILED \<Rightarrow> False | _ \<Rightarrow> b)"
  by (induction evs rule: rev_induct)
    (auto simp: jail_flag_def jail_state_def split: EventPowerDistUpdate.splits)

lemma with_jail_state_flag:
  "di_is_jailed (with_jail_state st fp) =
     (case st of FinalityProviderState_JAILED \<Rightarrow> True | FinalityProviderState_UNJAILED \<Rightarrow> False | _ \<Rightarrow> di_is_jailed fp)"
  by (cases st) (simp_all add: with_jail_state_def)

lemma slashed_of_set: "pk \<in> set (slashed_of evs) \<longleftrightarrow> SlashedFp pk \<in> set evs"
  by (induction evs rule: rev_induct) (auto simp: slashed_of_def split: EventPowerDistUpdate.splits)

lemma jail_state_not_slashed:
  "st \<noteq> FinalityProviderState_SLASHED \<Longrightarrow> jail_state evs h st \<noteq> FinalityProviderState_SLASHED"
  by (induction evs rule: rev_induct) (auto simp: jail_state_def split: EventPowerDistUpdate.splits)

lemma new_fp_hexes_facts:
  assumes "kv_ok (ps_delta_sats ps)"
  shows "distinct (new_fp_hexes ps)"
    "set (new_fp_hexes ps) = {h. kv_has (ps_delta_sats ps) h \<and> fp_state_of ps h \<noteq> FinalityProviderState_SLASHED}"
proof -
  let ?l = "filter (\<lambda>h. fp_state_of ps h \<noteq> FinalityProviderState_SLASHED) (map fst (ps_delta_sats ps))"
  have "mset (new_fp_hexes ps) = mset ?l" by (simp add: new_fp_hexes_def)
  moreover have "distinct ?l" using kv_ok_distinct [OF assms] by simp
  ultimately show "distinct (new_fp_hexes ps)" by (metis mset_eq_imp_distinct_iff)
  show "set (new_fp_hexes ps) = {h. kv_has (ps_delta_sats ps) h \<and> fp_state_of ps h \<noteq> FinalityProviderState_SLASHED}"
    using kv_get_iff [OF assms] by (force simp: new_fp_hexes_def kv_has_def)
qed

text \<open>The processing state in front of the two loops over the finality providers.\<close>

lemma events_processed:
  assumes ps1: "rfold (processEventsAtHeight X s) (range_u32 lastBTCTip curBTCTip) (FillByPrevVpDstCache dc NewProcessingState) = Inr ps1"
    and ps2: "processExpiredEvents X s ps1 = Inr ps2" and dc: "\<forall>fp \<in> set (dc_finality_providers dc). \<not> di_is_slashed fp"
  defines "evs \<equiv> GetAllPowerDistUpdateEvents s lastBTCTip curBTCTip"
  shows "deltas_ok (\<lambda>h. \<Sum>ev\<leftarrow>evs. event_delta X s ev h) (processSlashedEvents ps2)" "ps_fps (processSlashedEvents ps2) = []"
    "fp_state_of (processSlashedEvents ps2) (MarshalHex pk) = (if SlashedFp pk \<in> set evs then FinalityProviderState_SLASHED
       else jail_state evs (MarshalHex pk) (base_state dc (MarshalHex pk)))"
proof -
  have "rfold (process_power_event X s) evs (FillByPrevVpDstCache dc NewProcessingState) = Inr ps1"
    using ps1 unfolding processEventsAtHeight_def evs_def GetAllPowerDistUpdateEvents_def rfold_concat .
  then have inv: "proc_inv X s (base_state dc) evs ps1" by (rule process_power_events_inv) (rule fill_inv [OF dc])
  have "deltas_ok (\<lambda>h. (\<Sum>ev\<leftarrow>evs. imm_delta X s ev h) +
      (\<Sum>x\<leftarrow>ps_expired_events ps1. event_delta X s (BtcDelStateUpdate (fst x) EXPIRED) h)) ps2 \<and> ps_rest ps2 = ps_rest ps1"
    using inv by (intro expired_phase [OF ps2 [unfolded processExpiredEvents_def]]) (simp add: proc_inv_def)
  then have D: "deltas_ok (\<lambda>h. \<Sum>ev\<leftarrow>evs. event_delta X s ev h) ps2" and rest: "ps_rest ps2 = ps_rest ps1"
    using inv by (simp_all add: proc_inv_def expired_sum)
  show "deltas_ok (\<lambda>h. \<Sum>ev\<leftarrow>evs. event_delta X s ev h) (processSlashedEvents ps2)"
    using D by (simp add: deltas_ok_def delta_sats_of_def slashed_phase)
  show "ps_fps (processSlashedEvents ps2) = []" using rest inv by (simp add: slashed_phase proc_inv_def ps_rest_def)
  show "fp_state_of (processSlashedEvents ps2) (MarshalHex pk) = (if SlashedFp pk \<in> set evs then FinalityProviderState_SLASHED
       else jail_state evs (MarshalHex pk) (base_state dc (MarshalHex pk)))"
    using rest inv by (auto simp: slashed_phase(3) proc_inv_def ps_rest_def slashed_of_set [symmetric] fp_state_of_def [of ps1] fp_state_of_def [of ps2])
qed

lemma two_loops:
  assumes run: "ProcessAllPowerDistUpdateEvents X s dc lastBTCTip curBTCTip = Inr (newDc, ps)"
    and fps: "fps_ok s" and dc: "distinct (map di_btc_pk (dc_finality_providers dc))"
      "\<forall>fp \<in> set (dc_finality_providers dc). \<not> di_is_slashed fp"
  defines "evs \<equiv> GetAllPowerDistUpdateEvents s lastBTCTip curBTCTip"
  assumes delta: "\<forall>h. is_i64 (\<Sum>ev\<leftarrow>evs. event_delta X s ev h)"
  shows "\<exists>ps' pks new. dc_finality_providers newDc = concat (map (known_result ps') (dc_finality_providers dc)) @ new \<and>
    distinct (map di_btc_pk new) \<and> (\<forall>h. delta_sats_of ps' h = (\<Sum>ev\<leftarrow>evs. event_delta X s ev h)) \<and>
    (\<forall>pk. fp_state_of ps' (MarshalHex pk) = (if SlashedFp pk \<in> set evs then FinalityProviderState_SLASHED
       else jail_state evs (MarshalHex pk) (base_state dc (MarshalHex pk)))) \<and>
    (\<forall>pk. pk \<in> set pks \<longleftrightarrow> pk \<notin> di_btc_pk ` set (dc_finality_providers dc) \<and> SlashedFp pk \<notin> set evs \<and> kv_has (ps_delta_sats ps') (MarshalHex pk)) \<and>
    (\<forall>fp \<in> set (dc_finality_providers dc). fp_state_of ps' (MarshalHex (di_btc_pk fp)) \<noteq> FinalityProviderState_SLASHED \<longrightarrow>
       0 \<le> uint (di_total_bonded_sat fp) + delta_sats_of ps' (MarshalHex (di_btc_pk fp))) \<and>
    (\<forall>pk. stake_in new (MarshalHex pk) = (if pk \<in> set pks \<and> \<not> store_slashed s (MarshalHex pk)
       then \<Sum>ev\<leftarrow>evs. event_delta X s ev (MarshalHex pk) else 0)) \<and>
    (\<forall>x \<in> set new. di_btc_pk x \<in> set pks \<and> \<not> di_is_slashed x \<and> 0 < di_total_bonded_sat x \<and>
      (\<exists>fp. kv_get (bs_fps s) (di_btc_pk x) = Some fp \<and> \<not> FinalityProvider_IsSlashed fp \<and>
        di_is_jailed x = (case fp_state_of ps' (MarshalHex (di_btc_pk x)) of FinalityProviderState_JAILED \<Rightarrow> True
          | FinalityProviderState_UNJAILED \<Rightarrow> False | _ \<Rightarrow> fp_jailed fp)))"
proof -
  let ?fps = "dc_finality_providers dc" and ?D = "\<lambda>h. \<Sum>ev\<leftarrow>evs. event_delta X s ev h"
  obtain ps1 ps2 dc1 ps3 where 1: "rfold (processEventsAtHeight X s) (range_u32 lastBTCTip curBTCTip) (FillByPrevVpDstCache dc NewProcessingState) = Inr ps1"
    and 2: "processExpiredEvents X s ps1 = Inr ps2"
    and 3: "rfold apply_to_known ?fps (NewVotingPowerDistCache, processSlashedEvents ps2) = Inr (dc1, ps3)"
    and 4: "rfold (apply_to_new X s) (new_fp_hexes ps3) (dc1, ps3) = Inr (newDc, ps)"
    using run by (auto simp: ProcessAllPowerDistUpdateEvents_def rbind_eq_Inr)
  define ps' where "ps' = processSlashedEvents ps2"
  note E = events_processed [OF 1 2 dc(2), folded evs_def ps'_def]
  have d: "delta_sats_of ps' h = ?D h" for h using E(1) delta by (simp add: deltas_ok_def wrap64_id)
  have st: "fp_state_of ps' (MarshalHex pk) = FinalityProviderState_SLASHED \<longleftrightarrow> SlashedFp pk \<in> set evs" for pk
    using jail_state_not_slashed [of "base_state dc (MarshalHex pk)" evs "MarshalHex pk"] by (simp add: E(3) base_state_def)
  have i64: "\<forall>h. is_i64 (delta_sats_of ps' h)" using delta by (simp add: d)
  have new0: "dc_finality_providers NewVotingPowerDistCache = []" by (simp add: NewVotingPowerDistCache_def)
  note K = known_loop [OF 3 [folded ps'_def] dc(1) i64, unfolded new0 append_Nil]
  let ?known = "concat (map (known_result ps') ?fps)"
  have ok3: "kv_ok (ps_delta_sats ps3)" using K E(1) by (simp add: deltas_ok_def)
  have get3: "kv_get (ps_delta_sats ps3) h = (if h \<in> MarshalHex ` di_btc_pk ` set ?fps \<and> fp_state_of ps' h \<noteq> FinalityProviderState_SLASHED then None
        else kv_get (ps_delta_sats ps') h)" for h using K by blast
  have st3: "fp_state_of ps3 = fp_state_of ps'" using K by (auto simp: fp_state_of_def intro!: ext)
  note N = new_fp_hexes_facts [OF ok3]
  have keys: "\<exists>pk. h = MarshalHex pk" if "h \<in> set (new_fp_hexes ps3)" for h
    using that E(1) get3 by (auto simp: N(2) deltas_ok_def kv_has_def split: if_splits)
  obtain pks where pks: "new_fp_hexes ps3 = map MarshalHex pks" using keys by (metis ex_map_conv)
  have dpks: "distinct pks" using N(1) by (simp add: pks distinct_map)
  have mem: "pk \<in> set pks \<longleftrightarrow> pk \<notin> di_btc_pk ` set ?fps \<and> SlashedFp pk \<notin> set evs \<and> kv_has (ps_delta_sats ps') (MarshalHex pk)" for pk
  proof -
    have "pk \<in> set pks \<longleftrightarrow> MarshalHex pk \<in> set (new_fp_hexes ps3)" by (auto simp: pks)
    also have "\<dots> \<longleftrightarrow> kv_has (ps_delta_sats ps3) (MarshalHex pk) \<and> SlashedFp pk \<notin> set evs" by (simp add: N(2) st3 st)
    also have "\<dots> \<longleftrightarrow> pk \<notin> di_btc_pk ` set ?fps \<and> SlashedFp pk \<notin> set evs \<and> kv_has (ps_delta_sats ps') (MarshalHex pk)"
      by (auto simp: kv_has_def get3 st image_iff)
    finally show ?thesis .
  qed
  have d3: "delta_sats_of ps3 (MarshalHex pk) = ?D (MarshalHex pk)" if "pk \<in> set pks" for pk
    using that mem [of pk] d [of "MarshalHex pk"] get3 [of "MarshalHex pk"] by (auto simp: delta_sats_of_def image_iff)
  have i64': "\<forall>h. is_i64 (delta_sats_of ps3 h)"
    using i64 get3 by (auto simp: delta_sats_of_def is_i64_def split: option.splits)
  have "cache_ok s ps3" using K E(2) by (simp add: cache_ok_def)
  from new_loop [OF 4 [unfolded pks] this fps dpks i64', unfolded st3] K
  obtain new where nf: "dc_finality_providers newDc = ?known @ new"
    and ns: "\<forall>h. stake_in new h = (if h \<in> MarshalHex ` set pks \<and> \<not> store_slashed s h then delta_sats_of ps3 h else 0)"
    and ne: "\<forall>x \<in> set new. di_btc_pk x \<in> set pks \<and> \<not> di_is_slashed x \<and> 0 < di_total_bonded_sat x \<and>
      (\<exists>fp. kv_get (bs_fps s) (di_btc_pk x) = Some fp \<and> \<not> FinalityProvider_IsSlashed fp \<and>
        di_is_jailed x = (case fp_state_of ps' (MarshalHex (di_btc_pk x)) of FinalityProviderState_JAILED \<Rightarrow> True
          | FinalityProviderState_UNJAILED \<Rightarrow> False | _ \<Rightarrow> fp_jailed fp))"
    and nd: "distinct (map di_btc_pk new)" by auto
  have k0: "\<forall>fp \<in> set ?fps. fp_state_of ps' (MarshalHex (di_btc_pk fp)) \<noteq> FinalityProviderState_SLASHED \<longrightarrow>
       0 \<le> uint (di_total_bonded_sat fp) + delta_sats_of ps' (MarshalHex (di_btc_pk fp))" using K by blast
  have ns': "\<forall>pk. stake_in new (MarshalHex pk) = (if pk \<in> set pks \<and> \<not> store_slashed s (MarshalHex pk) then ?D (MarshalHex pk) else 0)"
    using ns d3 by (auto simp: image_iff)
  show ?thesis by (intro exI [of _ ps'] exI [of _ pks] exI [of _ new] conjI nf nd allI d E(3) mem k0 ns' [rule_format] ne)
qed

lemma ProcessAll_spec:
  assumes run: "ProcessAllPowerDistUpdateEvents X s dc lastBTCTip curBTCTip = Inr (newDc, ps)"
    and fps: "fps_ok s" and dc: "distinct (map di_btc_pk (dc_finality_providers dc))"
      "\<forall>fp \<in> set (dc_finality_providers dc). \<not> di_is_slashed fp"
  defines "evs \<equiv> GetAllPowerDistUpdateEvents s lastBTCTip curBTCTip"
  assumes delta: "\<forall>h. is_i64 (\<Sum>ev\<leftarrow>evs. event_delta X s ev h)"
    and bound: "\<forall>h. stake_in (dc_finality_providers dc) h + (\<Sum>ev\<leftarrow>evs. event_delta X s ev h) < 2 ^ 64"
  shows "distinct (map di_btc_pk (dc_finality_providers newDc))"
    "\<forall>fp \<in> set (dc_finality_providers newDc). \<not> di_is_slashed fp \<and> 0 < di_total_bonded_sat fp \<and> SlashedFp (di_btc_pk fp) \<notin> set evs \<and>
       ((\<exists>old \<in> set (dc_finality_providers dc). di_btc_pk old = di_btc_pk fp \<and>
           di_is_jailed fp = jail_flag evs (di_btc_pk fp) (di_is_jailed old)) \<or>
        di_btc_pk fp \<notin> di_btc_pk ` set (dc_finality_providers dc) \<and>
          (\<exists>f. kv_get (bs_fps s) (di_btc_pk fp) = Some f \<and> \<not> FinalityProvider_IsSlashed f \<and>
             di_is_jailed fp = jail_flag evs (di_btc_pk fp) (fp_jailed f)))"
    "\<forall>pk. stake_in (dc_finality_providers newDc) (MarshalHex pk) =
       (if SlashedFp pk \<in> set evs \<or> pk \<notin> di_btc_pk ` set (dc_finality_providers dc) \<and> store_slashed s (MarshalHex pk) then 0
        else stake_in (dc_finality_providers dc) (MarshalHex pk) + (\<Sum>ev\<leftarrow>evs. event_delta X s ev (MarshalHex pk)))"
proof -
  let ?fps = "dc_finality_providers dc" and ?D = "\<lambda>h. \<Sum>ev\<leftarrow>evs. event_delta X s ev h"
  obtain ps' pks new where nf: "dc_finality_providers newDc = concat (map (known_result ps') ?fps) @ new"
    and nd: "distinct (map di_btc_pk new)" and d': "\<forall>h. delta_sats_of ps' h = ?D h"
    and st': "\<forall>pk. fp_state_of ps' (MarshalHex pk) = (if SlashedFp pk \<in> set evs then FinalityProviderState_SLASHED
       else jail_state evs (MarshalHex pk) (base_state dc (MarshalHex pk)))"
    and mem': "\<forall>pk. pk \<in> set pks \<longleftrightarrow> pk \<notin> di_btc_pk ` set ?fps \<and> SlashedFp pk \<notin> set evs \<and> kv_has (ps_delta_sats ps') (MarshalHex pk)"
    and k0': "\<forall>fp \<in> set ?fps. fp_state_of ps' (MarshalHex (di_btc_pk fp)) \<noteq> FinalityProviderState_SLASHED \<longrightarrow>
       0 \<le> uint (di_total_bonded_sat fp) + delta_sats_of ps' (MarshalHex (di_btc_pk fp))"
    and ns': "\<forall>pk. stake_in new (MarshalHex pk) = (if pk \<in> set pks \<and> \<not> store_slashed s (MarshalHex pk) then ?D (MarshalHex pk) else 0)"
    and ne': "\<forall>x \<in> set new. di_btc_pk x \<in> set pks \<and> \<not> di_is_slashed x \<and> 0 < di_total_bonded_sat x \<and>
      (\<exists>fp. kv_get (bs_fps s) (di_btc_pk x) = Some fp \<and> \<not> FinalityProvider_IsSlashed fp \<and>
        di_is_jailed x = (case fp_state_of ps' (MarshalHex (di_btc_pk x)) of FinalityProviderState_JAILED \<Rightarrow> True
          | FinalityProviderState_UNJAILED \<Rightarrow> False | _ \<Rightarrow> fp_jailed fp))"
    using two_loops [OF run fps dc delta [unfolded evs_def], folded evs_def] by (elim exE conjE) (rule that; assumption)
  note d = d' [rule_format] and st = st' [rule_format] and mem = mem' [rule_format] and k0 = k0' [rule_format]
    and ns = ns' [rule_format] and ne = ne' [rule_format]
  let ?known = "concat (map (known_result ps') ?fps)"
  have sl: "fp_state_of ps' (MarshalHex pk) = FinalityProviderState_SLASHED \<longleftrightarrow> SlashedFp pk \<in> set evs" for pk
    using jail_state_not_slashed [of "base_state dc (MarshalHex pk)" evs "MarshalHex pk"] by (simp add: st base_state_def)
  have old: "\<exists>old \<in> set ?fps. di_btc_pk old = di_btc_pk fp \<and> \<not> di_is_slashed fp \<and> 0 < di_total_bonded_sat fp \<and> SlashedFp (di_btc_pk fp) \<notin> set evs \<and>
      di_is_jailed fp = jail_flag evs (di_btc_pk fp) (di_is_jailed old)" if "fp \<in> set ?known" for fp
  proof -
    from known_entries [OF that] obtain o' where o': "o' \<in> set ?fps" "di_btc_pk fp = di_btc_pk o'" "di_is_slashed fp = di_is_slashed o'"
      "0 < di_total_bonded_sat fp" "di_is_jailed fp = di_is_jailed (with_jail_state (fp_state_of ps' (MarshalHex (di_btc_pk o'))) o')"
      "fp_state_of ps' (MarshalHex (di_btc_pk o')) \<noteq> FinalityProviderState_SLASHED" by blast
    have b: "base_state dc (MarshalHex (di_btc_pk o')) = (if di_is_jailed o' then FinalityProviderState_JAILED else FinalityProviderState_UNKNOWN)"
      using o'(1) dc(1) by (auto simp: base_state_def distinct_map inj_on_def)
    have "di_is_jailed fp = jail_flag evs (di_btc_pk o') (di_is_jailed o')"
    proof -
      have "SlashedFp (di_btc_pk o') \<notin> set evs" using o'(6) by (simp add: sl)
      then have "di_is_jailed fp = jail_flag evs (di_btc_pk o') (case base_state dc (MarshalHex (di_btc_pk o')) of
          FinalityProviderState_JAILED \<Rightarrow> True | FinalityProviderState_UNJAILED \<Rightarrow> False | _ \<Rightarrow> di_is_jailed o')"
        using o'(5) by (simp only: with_jail_state_flag st if_False jail_state_flag)
      then show ?thesis by (simp add: b)
    qed
    then show ?thesis using o' dc(2) by (intro bexI [of _ o']) (auto simp: sl)
  qed
  have new: "di_btc_pk fp \<notin> di_btc_pk ` set ?fps \<and> \<not> di_is_slashed fp \<and> 0 < di_total_bonded_sat fp \<and> SlashedFp (di_btc_pk fp) \<notin> set evs \<and>
      (\<exists>f. kv_get (bs_fps s) (di_btc_pk fp) = Some f \<and> \<not> FinalityProvider_IsSlashed f \<and>
             di_is_jailed fp = jail_flag evs (di_btc_pk fp) (fp_jailed f))" if "fp \<in> set new" for fp
  proof -
    from ne [OF that] mem have m: "di_btc_pk fp \<notin> di_btc_pk ` set ?fps" "SlashedFp (di_btc_pk fp) \<notin> set evs" by blast+
    then have "base_state dc (MarshalHex (di_btc_pk fp)) = FinalityProviderState_UNKNOWN" by (auto simp: base_state_def image_iff)
    with ne [OF that] m show ?thesis by (simp add: st jail_state_flag)
  qed
  show "distinct (map di_btc_pk (dc_finality_providers newDc))"
  proof -
    have "di_btc_pk x \<noteq> di_btc_pk y" if "x \<in> set ?known" "y \<in> set new" for x y
      using old [OF that(1)] new [OF that(2)] by (metis imageI)
    then have "set (map di_btc_pk ?known) \<inter> set (map di_btc_pk new) = {}" unfolding set_map by blast
    then show ?thesis using known_distinct [OF dc(1), of ps'] nd unfolding nf map_append distinct_append by blast
  qed
  show "\<forall>fp \<in> set (dc_finality_providers newDc). \<not> di_is_slashed fp \<and> 0 < di_total_bonded_sat fp \<and> SlashedFp (di_btc_pk fp) \<notin> set evs \<and>
       ((\<exists>old \<in> set ?fps. di_btc_pk old = di_btc_pk fp \<and> di_is_jailed fp = jail_flag evs (di_btc_pk fp) (di_is_jailed old)) \<or>
        di_btc_pk fp \<notin> di_btc_pk ` set ?fps \<and>
          (\<exists>f. kv_get (bs_fps s) (di_btc_pk fp) = Some f \<and> \<not> FinalityProvider_IsSlashed f \<and>
             di_is_jailed fp = jail_flag evs (di_btc_pk fp) (fp_jailed f)))"
  proof
    fix fp assume "fp \<in> set (dc_finality_providers newDc)"
    then consider "fp \<in> set ?known" | "fp \<in> set new" by (auto simp: nf)
    then show "\<not> di_is_slashed fp \<and> 0 < di_total_bonded_sat fp \<and> SlashedFp (di_btc_pk fp) \<notin> set evs \<and>
       ((\<exists>old \<in> set ?fps. di_btc_pk old = di_btc_pk fp \<and> di_is_jailed fp = jail_flag evs (di_btc_pk fp) (di_is_jailed old)) \<or>
        di_btc_pk fp \<notin> di_btc_pk ` set ?fps \<and>
          (\<exists>f. kv_get (bs_fps s) (di_btc_pk fp) = Some f \<and> \<not> FinalityProvider_IsSlashed f \<and>
             di_is_jailed fp = jail_flag evs (di_btc_pk fp) (fp_jailed f)))" by cases (use old new in blast)+
  qed
  have one: "stake_in ?fps (MarshalHex (di_btc_pk fp)) = uint (di_total_bonded_sat fp)" if "fp \<in> set ?fps" for fp
    using that dc(1) by (rule stake_in_member)
  have kn: "stake_in ?known h = (if h \<in> MarshalHex ` di_btc_pk ` set ?fps \<and> fp_state_of ps' h \<noteq> FinalityProviderState_SLASHED
     then stake_in ?fps h + delta_sats_of ps' h else 0)" for h
  proof (rule stake_known [OF dc(1)])
    fix fp assume fp: "fp \<in> set ?fps" "fp_state_of ps' (MarshalHex (di_btc_pk fp)) \<noteq> FinalityProviderState_SLASHED"
    show "0 \<le> uint (di_total_bonded_sat fp) + delta_sats_of ps' (MarshalHex (di_btc_pk fp)) \<and>
        uint (di_total_bonded_sat fp) + delta_sats_of ps' (MarshalHex (di_btc_pk fp)) < 2 ^ 64"
      using k0 [OF fp] bound [rule_format, of "MarshalHex (di_btc_pk fp)"] unfolding one [OF fp(1)] d by blast
  qed
  show "\<forall>pk. stake_in (dc_finality_providers newDc) (MarshalHex pk) =
       (if SlashedFp pk \<in> set evs \<or> pk \<notin> di_btc_pk ` set ?fps \<and> store_slashed s (MarshalHex pk) then 0
        else stake_in ?fps (MarshalHex pk) + ?D (MarshalHex pk))"
  proof
    fix pk
    have no: "?D (MarshalHex pk) = 0" if "\<not> kv_has (ps_delta_sats ps') (MarshalHex pk)"
      using that d [of "MarshalHex pk"] by (simp add: kv_has_def delta_sats_of_def)
    show "stake_in (dc_finality_providers newDc) (MarshalHex pk) =
       (if SlashedFp pk \<in> set evs \<or> pk \<notin> di_btc_pk ` set ?fps \<and> store_slashed s (MarshalHex pk) then 0
        else stake_in ?fps (MarshalHex pk) + ?D (MarshalHex pk))"
    proof (cases "pk \<in> di_btc_pk ` set ?fps")
      case True
      then show ?thesis using mem [of pk] by (simp add: nf kn ns sl d)
    next
      case False
      then have "MarshalHex pk \<notin> MarshalHex ` di_btc_pk ` set ?fps" by auto
      then show ?thesis using False mem [of pk] no stake_in_absent by (auto simp: nf kn ns)
    qed
  qed
qed

section \<open>Properties\<close>

text \<open>C9: Processing the power distribution events accounts for the stake exactly.  From a cache of
  distinct, unslashed finality providers, and as long as no sum leaves its integer type, the cache that
  \<open>ProcessAllPowerDistUpdateEvents\<close> returns again lists distinct, unslashed finality providers of
  positive stake.  Every finality provider has the stake it had plus the satoshis of the delegations
  that the events activate, minus those of the delegations that they unbond or expire with a covenant
  quorum, an expiry counting only for a delegation that was not unbonded early; a finality provider that
  the events slash, or a new one that is already slashed, has none.  The jail flag is that of the old
  entry (of the store for a new entry), overridden by the last jailing or unjailing event.\<close>

theorem ProcessAllPowerDistUpdateEvents_stake:
  assumes "ProcessAllPowerDistUpdateEvents X s dc lastBTCTip curBTCTip = Inr (newDc, ps)"
    and "fps_ok s" and "distinct (map di_btc_pk (dc_finality_providers dc))"
      "\<forall>fp \<in> set (dc_finality_providers dc). \<not> di_is_slashed fp"
    and evs: "evs = GetAllPowerDistUpdateEvents s lastBTCTip curBTCTip"
    and "\<forall>h. is_i64 (\<Sum>ev\<leftarrow>evs. event_delta X s ev h)"
    and "\<forall>h. stake_in (dc_finality_providers dc) h + (\<Sum>ev\<leftarrow>evs. event_delta X s ev h) < 2 ^ 64"
  shows "distinct (map di_btc_pk (dc_finality_providers newDc)) \<and>
    (\<forall>fp \<in> set (dc_finality_providers newDc). \<not> di_is_slashed fp \<and> 0 < di_total_bonded_sat fp \<and> SlashedFp (di_btc_pk fp) \<notin> set evs \<and>
       ((\<exists>old \<in> set (dc_finality_providers dc). di_btc_pk old = di_btc_pk fp \<and>
           di_is_jailed fp = jail_flag evs (di_btc_pk fp) (di_is_jailed old)) \<or>
        di_btc_pk fp \<notin> di_btc_pk ` set (dc_finality_providers dc) \<and>
          (\<exists>f. kv_get (bs_fps s) (di_btc_pk fp) = Some f \<and> \<not> FinalityProvider_IsSlashed f \<and>
             di_is_jailed fp = jail_flag evs (di_btc_pk fp) (fp_jailed f)))) \<and>
    (\<forall>pk. stake_in (dc_finality_providers newDc) (MarshalHex pk) =
       (if SlashedFp pk \<in> set evs \<or> pk \<notin> di_btc_pk ` set (dc_finality_providers dc) \<and> store_slashed s (MarshalHex pk) then 0
        else stake_in (dc_finality_providers dc) (MarshalHex pk) + (\<Sum>ev\<leftarrow>evs. event_delta X s ev (MarshalHex pk))))"
  by (intro conjI ProcessAll_spec [OF assms(1-4) assms(6,7) [unfolded evs], folded evs])

text \<open>Two finality providers with stake, of which one is jailed and the other slashed, while a
  delegation to a third becomes active.\<close>

definition power_del :: BTCDelegation where
  "power_del = (example_del [0xab] None)\<lparr>bd_fp_btc_pk_list := [ending_in 3], bd_total_sat := 70\<rparr>"

definition power_bs :: bs_state where
  "power_bs = bs_empty\<lparr>bs_fps := [(ending_in 1, example_fp (ending_in 1)), (ending_in 2, example_fp (ending_in 2)),
       (ending_in 3, example_fp (ending_in 3))], bs_dels := [([0xab], power_del)],
     bs_events := [((10, 0), BtcDelStateUpdate ''ab'' ACTIVE), ((10, 1), JailedFp (ending_in 1)), ((10, 2), SlashedFp (ending_in 2))]\<rparr>"

definition power_entry :: "byte \<Rightarrow> u64 \<Rightarrow> FinalityProviderDistInfo" where
  "power_entry b sat = \<lparr>di_btc_pk = ending_in b, di_addr = [b], di_commission = None, di_total_bonded_sat = sat,
     di_is_timestamped = True, di_is_jailed = False, di_is_slashed = False\<rparr>"

definition power_dc :: VotingPowerDistCache where
  "power_dc = NewVotingPowerDistCache\<lparr>dc_finality_providers := [power_entry 1 100, power_entry 2 50]\<rparr>"

lemma power_events:
  "GetAllPowerDistUpdateEvents power_bs 9 10 = [BtcDelStateUpdate ''ab'' ACTIVE, JailedFp (ending_in 1), SlashedFp (ending_in 2)]"
  "GetBTCDelegation ext_accepting power_bs ''ab'' = Inr power_del"
  by code_simp+

lemma power_delta: "(\<Sum>ev\<leftarrow>GetAllPowerDistUpdateEvents power_bs 9 10. event_delta ext_accepting power_bs ev h) =
    (if h = MarshalHex (ending_in 3) then 70 else 0)"
  by (simp add: power_events event_delta_def sats_to_def power_del_def example_del_def to_i64_def)

theorem ProcessAllPowerDistUpdateEvents_stake_witness:
  "\<exists>newDc ps. ProcessAllPowerDistUpdateEvents ext_accepting power_bs power_dc 9 10 = Inr (newDc, ps) \<and>
     stake_in (dc_finality_providers newDc) (MarshalHex (ending_in 1)) = 100 \<and>
     stake_in (dc_finality_providers newDc) (MarshalHex (ending_in 2)) = 0 \<and>
     stake_in (dc_finality_providers newDc) (MarshalHex (ending_in 3)) = 70"
proof -
  have "\<not> isl (ProcessAllPowerDistUpdateEvents ext_accepting power_bs power_dc 9 10)" by code_simp
  then obtain newDc ps where run: "ProcessAllPowerDistUpdateEvents ext_accepting power_bs power_dc 9 10 = Inr (newDc, ps)"
    by (cases "ProcessAllPowerDistUpdateEvents ext_accepting power_bs power_dc 9 10") auto
  have "ending_in 1 < ending_in 2" "ending_in 1 < ending_in 3" "ending_in 2 < ending_in 3" by code_simp+
  then have ok: "fps_ok power_bs"
    by (auto simp: power_bs_def fps_ok_def example_fp_def bs_empty_def kv_ok_def split: if_splits)
  have none: "\<not> store_slashed power_bs (MarshalHex (ending_in 3))"
    by (auto simp: store_slashed_def power_bs_def bs_empty_def FinalityProvider_IsSlashed_def example_fp_def split: if_splits)
  have dc: "dc_finality_providers power_dc = [power_entry 1 100, power_entry 2 50]" by (simp add: power_dc_def)
  have pk [simp]: "ending_in a = ending_in b \<longleftrightarrow> a = b" for a b by (simp add: ending_in_def)
  have d: "distinct (map di_btc_pk (dc_finality_providers power_dc))" "\<forall>fp \<in> set (dc_finality_providers power_dc). \<not> di_is_slashed fp"
    by (simp_all add: dc power_entry_def)
  have b: "\<forall>h. is_i64 (\<Sum>ev\<leftarrow>GetAllPowerDistUpdateEvents power_bs 9 10. event_delta ext_accepting power_bs ev h)"
    "\<forall>h. stake_in (dc_finality_providers power_dc) h + (\<Sum>ev\<leftarrow>GetAllPowerDistUpdateEvents power_bs 9 10. event_delta ext_accepting power_bs ev h) < 2 ^ 64"
    by (auto simp: power_delta is_i64_def dc power_entry_def)
  note st = ProcessAllPowerDistUpdateEvents_stake [OF run ok d refl b, THEN conjunct2, THEN conjunct2, rule_format, unfolded power_delta, unfolded power_events(1)]
  show ?thesis
    by (intro exI [of _ newDc] exI [of _ ps] conjI run) (simp_all add: st none dc power_entry_def)
qed

end
