(* ===== verification/Finality_Block.thy ===== *)
theory Finality_Block
  imports Finality_Liveness Finality_Stake
begin

text \<open>
  The governance proposal that resumes finality (\<open>keeper/gov.go\<close>) and the block level of the finality
  module (\<open>abci.go\<close>): the begin blocker updates the power distribution, the end blocker tallies, jails
  sluggish finality providers and distributes the rewards of finalised blocks.
\<close>

section \<open>Resuming finality\<close>

text \<open>One finality provider of the proposal.\<close>

definition jail_proposed :: "ctx \<Rightarrow> u32 \<Rightarrow> (string, unit) store \<Rightarrow> string \<Rightarrow> 'c fin_state \<Rightarrow> 'c fin_state res" where
  "jail_proposed cx haltingHeight voters fpPkHex s =
     (case NewBIP340PubKeyFromHex fpPkHex of
        Inl _ \<Rightarrow> Inl (Errorf ''invalid finality provider public key'')
      | Inr fpPk \<Rightarrow>
          if kv_has voters fpPkHex then Inl (Errorf ''the finality provider has voted for the height'')
          else case GetFinalityProvider (fs_bs s) fpPk of
            Inl _ \<Rightarrow> Inl (Errorf ''failed to find the finality provider in btcstaking'')
          | Inr fp \<Rightarrow>
              if FinalityProvider_IsSlashed fp \<or> FinalityProvider_IsJailed fp then Inr s
              else case jailSluggishFinalityProvider cx fpPk s of
                Inl _ \<Rightarrow> Inl (Errorf ''failed to jail the finality provider'')
              | Inr s1 \<Rightarrow>
                  case kv_get (fs_signing_infos s1) fpPk of
                    None \<Rightarrow> Inl (Errorf ''the signing info of finality provider is not created'')
                  | Some signInfo \<Rightarrow>
                      Inr (set_signing_info fpPk
                             (signInfo\<lparr>sg_jailed_until := ctx_time cx + pm_jail_duration (fin_GetParams s),
                                       sg_missed_blocks_counter := 0\<rparr>)
                             (DeleteMissedBlockBitmap fpPk s1)))"

text \<open>One entry of the distribution cache of a height: the entry of the new cache, and the processing state
  and power table after it.\<close>

definition resume_entry ::
  "(string, unit) store \<Rightarrow> bool \<Rightarrow> u64 \<Rightarrow> FinalityProviderDistInfo \<Rightarrow>
   VotingPowerDistCache \<times> ProcessingState option \<times> 'c fin_state \<Rightarrow>
   VotingPowerDistCache \<times> ProcessingState option \<times> 'c fin_state" where
  "resume_entry fpPksToJail isCurrHeight blkHeight fp acc =
     (let (newDc, state, s) = acc; fpBTCPKHex = MarshalHex (di_btc_pk fp)
      in if kv_has fpPksToJail fpBTCPKHex
         then (AddFinalityProviderDistInfo (if di_is_slashed fp then fp else fp\<lparr>di_is_jailed := True\<rparr>) newDc,
               if \<not> di_is_slashed fp \<and> isCurrHeight
               then map_option (set_fp_state fpBTCPKHex FinalityProviderState_JAILED) state else state,
               SetVotingPower (di_btc_pk fp) blkHeight 0 s)
         else (AddFinalityProviderDistInfo fp newDc, state, s))"

definition resume_height ::
  "ext \<Rightarrow> 'c coins_ops \<Rightarrow> ctx \<Rightarrow> (string, unit) store \<Rightarrow> u64 \<Rightarrow> ProcessingState option \<times> 'c fin_state \<Rightarrow>
   (ProcessingState option \<times> 'c fin_state) res" where
  "resume_height X C cx fpPksToJail blkHeight acc =
     (let (state0, s) = acc;
          isCurrHeight = (blkHeight = to_u64 (ctx_height cx))
      in case GetVotingPowerDistCache s blkHeight of
           None \<Rightarrow> Inl (Panic ''nil pointer dereference'')
         | Some dc \<Rightarrow>
             let state1 = (if isCurrHeight then Some (FillByPrevVpDstCache dc NewProcessingState) else state0);
                 (newDc0, state, s1) = fold (resume_entry fpPksToJail isCurrHeight blkHeight) (dc_finality_providers dc)
                   (NewVotingPowerDistCache, state1, s);
                 newDc = ApplyActiveFinalityProviders (dc_num_active_fps dc) newDc0;
                 s2 = SetVotingPowerDistCache blkHeight newDc s1
             in rbind (HandleFPStateUpdates X C cx state dc newDc isCurrHeight s2) (\<lambda>t. Inr (state, t)))"

definition HandleResumeFinalityProposal ::
  "ext \<Rightarrow> 'c coins_ops \<Rightarrow> ctx \<Rightarrow> string list \<Rightarrow> u32 \<Rightarrow> 'c fin_state \<Rightarrow> 'c fin_state res" where
  "HandleResumeFinalityProposal X C cx fpPksHex haltingHeight s =
     (if (ucast haltingHeight :: u64) < pm_activation_height (fin_GetParams s)
      then Inl (Errorf ''finality halting height cannot be lower than finality activation height'')
      else if uint haltingHeight > ctx_height cx
      then Inl (Errorf ''finality halting height is in the future'')
      else
        rbind (GetVoters s ((ucast haltingHeight :: u64))) (\<lambda>voters.
        rbind (rfold (jail_proposed cx haltingHeight voters) fpPksHex s) (\<lambda>s1.
        let fpPksToJail = fold (\<lambda>h. kv_set h ()) fpPksHex []
        in rbind (rfold (resume_height X C cx fpPksToJail)
                   (range_u64 ((ucast haltingHeight :: u64)) (to_u64 (ctx_height cx))) (None, s1)) (\<lambda>(_, t).
             Inr t))))"

definition ResumeFinalityProposal ::
  "ext \<Rightarrow> 'c coins_ops \<Rightarrow> ctx \<Rightarrow> string \<Rightarrow> string \<Rightarrow> string list \<Rightarrow> u32 \<Rightarrow> 'c fin_state \<Rightarrow> 'c fin_state res" where
  "ResumeFinalityProposal X C cx keeper_authority authority fpPksHex haltingHeight s =
     (if keeper_authority \<noteq> authority then Inl ErrInvalidSigner
      else case HandleResumeFinalityProposal X C cx fpPksHex haltingHeight s of
             Inl (Panic e) \<Rightarrow> Inl (Panic e)
           | Inl _ \<Rightarrow> Inl ErrInvalidProposalMsg
           | Inr t \<Rightarrow> Inr t)"

section \<open>The block\<close>

definition MaxFinalizedRewardedBlocksPerEndBlock :: u64 where
  "MaxFinalizedRewardedBlocksPerEndBlock = 10000"

definition BeginBlocker :: "ext \<Rightarrow> 'c coins_ops \<Rightarrow> ctx \<Rightarrow> 'c fin_state \<Rightarrow> 'c fin_state res" where
  "BeginBlocker X C cx s = BeginBlocker_fin X C cx s"

definition EndBlocker ::
  "ext \<Rightarrow> 'c coins_ops \<Rightarrow> 'b bitset_ops \<Rightarrow> 'p fin_ext \<Rightarrow> ctx \<Rightarrow> 'c fin_state \<Rightarrow> 'c fin_state res" where
  "EndBlocker X C B F cx s =
     (if \<not> IsFinalityActive cx s then Inr s
      else
        rbind (TallyBlocks cx MaxFinalizedRewardedBlocksPerEndBlock s) (\<lambda>s1.
        let heightToExamine = wrap64 (ctx_height cx - pm_sig_timeout (fin_GetParams s1))
        in if heightToExamine \<ge> 1
           then rbind (HandleLiveness B F cx heightToExamine s1) (\<lambda>s2.
                  HandleRewarding X C heightToExamine MaxFinalizedRewardedBlocksPerEndBlock s2)
           else Inr s1))"

section \<open>What a proposal changes\<close>

text \<open>Hooks and changes of the active set only touch the state of costaking and the signing information.\<close>

definition hooks_only :: "'c fin_state \<Rightarrow> 'c fin_state \<Rightarrow> bool" where
  "hooks_only s t \<longleftrightarrow> t = s\<lparr>fs_cos := fs_cos t, fs_signing_infos := fs_signing_infos t\<rparr>"

lemma hooks_only_refl [simp]: "hooks_only s s"
  by (cases s) (simp add: hooks_only_def)

lemma hooks_only_trans: "hooks_only s t \<Longrightarrow> hooks_only t u \<Longrightarrow> hooks_only s u"
  by (cases s; cases t; cases u) (simp add: hooks_only_def)

lemma hooks_only_cos: "hooks_only s (s\<lparr>fs_cos := c\<rparr>)" "hooks_only s (s\<lparr>fs_signing_infos := i\<rparr>)"
  by (cases s; simp add: hooks_only_def)+

lemma hooks_only_fields:
  "hooks_only s t \<Longrightarrow> fs_power t = fs_power s \<and> fs_votes t = fs_votes s \<and> fs_blocks t = fs_blocks s \<and> fs_bs t = fs_bs s \<and>
     fs_dist_cache t = fs_dist_cache s \<and> fs_next_finalize t = fs_next_finalize s \<and> fs_next_reward t = fs_next_reward s \<and>
     fs_params t = fs_params s \<and> fs_pub_rand_commits t = fs_pub_rand_commits s \<and> fs_pub_rand_idx t = fs_pub_rand_idx s \<and>
     fs_pub_rands t = fs_pub_rands s \<and> fs_evidences t = fs_evidences s \<and> fs_bitmap t = fs_bitmap s \<and> fs_refundable t = fs_refundable s"
  by (cases s; cases t) (simp add: hooks_only_def)

lemma with_cos_hooks: "with_cos m s = Inr t \<Longrightarrow> hooks_only s t"
  by (auto simp: with_cos_def hooks_only_cos split: prod.splits sum.splits)

lemma processActiveFp_hooks: "processActiveFp X C cx b fp s = Inr t \<Longrightarrow> hooks_only s t"
proof -
  assume run: "processActiveFp X C cx b fp s = Inr t"
  let ?s = "HandleActivatedFinalityProvider cx (di_btc_pk fp) s"
  have 1: "hooks_only s ?s" by (simp add: HandleActivatedFinalityProvider_def Let_def hooks_only_cos)
  show ?thesis
  proof (cases b)
    case True
    with run have "AfterAncFpEntersActiveSet X C cx (di_addr fp) ?s = Inr t"
      by (simp add: processActiveFp_def Let_def split: sum.splits)
    then show ?thesis unfolding AfterAncFpEntersActiveSet_def by (rule hooks_only_trans [OF 1 with_cos_hooks])
  qed (use run 1 in \<open>simp add: processActiveFp_def Let_def\<close>)
qed

lemma processInactiveFp_hooks: "processInactiveFp X C cx state b fp s = Inr t \<Longrightarrow> hooks_only s t"
  unfolding processInactiveFp_def AfterAncFpRemovedFromActiveSet_def
  by (auto simp: rbind_eq_Inr dest: with_cos_hooks split: if_splits option.splits sum.splits)

lemma HandleFPStateUpdates_hooks:
  assumes "HandleFPStateUpdates X C cx state prevDc newDc b s = Inr t"
  shows "hooks_only s t"
proof -
  from assms obtain act s1 inact where 1: "rfold (processActiveFp X C cx b) act s = Inr s1"
    and 2: "rfold (processInactiveFp X C cx state b) inact s1 = Inr t"
    by (auto simp: HandleFPStateUpdates_def rbind_eq_Inr)
  have "hooks_only s s1"
    using 1 hooks_only_refl by (rule rfold_invariant) (blast intro: hooks_only_trans processActiveFp_hooks)
  with 2 show ?thesis by (rule rfold_invariant) (blast intro: hooks_only_trans processInactiveFp_hooks)
qed

text \<open>The entry of a cache under a proposal, and the new cache of a height.\<close>

definition jail_entry :: "(string, unit) store \<Rightarrow> FinalityProviderDistInfo \<Rightarrow> FinalityProviderDistInfo" where
  "jail_entry J fp = (if kv_has J (MarshalHex (di_btc_pk fp)) \<and> \<not> di_is_slashed fp then fp\<lparr>di_is_jailed := True\<rparr> else fp)"

definition resumed_cache :: "(string, unit) store \<Rightarrow> VotingPowerDistCache \<Rightarrow> VotingPowerDistCache" where
  "resumed_cache J dc = ApplyActiveFinalityProviders (dc_num_active_fps dc)
     (NewVotingPowerDistCache\<lparr>dc_finality_providers := map (jail_entry J) (dc_finality_providers dc)\<rparr>)"

lemma resume_entries:
  assumes "fold (resume_entry J cur h) fps (newDc, st, s) = (newDc', st', s')"
  shows "newDc' = newDc\<lparr>dc_finality_providers := dc_finality_providers newDc @ map (jail_entry J) fps\<rparr> \<and>
    (\<exists>p. s' = s\<lparr>fs_power := p\<rparr> \<and> (kv_ok (fs_power s) \<longrightarrow> kv_ok p) \<and>
      (\<forall>k. kv_get p k = (if fst k = h \<and> snd k \<in> di_btc_pk ` set fps \<and> kv_has J (MarshalHex (snd k)) then Some 0
         else kv_get (fs_power s) k)))"
  using assms
proof (induction fps arbitrary: newDc st s)
  case Nil
  then show ?case by (auto intro!: exI [of _ "fs_power s"])
next
  case (Cons fp fps)
  obtain d1 st1 s1 where 1: "resume_entry J cur h fp (newDc, st, s) = (d1, st1, s1)"
    by (cases "resume_entry J cur h fp (newDc, st, s)") auto
  have d1: "d1 = newDc\<lparr>dc_finality_providers := dc_finality_providers newDc @ [jail_entry J fp]\<rparr>"
    using 1 by (auto simp: resume_entry_def jail_entry_def AddFinalityProviderDistInfo_def Let_def split: if_splits)
  have s1: "s1 = s\<lparr>fs_power := if kv_has J (MarshalHex (di_btc_pk fp)) then kv_set (h, di_btc_pk fp) 0 (fs_power s) else fs_power s\<rparr>"
    using 1 by (auto simp: resume_entry_def SetVotingPower_def Let_def split: if_splits)
  from Cons.prems 1 have "fold (resume_entry J cur h) fps (d1, st1, s1) = (newDc', st', s')" by simp
  from Cons.IH [OF this] obtain p where p: "newDc' = d1\<lparr>dc_finality_providers := dc_finality_providers d1 @ map (jail_entry J) fps\<rparr>"
    "s' = s1\<lparr>fs_power := p\<rparr>" "kv_ok (fs_power s1) \<longrightarrow> kv_ok p"
    "\<forall>k. kv_get p k = (if fst k = h \<and> snd k \<in> di_btc_pk ` set fps \<and> kv_has J (MarshalHex (snd k)) then Some 0
         else kv_get (fs_power s1) k)" by blast
  show ?case
    by (intro conjI exI [of _ p]) (use p in \<open>auto simp: d1 s1 split: if_splits\<close>)
qed

lemma resume_height_Inr:
  assumes "resume_height X C cx J h (st, s) = Inr (st', t)"
  shows "\<exists>dc. GetVotingPowerDistCache s h = Some dc \<and> fs_dist_cache t = kv_set h (resumed_cache J dc) (fs_dist_cache s) \<and>
    (\<forall>k. kv_get (fs_power t) k = (if fst k = h \<and> snd k \<in> di_btc_pk ` set (dc_finality_providers dc) \<and> kv_has J (MarshalHex (snd k))
       then Some 0 else kv_get (fs_power s) k)) \<and>
    (kv_ok (fs_power s) \<longrightarrow> kv_ok (fs_power t)) \<and>
    hooks_only (s\<lparr>fs_power := fs_power t, fs_dist_cache := fs_dist_cache t\<rparr>) t"
proof -
  from assms obtain dc newDc0 s1 where dc: "GetVotingPowerDistCache s h = Some dc"
    and f: "fold (resume_entry J (h = to_u64 (ctx_height cx)) h) (dc_finality_providers dc) (NewVotingPowerDistCache,
      if h = to_u64 (ctx_height cx) then Some (FillByPrevVpDstCache dc NewProcessingState) else st, s) = (newDc0, st', s1)"
    and H: "HandleFPStateUpdates X C cx st' dc (ApplyActiveFinalityProviders (dc_num_active_fps dc) newDc0) (h = to_u64 (ctx_height cx))
      (SetVotingPowerDistCache h (ApplyActiveFinalityProviders (dc_num_active_fps dc) newDc0) s1) = Inr t"
    by (auto simp: resume_height_def Let_def rbind_eq_Inr split: option.splits prod.splits)
  from resume_entries [OF f] obtain p where p: "s1 = s\<lparr>fs_power := p\<rparr>" "kv_ok (fs_power s) \<longrightarrow> kv_ok p"
      "\<forall>k. kv_get p k = (if fst k = h \<and> snd k \<in> di_btc_pk ` set (dc_finality_providers dc) \<and> kv_has J (MarshalHex (snd k)) then Some 0
         else kv_get (fs_power s) k)"
    and n: "newDc0 = NewVotingPowerDistCache\<lparr>dc_finality_providers := map (jail_entry J) (dc_finality_providers dc)\<rparr>"
    by (auto simp: NewVotingPowerDistCache_def)
  note hk = HandleFPStateUpdates_hooks [OF H]
  note fl = hooks_only_fields [OF hk]
  have "s\<lparr>fs_power := fs_power t, fs_dist_cache := fs_dist_cache t\<rparr> =
      SetVotingPowerDistCache h (ApplyActiveFinalityProviders (dc_num_active_fps dc) newDc0) s1"
    using fl by (simp add: SetVotingPowerDistCache_def p(1))
  then show ?thesis
    using hk fl p dc by (intro exI [of _ dc]) (simp add: SetVotingPowerDistCache_def resumed_cache_def n)
qed

lemma resume_heights:
  assumes "rfold (resume_height X C cx J) hs (st, s) = Inr (st', t)" and "distinct hs"
  shows "(\<forall>h \<in> set hs. \<exists>dc. GetVotingPowerDistCache s h = Some dc \<and> GetVotingPowerDistCache t h = Some (resumed_cache J dc)) \<and>
    (\<forall>h. h \<notin> set hs \<longrightarrow> GetVotingPowerDistCache t h = GetVotingPowerDistCache s h) \<and>
    (\<forall>h pk. kv_get (fs_power t) (h, pk) = (if h \<in> set hs \<and> kv_has J (MarshalHex pk) \<and>
         (\<exists>dc. GetVotingPowerDistCache s h = Some dc \<and> pk \<in> di_btc_pk ` set (dc_finality_providers dc))
       then Some 0 else kv_get (fs_power s) (h, pk))) \<and>
    (kv_ok (fs_power s) \<longrightarrow> kv_ok (fs_power t)) \<and>
    hooks_only (s\<lparr>fs_power := fs_power t, fs_dist_cache := fs_dist_cache t\<rparr>) t"
  using assms
proof (induction hs arbitrary: st s)
  case Nil
  then show ?case by (cases s) simp
next
  case (Cons h hs)
  from Cons.prems(1) obtain st1 s1 where 1: "resume_height X C cx J h (st, s) = Inr (st1, s1)"
    and 2: "rfold (resume_height X C cx J) hs (st1, s1) = Inr (st', t)" by (auto simp: rbind_eq_Inr)
  from resume_height_Inr [OF 1] obtain dc where dc: "GetVotingPowerDistCache s h = Some dc"
    "fs_dist_cache s1 = kv_set h (resumed_cache J dc) (fs_dist_cache s)"
    "\<forall>k. kv_get (fs_power s1) k = (if fst k = h \<and> snd k \<in> di_btc_pk ` set (dc_finality_providers dc) \<and> kv_has J (MarshalHex (snd k))
       then Some 0 else kv_get (fs_power s) k)" "kv_ok (fs_power s) \<longrightarrow> kv_ok (fs_power s1)"
    "hooks_only (s\<lparr>fs_power := fs_power s1, fs_dist_cache := fs_dist_cache s1\<rparr>) s1" by blast
  have d: "GetVotingPowerDistCache s1 h' = (if h' = h then Some (resumed_cache J dc) else GetVotingPowerDistCache s h')" for h'
    by (simp add: GetVotingPowerDistCache_def dc(2))
  have nh: "h \<notin> set hs" using Cons.prems(2) by simp
  note IH = Cons.IH [OF 2]
  have hk: "hooks_only (s\<lparr>fs_power := fs_power t, fs_dist_cache := fs_dist_cache t\<rparr>) t"
  proof -
    have "hooks_only (s1\<lparr>fs_power := fs_power t, fs_dist_cache := fs_dist_cache t\<rparr>) t" using IH Cons.prems(2) by simp
    moreover have "hooks_only (s\<lparr>fs_power := fs_power t, fs_dist_cache := fs_dist_cache t\<rparr>) (s1\<lparr>fs_power := fs_power t, fs_dist_cache := fs_dist_cache t\<rparr>)"
      using dc(5) by (cases s; cases s1) (simp add: hooks_only_def)
    ultimately show ?thesis by (rule hooks_only_trans [rotated])
  qed
  have c1: "\<exists>dc. GetVotingPowerDistCache s h' = Some dc \<and> GetVotingPowerDistCache t h' = Some (resumed_cache J dc)" if "h' \<in> set (h # hs)" for h'
  proof (cases "h' = h")
    case True
    then show ?thesis using IH Cons.prems(2) dc(1) nh by (simp add: d)
  next
    case False
    with that IH Cons.prems(2) have "\<exists>dc. GetVotingPowerDistCache s1 h' = Some dc \<and> GetVotingPowerDistCache t h' = Some (resumed_cache J dc)"
      by simp
    with False show ?thesis by (simp add: d)
  qed
  have c2: "GetVotingPowerDistCache t h' = GetVotingPowerDistCache s h'" if "h' \<notin> set (h # hs)" for h'
    using that IH Cons.prems(2) by (simp add: d)
  have c3: "kv_get (fs_power t) (h', pk) = (if h' \<in> set (h # hs) \<and> kv_has J (MarshalHex pk) \<and>
         (\<exists>dc. GetVotingPowerDistCache s h' = Some dc \<and> pk \<in> di_btc_pk ` set (dc_finality_providers dc))
       then Some 0 else kv_get (fs_power s) (h', pk))" for h' pk
  proof -
    have "kv_get (fs_power t) (h', pk) = (if h' \<in> set hs \<and> kv_has J (MarshalHex pk) \<and>
         (\<exists>dc. GetVotingPowerDistCache s1 h' = Some dc \<and> pk \<in> di_btc_pk ` set (dc_finality_providers dc))
       then Some 0 else kv_get (fs_power s1) (h', pk))" using IH Cons.prems(2) by simp
    then show ?thesis using nh dc(3) [rule_format, of "(h', pk)"] by (cases "h' = h") (auto simp: d dc(1))
  qed
  show ?case by (intro conjI ballI allI impI hk c1 c2 c3) (use IH Cons.prems(2) dc(4) in simp_all)
qed

section \<open>Accepted proposals\<close>

definition out_of_service :: "bs_state \<Rightarrow> BIP340PubKey \<Rightarrow> bool" where
  "out_of_service s pk \<longleftrightarrow> (\<exists>fp. kv_get (bs_fps s) pk = Some fp \<and> (FinalityProvider_IsSlashed fp \<or> FinalityProvider_IsJailed fp))"

definition jails_only :: "'c fin_state \<Rightarrow> 'c fin_state \<Rightarrow> bool" where
  "jails_only s t \<longleftrightarrow> t = s\<lparr>fs_bs := fs_bs t, fs_signing_infos := fs_signing_infos t, fs_bitmap := fs_bitmap t\<rparr> \<and> fps_ok (fs_bs t) \<and>
     (\<forall>pk. out_of_service (fs_bs s) pk \<longrightarrow> out_of_service (fs_bs t) pk)"

lemma jails_only_refl: "fps_ok (fs_bs s) \<Longrightarrow> jails_only s s"
  by (cases s) (simp add: jails_only_def)

lemma jails_only_trans: "jails_only s t \<Longrightarrow> jails_only t u \<Longrightarrow> jails_only s u"
  by (cases s; cases t; cases u) (simp add: jails_only_def)

lemma jail_proposed_Inr:
  assumes "jail_proposed cx hh voters hex s = Inr t" and ok: "fps_ok (fs_bs s)"
  shows "\<exists>pk. NewBIP340PubKeyFromHex hex = Inr pk \<and> \<not> kv_has voters hex \<and> out_of_service (fs_bs t) pk \<and> jails_only s t"
proof -
  from assms(1) obtain pk fp where pk: "NewBIP340PubKeyFromHex hex = Inr pk" "\<not> kv_has voters hex"
    and fp: "kv_get (bs_fps (fs_bs s)) pk = Some fp"
    by (auto simp: jail_proposed_def GetFinalityProvider_def split: sum.splits if_splits option.splits)
  show ?thesis
  proof (cases "FinalityProvider_IsSlashed fp \<or> FinalityProvider_IsJailed fp")
    case True
    then have "t = s" using assms(1) pk fp by (simp add: jail_proposed_def GetFinalityProvider_def)
    with True fp pk jails_only_refl [OF ok] show ?thesis by (auto simp: out_of_service_def)
  next
    case False
    then obtain b info where j: "JailFinalityProvider cx pk (fs_bs s) = Inr b"
      and t: "t = set_signing_info pk info (DeleteMissedBlockBitmap pk (s\<lparr>fs_bs := b\<rparr>))"
      using assms(1) pk fp
      by (auto simp: jail_proposed_def GetFinalityProvider_def jailSluggishFinalityProvider_def rbind_def
          split: sum.splits option.splits)
    from j obtain fp' and tip :: BTCHeaderInfo where fp': "kv_get (bs_fps (fs_bs s)) pk = Some fp'"
      "b = addPowerDistUpdateEvent (bhi_height tip) (JailedFp (fp_btc_pk fp')) (SetFinalityProvider (fp'\<lparr>fp_jailed := True\<rparr>) (fs_bs s))"
      by (elim JailFinalityProvider_Inr) blast
    have "fp_btc_pk fp' = pk" using fps_ok_get [OF ok fp'(1)] .
    then have "bs_fps b = kv_set pk (fp'\<lparr>fp_jailed := True\<rparr>) (bs_fps (fs_bs s))"
      by (simp add: fp'(2) addPowerDistUpdateEvent_def SetFinalityProvider_def Let_def)
    moreover have "fps_ok b" using ok \<open>fp_btc_pk fp' = pk\<close> by (simp add: fp'(2))
    ultimately have "out_of_service b pk" "\<forall>k. out_of_service (fs_bs s) k \<longrightarrow> out_of_service b k" "fps_ok b"
      by (auto simp: out_of_service_def FinalityProvider_IsJailed_def)
    then show ?thesis using pk
      by (cases s) (auto simp: t jails_only_def set_signing_info_def DeleteMissedBlockBitmap_def)
  qed
qed

lemma jail_loop:
  assumes "rfold (jail_proposed cx hh voters) hexes s = Inr t" and "fps_ok (fs_bs s)"
  shows "jails_only s t \<and> (\<forall>hex \<in> set hexes. \<not> kv_has voters hex \<and> (\<exists>pk. NewBIP340PubKeyFromHex hex = Inr pk \<and> out_of_service (fs_bs t) pk))"
  using assms
proof (induction hexes arbitrary: s)
  case Nil
  then show ?case by (simp add: jails_only_refl)
next
  case (Cons hex hexes)
  from Cons.prems(1) obtain s1 where 1: "jail_proposed cx hh voters hex s = Inr s1"
    and 2: "rfold (jail_proposed cx hh voters) hexes s1 = Inr t" by (auto simp: rbind_eq_Inr)
  from jail_proposed_Inr [OF 1 Cons.prems(2)] obtain pk where pk: "NewBIP340PubKeyFromHex hex = Inr pk" "\<not> kv_has voters hex"
    "out_of_service (fs_bs s1) pk" "jails_only s s1" by blast
  have IH: "jails_only s1 t \<and> (\<forall>hex \<in> set hexes. \<not> kv_has voters hex \<and> (\<exists>pk. NewBIP340PubKeyFromHex hex = Inr pk \<and> out_of_service (fs_bs t) pk))"
    using pk(4) by (intro Cons.IH [OF 2]) (simp add: jails_only_def)
  then have "out_of_service (fs_bs t) pk" using pk(3) by (simp add: jails_only_def)
  with IH pk jails_only_trans [of s s1 t] show ?case by auto
qed

lemma hex_set_has: "kv_has (fold (\<lambda>h. kv_set h ()) hexes []) k \<longleftrightarrow> k \<in> set hexes"
proof -
  have "kv_has (fold (\<lambda>h. kv_set h ()) hexes st) k \<longleftrightarrow> k \<in> set hexes \<or> kv_has st k" for st
    by (induction hexes arbitrary: st) auto
  then show ?thesis by (simp add: kv_has_def)
qed

lemma resume_run:
  assumes "HandleResumeFinalityProposal X C cx hexes hh s = Inr t" and ok: "fps_ok (fs_bs s)"
  defines "H \<equiv> {h. (ucast hh :: u64) \<le> h \<and> h \<le> to_u64 (ctx_height cx)}"
  obtains voters where "GetVoters s (ucast hh) = Inr voters"
    "\<forall>hex \<in> set hexes. \<not> kv_has voters hex \<and> (\<exists>pk. NewBIP340PubKeyFromHex hex = Inr pk \<and> out_of_service (fs_bs t) pk)"
    "\<forall>h \<in> H. \<exists>dc. GetVotingPowerDistCache s h = Some dc \<and>
       GetVotingPowerDistCache t h = Some (resumed_cache (fold (\<lambda>h. kv_set h ()) hexes []) dc)"
    "\<forall>h. h \<notin> H \<longrightarrow> GetVotingPowerDistCache t h = GetVotingPowerDistCache s h"
    "\<forall>h pk. kv_get (fs_power t) (h, pk) = (if h \<in> H \<and> MarshalHex pk \<in> set hexes \<and>
         (\<exists>dc. GetVotingPowerDistCache s h = Some dc \<and> pk \<in> di_btc_pk ` set (dc_finality_providers dc))
       then Some 0 else kv_get (fs_power s) (h, pk))"
    "kv_ok (fs_power s) \<longrightarrow> kv_ok (fs_power t)"
    "fs_votes t = fs_votes s \<and> fs_blocks t = fs_blocks s \<and> fs_next_finalize t = fs_next_finalize s \<and> fs_params t = fs_params s"
    "fs_pub_rand_commits t = fs_pub_rand_commits s \<and> fs_pub_rand_idx t = fs_pub_rand_idx s \<and> fs_pub_rands t = fs_pub_rands s \<and>
      fs_evidences t = fs_evidences s \<and> fps_ok (fs_bs t)"
proof -
  from assms(1) obtain voters s1 st where v: "GetVoters s (ucast hh) = Inr voters"
    and 1: "rfold (jail_proposed cx hh voters) hexes s = Inr s1"
    and 2: "rfold (resume_height X C cx (fold (\<lambda>h. kv_set h ()) hexes [])) (range_u64 (ucast hh) (to_u64 (ctx_height cx))) (None, s1) = Inr (st, t)"
    by (auto simp: HandleResumeFinalityProposal_def rbind_eq_Inr Let_def split: if_splits)
  note J = jail_loop [OF 1 ok]
  then have s1: "s1 = s\<lparr>fs_bs := fs_bs s1, fs_signing_infos := fs_signing_infos s1, fs_bitmap := fs_bitmap s1\<rparr>"
    by (simp add: jails_only_def)
  have f1: "fs_power s1 = fs_power s" "fs_dist_cache s1 = fs_dist_cache s" "fs_votes s1 = fs_votes s" "fs_blocks s1 = fs_blocks s"
    "fs_next_finalize s1 = fs_next_finalize s" "fs_params s1 = fs_params s" "fs_pub_rand_commits s1 = fs_pub_rand_commits s"
    "fs_pub_rand_idx s1 = fs_pub_rand_idx s" "fs_pub_rands s1 = fs_pub_rands s" "fs_evidences s1 = fs_evidences s"
    by (subst s1, simp)+
  have "fps_ok (fs_bs s1)" using J by (simp add: jails_only_def)
  have c1: "GetVotingPowerDistCache s1 = GetVotingPowerDistCache s" by (simp add: GetVotingPowerDistCache_def fun_eq_iff f1)
  have H: "set (range_u64 (ucast hh) (to_u64 (ctx_height cx))) = H" by (auto simp: H_def set_range_u64)
  note R = resume_heights [OF 2 distinct_range_u64, unfolded H c1 f1 hex_set_has]
  then have hk: "hooks_only (s1\<lparr>fs_power := fs_power t, fs_dist_cache := fs_dist_cache t\<rparr>) t" by blast
  note fl = hooks_only_fields [OF hk, simplified f1]
  have "fs_bs t = fs_bs s1" using fl by simp
  then show ?thesis using that [of voters] v J R fl f1 \<open>fps_ok (fs_bs s1)\<close> by simp
qed

lemma hex_length: "NewBIP340PubKeyFromHex (MarshalHex pk) = Inr pk' \<Longrightarrow> pk' = pk \<and> length pk = BIP340PubKeyLen"
  by (auto simp: NewBIP340PubKeyFromHex_def UnmarshalHex_def MarshalHex_def BIP340PubKey_Unmarshal_def split: if_splits)

text \<open>A power table in which a set of finality providers has been set to zero.\<close>

definition zeroed :: "(u64 \<Rightarrow> BIP340PubKey \<Rightarrow> bool) \<Rightarrow> 'c fin_state \<Rightarrow> 'c fin_state \<Rightarrow> bool" where
  "zeroed Z s t \<longleftrightarrow> (\<forall>h pk. kv_get (fs_power t) (h, pk) = (if Z h pk then Some 0 else kv_get (fs_power s) (h, pk)))"

lemma power_at_zeroed:
  assumes z: "zeroed Z s t" and ok: "kv_ok (fs_power s)" "kv_ok (fs_power t)"
  shows "power_at t h P = power_at s h (\<lambda>pk. P pk \<and> \<not> Z h pk)"
proof -
  have g: "GetVotingPower t pk h = (if Z h pk then 0 else GetVotingPower s pk h)" for pk
    using z by (simp add: zeroed_def GetVotingPower_def)
  have k: "kv_has (fs_power t) (h, pk) \<longleftrightarrow> Z h pk \<or> kv_has (fs_power s) (h, pk)" for pk
    using z by (simp add: zeroed_def kv_has_def)
  show ?thesis unfolding power_at_sum [OF ok(1)] power_at_sum [OF ok(2)]
  proof (rule sum.mono_neutral_cong_right)
    show "finite {pk. kv_has (fs_power t) (h, pk) \<and> P pk}"
      by (rule finite_subset [OF _ powered_finite [OF ok(2)]]) blast
  qed (auto simp: g k)
qed

lemma zeroed_tally_ok:
  assumes z: "zeroed Z s t" and ok: "kv_ok (fs_power s)" "kv_ok (fs_power t)" and "tally_ok s"
    and act: "GetBTCStakingActivatedHeight s = Inr a"
    and Z: "\<And>h pk. Z h pk \<Longrightarrow> length pk = BIP340PubKeyLen \<and> a \<le> h \<and> getNextHeightToFinalize s \<le> h"
    and same: "fs_votes t = fs_votes s" "fs_blocks t = fs_blocks s" "fs_next_finalize t = fs_next_finalize s"
  shows "tally_ok t" "GetBTCStakingActivatedHeight t = Inr a"
proof -
  have k: "kv_has (fs_power t) (h, pk) \<longleftrightarrow> Z h pk \<or> kv_has (fs_power s) (h, pk)" for h pk
    using z by (simp add: zeroed_def kv_has_def)
  show act': "GetBTCStakingActivatedHeight t = Inr a"
    using act Z unfolding activated_iff [OF ok(1)] activated_iff [OF ok(2)] k by blast
  have n: "getNextHeightToFinalize t = getNextHeightToFinalize s" "finalized_heights t = finalized_heights s"
    by (simp_all add: getNextHeightToFinalize_def finalized_heights_def same)
  have tab: "HasVotingPowerTable t h = HasVotingPowerTable s h" if "h < getNextHeightToFinalize s" for h
    using that Z [of h] unfolding has_table_iff k by (meson leD)
  have len: "length (snd (fst e)) = BIP340PubKeyLen" if "e \<in> set (fs_power t)" for e
  proof -
    have "kv_has (fs_power t) (fst (fst e), snd (fst e))" using that by (simp add: kv_has_keys [OF ok(2)])
    then consider "Z (fst (fst e)) (snd (fst e))" | "fst e \<in> fst ` set (fs_power s)"
      unfolding k kv_has_keys [OF ok(1)] by auto
    then show ?thesis using Z assms(4) by cases (auto simp: tally_ok_def)
  qed
  show "tally_ok t"
    using assms(4) len tab act act' unfolding tally_ok_def n same by (auto simp: tally_ok_def)
qed

section \<open>Properties\<close>


text \<open>C38: A proposal that does not write the keys in lower case jails the finality providers and resumes
  nothing.  The keys of the proposal are compared as strings with the lower-case keys of the voters and of
  the caches: an accepted proposal in any other spelling takes every named finality provider out of
  service, whether or not it voted for the halting height, and leaves the power table and every quorum as
  they were.\<close>

theorem HandleResumeFinalityProposal_other_spelling:
  assumes "HandleResumeFinalityProposal X C cx hexes hh s = Inr t"
    and "fps_ok (fs_bs s)" "kv_ok (fs_power s)"
    and spelling: "\<forall>hex \<in> set hexes. \<forall>pk. hex \<noteq> MarshalHex pk"
  shows "(\<forall>hex \<in> set hexes. \<exists>pk. NewBIP340PubKeyFromHex hex = Inr pk \<and> out_of_service (fs_bs t) pk) \<and>
    fs_power t = fs_power s \<and> (\<forall>h. tallied t h = tallied s h)"
proof -
  obtain voters :: "(string, unit) store" where R: "\<forall>hex \<in> set hexes. \<not> kv_has voters hex \<and> (\<exists>pk. NewBIP340PubKeyFromHex hex = Inr pk \<and> out_of_service (fs_bs t) pk)"
    "\<forall>h pk. kv_get (fs_power t) (h, pk) = (if h \<in> {h. (ucast hh :: u64) \<le> h \<and> h \<le> to_u64 (ctx_height cx)} \<and> MarshalHex pk \<in> set hexes \<and>
         (\<exists>dc. GetVotingPowerDistCache s h = Some dc \<and> pk \<in> di_btc_pk ` set (dc_finality_providers dc))
       then Some 0 else kv_get (fs_power s) (h, pk))"
    "kv_ok (fs_power s) \<longrightarrow> kv_ok (fs_power t)" "fs_votes t = fs_votes s \<and> fs_blocks t = fs_blocks s \<and> fs_next_finalize t = fs_next_finalize s \<and> fs_params t = fs_params s"
    by (rule resume_run [OF assms(1,2)]) (rule that; assumption)
  have "kv_get (fs_power t) k = kv_get (fs_power s) k" for k
    using R(2) spelling by (cases k) auto
  then have p: "fs_power t = fs_power s" using R(3) assms(3) by (intro kv_ext) simp_all
  have eqs: "GetVotingPowerTable t h = GetVotingPowerTable s h" "GetVoters t h = GetVoters s h" for h
    using p R(4) by (simp_all add: GetVotingPowerTable_def GetVoters_def)
  have "tallied t h = tallied s h" for h unfolding tallied_def eqs ..
  then show ?thesis using R(1) p by blast
qed

text \<open>Two finality providers at heights 4 and 5, of which only the first votes.\<close>

definition resume_fp :: bytes where
  "resume_fp = replicate 32 0xab"

definition resume_dc :: VotingPowerDistCache where
  "resume_dc = \<lparr>dc_total_voting_power = 2, dc_finality_providers = [power_entry 1 1, (power_entry 2 1)\<lparr>di_btc_pk := resume_fp\<rparr>], dc_num_active_fps = 2\<rparr>"

definition resume_state :: "int fin_state" where
  "resume_state = fin_empty\<lparr>
     fs_bs := bs_empty\<lparr>bs_fps := [(ending_in 1, example_fp (ending_in 1)), (resume_fp, example_fp resume_fp)]\<rparr>,
     fs_blocks := [(4, \<lparr>ib_height = 4, ib_app_hash = [4], ib_finalized = False\<rparr>)], fs_next_finalize := Some 4,
     fs_power := [((4, ending_in 1), 1), ((4, resume_fp), 1), ((5, ending_in 1), 1), ((5, resume_fp), 1)],
     fs_votes := [((4, ending_in 1), [1]), ((5, ending_in 1), [1])],
     fs_dist_cache := [(4, resume_dc), (5, resume_dc)],
     fs_signing_infos := [(ending_in 1, NewFinalityProviderSigningInfo (ending_in 1) 1 0), (resume_fp, NewFinalityProviderSigningInfo resume_fp 1 0)]\<rparr>"

lemma resume_runs:
  "\<not> isl (HandleResumeFinalityProposal ext_accepting int_coins example_ctx [MarshalHex resume_fp] 4 resume_state)"
  by code_simp

lemma resume_runs_upper:
  "\<not> isl (HandleResumeFinalityProposal ext_accepting int_coins example_ctx [concat (replicate 32 ''AB'')] 4
     (resume_state\<lparr>fs_votes := [((4, resume_fp), [1])]\<rparr>))"
  by code_simp

lemma resume_ok:
  "fps_ok (fs_bs resume_state)" "tally_ok resume_state" "kv_ok (fs_power resume_state)" "kv_ok (fs_votes resume_state)"
  "GetBTCStakingActivatedHeight resume_state = Inr 4" "getNextHeightToFinalize resume_state = 4"
proof -
  have o: "ending_in 1 < resume_fp" by code_simp
  then show "fps_ok (fs_bs resume_state)" "kv_ok (fs_power resume_state)" "kv_ok (fs_votes resume_state)"
    by (auto simp: resume_state_def fps_ok_def kv_ok_def example_fp_def less_prod_def split: if_splits)
  show "GetBTCStakingActivatedHeight resume_state = Inr 4" "getNextHeightToFinalize resume_state = 4"
    by (simp_all add: resume_state_def GetBTCStakingActivatedHeight_def kv_first_def getNextHeightToFinalize_def)
  have "finalized_heights resume_state = {}" by (auto simp: finalized_heights_def resume_state_def split: if_splits)
  then show "tally_ok resume_state"
    by (auto simp: tally_ok_def resume_state_def GetBTCStakingActivatedHeight_def kv_first_def getNextHeightToFinalize_def
        ending_in_def resume_fp_def BIP340PubKeyLen_def split: if_splits)
qed

lemma resume_heights_are: "{h :: u64. ucast (4 :: u32) \<le> h \<and> h \<le> to_u64 (ctx_height example_ctx)} = {4, 5}"
proof -
  have "h = 4 \<or> h = 5" if "4 \<le> h" "h \<le> 5" for h :: u64
    using that by unat_arith
  then show ?thesis by (auto simp: example_ctx_def to_u64_def)
qed


theorem HandleResumeFinalityProposal_other_spelling_witness:
  "\<exists>t. HandleResumeFinalityProposal ext_accepting int_coins example_ctx [concat (replicate 32 ''AB'')] 4
       (resume_state\<lparr>fs_votes := [((4, resume_fp), [1])]\<rparr>) = Inr t \<and>
     out_of_service (fs_bs t) resume_fp \<and> GetVotingPower t resume_fp 4 = 1"
proof -
  let ?hex = "concat (replicate 32 ''AB'')" and ?s = "resume_state\<lparr>fs_votes := [((4, resume_fp), [1])]\<rparr>"
  obtain t where t: "HandleResumeFinalityProposal ext_accepting int_coins example_ctx [?hex] 4 ?s = Inr t"
    using resume_runs_upper by (cases "HandleResumeFinalityProposal ext_accepting int_coins example_ctx [?hex] 4 ?s") auto
  have d: "NewBIP340PubKeyFromHex ?hex = Inr resume_fp" by code_simp
  have "?hex \<noteq> MarshalHex resume_fp" by code_simp
  then have n: "?hex \<noteq> MarshalHex pk" for pk
    using d hex_length [of pk resume_fp] by fastforce
  from HandleResumeFinalityProposal_other_spelling [OF t] resume_ok n d
  have "out_of_service (fs_bs t) resume_fp" "fs_power t = fs_power resume_state" by auto
  with t show ?thesis by (auto simp: GetVotingPower_def resume_state_def)
qed

end
