(* ===== verification/Finality_System.thy ===== *)
theory Finality_System
  imports Finality_Block
begin

text \<open>
  The finality module and the modules around it as a transition system: blocks are opened by the begin
  blockers, change the state by messages and are closed by the end blockers.  \<open>sys_ok\<close> is the invariant of its reachable states.
  A message that fails leaves the state as it was, so only successful calls are steps.
\<close>

section \<open>The transition system\<close>

text \<open>\<open>sy_cur\<close> is the height of the last block that was opened.\<close>

record 'c sys =
  sy_cur :: u64
  sy_open :: bool
  sy_fin :: "'c fin_state"

definition ctx_at :: "ctx \<Rightarrow> u64 \<Rightarrow> bool" where
  "ctx_at cx h \<longleftrightarrow> ctx_height cx = uint h \<and> uint h < 2 ^ 63"

text \<open>A height at which finality is halted: at or after the activation and not finalised yet.  The
  comment of \<open>HandleResumeFinalityProposal\<close> requires it of a valid proposal; the code does not check it.\<close>

definition halted_at :: "'c fin_state \<Rightarrow> u64 \<Rightarrow> bool" where
  "halted_at s h \<longleftrightarrow> getNextHeightToFinalize s \<le> h \<and>
     (case GetBTCStakingActivatedHeight s of Inl _ \<Rightarrow> False | Inr a \<Rightarrow> a \<le> h)"

inductive fin_msg ::
  "ext \<Rightarrow> 'c coins_ops \<Rightarrow> 'p fin_ext \<Rightarrow> (MsgAddFinalitySig \<Rightarrow> bytes) \<Rightarrow> string \<Rightarrow> ctx \<Rightarrow> 'c fin_state \<Rightarrow> 'c fin_state \<Rightarrow> bool"
  for X C F enc auth cx where
  vote: "AddFinalitySig X F enc cx ep req s = Inr t \<Longrightarrow> fin_msg X C F enc auth cx s t"
| commit: "CommitPubRandList X F cx req s = Inr t \<Longrightarrow> fin_msg X C F enc auth cx s t"
| unjail: "UnjailFinalityProvider cx signer pk s = Inr t \<Longrightarrow> fin_msg X C F enc auth cx s t"
| params: "fin_UpdateParams auth a p s = Inr t \<Longrightarrow> pm_activation_height p = pm_activation_height (fin_GetParams s) \<Longrightarrow>
    fin_msg X C F enc auth cx s t"
| resume: "ResumeFinalityProposal X C cx auth a hexes hh s = Inr t \<Longrightarrow> halted_at s (ucast hh) \<Longrightarrow>
    fin_msg X C F enc auth cx s t"
| provider: "fp_step X (fs_bs s) b \<Longrightarrow> fin_msg X C F enc auth cx s (s\<lparr>fs_bs := b\<rparr>)"
| delegate: "AddBTCDelegation X del (fs_bs s) = Inr b \<Longrightarrow> fin_msg X C F enc auth cx s (s\<lparr>fs_bs := b\<rparr>)"
| covenant: "addCovenantSigsToBTCDelegation X del pk sl ub us ex tip (fs_bs s) = Inr b \<Longrightarrow>
    fin_msg X C F enc auth cx s (s\<lparr>fs_bs := b\<rparr>)"
| undelegate: "btcUndelegate X cx del u (fs_bs s) = Inr b \<Longrightarrow> fin_msg X C F enc auth cx s (s\<lparr>fs_bs := b\<rparr>)"
| rollback: "fin_msg X C F enc auth cx s (s\<lparr>fs_bs := AfterBTCRollBack from_header to_header (fs_bs s)\<rparr>)"
| other_modules: "fin_msg X C F enc auth cx s (s\<lparr>fs_cos := c\<rparr>)"

text \<open>The begin and end blockers in the order of the application: BTC staking, then finality, then costaking.\<close>

definition begin_blockers :: "ext \<Rightarrow> 'c coins_ops \<Rightarrow> ctx \<Rightarrow> 'c fin_state \<Rightarrow> 'c fin_state res" where
  "begin_blockers X C cx s = BeginBlocker X C cx (s\<lparr>fs_bs := BeginBlocker_bs cx (fs_bs s)\<rparr>)"

definition end_blockers ::
  "ext \<Rightarrow> 'c coins_ops \<Rightarrow> 'b bitset_ops \<Rightarrow> 'p fin_ext \<Rightarrow> ctx \<Rightarrow> 'c fin_state \<Rightarrow> 'c fin_state res" where
  "end_blockers X C B F cx s =
     rbind (HaltIfBtcReorgLargerThanConfirmationDepth cx (fs_bs s)) (\<lambda>_.
     rbind (EndBlocker X C B F cx s) (\<lambda>t.
       Inr (t\<lparr>fs_cos := cos_EndBlock (fs_cos t)\<rparr>)))"

inductive sys_step ::
  "ext \<Rightarrow> 'c coins_ops \<Rightarrow> 'b bitset_ops \<Rightarrow> 'p fin_ext \<Rightarrow> (MsgAddFinalitySig \<Rightarrow> bytes) \<Rightarrow> string \<Rightarrow> 'c sys \<Rightarrow> 'c sys \<Rightarrow> bool"
  for X C B F enc auth where
  open_block: "\<not> sy_open S \<Longrightarrow> ctx_at cx (sy_cur S + 1) \<Longrightarrow> begin_blockers X C cx (sy_fin S) = Inr t \<Longrightarrow>
    sys_step X C B F enc auth S \<lparr>sy_cur = sy_cur S + 1, sy_open = True, sy_fin = t\<rparr>"
| deliver: "sy_open S \<Longrightarrow> ctx_at cx (sy_cur S) \<Longrightarrow> fin_msg X C F enc auth cx (sy_fin S) t \<Longrightarrow>
    sys_step X C B F enc auth S (S\<lparr>sy_fin := t\<rparr>)"
| close_block: "sy_open S \<Longrightarrow> ctx_at cx (sy_cur S) \<Longrightarrow> end_blockers X C B F cx (sy_fin S) = Inr t \<Longrightarrow>
    sys_step X C B F enc auth S \<lparr>sy_cur = sy_cur S, sy_open = False, sy_fin = t\<rparr>"

text \<open>Before the first block the stores of the module are empty; the parameters and the state of the other
  modules are those of the genesis file.\<close>

definition sys_init :: "'c sys \<Rightarrow> bool" where
  "sys_init S \<longleftrightarrow> sy_cur S = 0 \<and> \<not> sy_open S \<and> fps_ok (fs_bs (sy_fin S)) \<and>
     (\<exists>b c p si bm rf. sy_fin S = fin_empty\<lparr>fs_bs := b, fs_cos := c, fs_params := p, fs_signing_infos := si,
        fs_bitmap := bm, fs_refundable := rf\<rparr>)"

section \<open>The invariant\<close>

definition active_at :: "'c fin_state \<Rightarrow> u64" where
  "active_at s = pm_activation_height (fin_GetParams s)"

text \<open>Every finalised block still has its quorum.\<close>

definition quorum_ok :: "'c fin_state \<Rightarrow> bool" where
  "quorum_ok s \<longleftrightarrow> (\<forall>h \<in> finalized_heights s. 3 * power_at s h (\<lambda>_. True) < 2 ^ 64 \<longrightarrow>
     2 * power_at s h (\<lambda>_. True) < 3 * power_at s h (\<lambda>pk. kv_has (fs_votes s) (h, pk)))"

definition dc_keys_ok :: "VotingPowerDistCache \<Rightarrow> bool" where
  "dc_keys_ok dc \<longleftrightarrow> (\<forall>fp \<in> set (dc_finality_providers dc). length (di_btc_pk fp) = BIP340PubKeyLen)"

definition caches_ok :: "'c fin_state \<Rightarrow> bool" where
  "caches_ok s \<longleftrightarrow> (\<forall>h dc. GetVotingPowerDistCache s h = Some dc \<longrightarrow> dc_keys_ok dc)"

text \<open>The heights: power is assigned between the activation height and the current one, the next height
  to finalise is at most \<open>lim\<close>, and every block from the activation of staking to \<open>lim\<close> is indexed.\<close>

definition heights_ok :: "u64 \<Rightarrow> u64 \<Rightarrow> 'c fin_state \<Rightarrow> bool" where
  "heights_ok cur lim s \<longleftrightarrow>
     (\<forall>h pk. kv_has (fs_power s) (h, pk) \<longrightarrow> active_at s \<le> h \<and> h \<le> cur) \<and>
     getNextHeightToFinalize s \<le> lim \<and>
     (\<forall>a h. GetBTCStakingActivatedHeight s = Inr a \<longrightarrow> a \<le> h \<longrightarrow> h < lim \<longrightarrow> HasBlock s h) \<and>
     (\<forall>pk st c. kv_get (fs_pub_rand_commits s) (pk, st) = Some c \<longrightarrow> active_at s \<le> pc_start_height c)"

definition chain_ok :: "u64 \<Rightarrow> u64 \<Rightarrow> 'c fin_state \<Rightarrow> bool" where
  "chain_ok cur lim s \<longleftrightarrow> kv_ok (fs_power s) \<and> kv_ok (fs_votes s) \<and> tally_ok s \<and> caches_ok s \<and> quorum_ok s \<and>
     heights_ok cur lim s"

definition fin_ok :: "'p fin_ext \<Rightarrow> u64 \<Rightarrow> u64 \<Rightarrow> 'c fin_state \<Rightarrow> bool" where
  "fin_ok F cur lim s \<longleftrightarrow> fps_ok (fs_bs s) \<and> pub_rand_ok s \<and> votes_ok F s \<and> chain_ok cur lim s"

definition sys_ok :: "'p fin_ext \<Rightarrow> 'c sys \<Rightarrow> bool" where
  "sys_ok F S \<longleftrightarrow> uint (sy_cur S) < 2 ^ 63 \<and> fin_ok F (sy_cur S) (if sy_open S then sy_cur S else sy_cur S + 1) (sy_fin S)"

text \<open>What the invariant reads of the state.\<close>

definition same_core :: "'c fin_state \<Rightarrow> 'c fin_state \<Rightarrow> bool" where
  "same_core s t \<longleftrightarrow> fs_params t = fs_params s \<and> fs_votes t = fs_votes s \<and> fs_blocks t = fs_blocks s \<and>
     fs_power t = fs_power s \<and> fs_dist_cache t = fs_dist_cache s \<and> fs_next_finalize t = fs_next_finalize s \<and>
     fs_pub_rand_commits t = fs_pub_rand_commits s \<and> fs_pub_rand_idx t = fs_pub_rand_idx s \<and>
     fs_pub_rands t = fs_pub_rands s \<and> fs_evidences t = fs_evidences s"

lemma same_core_refl [simp]: "same_core s s"
  by (simp add: same_core_def)

lemma same_core_trans: "same_core s t \<Longrightarrow> same_core t u \<Longrightarrow> same_core s u"
  by (simp add: same_core_def)

lemma votes_ok_same:
  assumes "fs_pub_rand_commits t = fs_pub_rand_commits s" "fs_pub_rand_idx t = fs_pub_rand_idx s"
    "fs_pub_rands t = fs_pub_rands s" "fs_evidences t = fs_evidences s" "fs_votes t = fs_votes s" "fs_blocks t = fs_blocks s"
  shows "votes_ok F t = votes_ok F s" "pub_rand_ok t = pub_rand_ok s"
proof -
  have "GetPubRandCommitForHeight t = GetPubRandCommitForHeight s"
    by (intro ext) (simp only: GetPubRandCommitForHeight_def assms)
  then show "votes_ok F t = votes_ok F s" by (simp add: votes_ok_def revealed_ok_def assms)
  show "pub_rand_ok t = pub_rand_ok s" by (simp add: pub_rand_ok_def assms)
qed

lemma power_at_same: "fs_power t = fs_power s \<Longrightarrow> power_at t h P = power_at s h P"
  by (simp add: power_at_def)

lemma tally_ok_same:
  assumes "fs_votes t = fs_votes s" "fs_blocks t = fs_blocks s" "fs_power t = fs_power s" "fs_next_finalize t = fs_next_finalize s"
  shows "tally_ok t = tally_ok s" "finalized_heights t = finalized_heights s" "getNextHeightToFinalize t = getNextHeightToFinalize s"
    "GetBTCStakingActivatedHeight t = GetBTCStakingActivatedHeight s" "HasBlock t = HasBlock s" "quorum_ok t = quorum_ok s"
proof -
  show 1: "finalized_heights t = finalized_heights s" "getNextHeightToFinalize t = getNextHeightToFinalize s"
    "GetBTCStakingActivatedHeight t = GetBTCStakingActivatedHeight s" "HasBlock t = HasBlock s"
    by (simp_all add: finalized_heights_def getNextHeightToFinalize_def GetBTCStakingActivatedHeight_def HasBlock_def fun_eq_iff assms)
  show "tally_ok t = tally_ok s" unfolding tally_ok_def 1 power_frame [OF assms(3)] assms ..
  show "quorum_ok t = quorum_ok s" unfolding quorum_ok_def 1 power_at_same [OF assms(3)] assms ..
qed

lemma chain_ok_same:
  assumes "same_core s t"
  shows "chain_ok cur lim t = chain_ok cur lim s"
proof -
  note c = assms [unfolded same_core_def]
  have "active_at t = active_at s" by (simp add: active_at_def fin_GetParams_def c)
  moreover have "GetVotingPowerDistCache t = GetVotingPowerDistCache s" by (simp add: GetVotingPowerDistCache_def fun_eq_iff c)
  ultimately show ?thesis
    using tally_ok_same [of t s] by (simp add: chain_ok_def caches_ok_def heights_ok_def c)
qed

lemma fin_ok_same:
  assumes "same_core s t" and "fps_ok (fs_bs t)" and "fin_ok F cur lim s"
  shows "fin_ok F cur lim t"
  using assms chain_ok_same [OF assms(1), of cur lim] votes_ok_same(1) [of t s F] votes_ok_same(2) [of t s] by (simp add: fin_ok_def same_core_def)

section \<open>Changes of the power table\<close>

lemma power_at_below:
  assumes "kv_ok p" "kv_ok (fs_power s)" and "fs_power t = p" and "\<And>pk. kv_get p (h, pk) = kv_get (fs_power s) (h, pk)"
  shows "power_at t h P = power_at s h P" "HasVotingPowerTable t h = HasVotingPowerTable s h"
proof -
  have "kv_prefix h p = kv_prefix h (fs_power s)"
    using assms(1,2,4) by (intro kv_ext kv_prefix_ok) (simp_all add: kv_get_prefix)
  then show "power_at t h P = power_at s h P" "HasVotingPowerTable t h = HasVotingPowerTable s h"
    by (simp_all add: power_at_def HasVotingPowerTable_def assms(3))
qed

lemma power_change:
  assumes ok: "chain_ok cur lim s" and p: "kv_ok (fs_power t)"
    and below: "\<And>h pk. h < lo \<Longrightarrow> kv_get (fs_power t) (h, pk) = kv_get (fs_power s) (h, pk)"
    and keep: "\<And>k. kv_has (fs_power s) k \<Longrightarrow> kv_has (fs_power t) k"
    and above: "\<And>h pk. lo \<le> h \<Longrightarrow> kv_has (fs_power t) (h, pk) \<Longrightarrow> length pk = BIP340PubKeyLen \<and> active_at s \<le> h \<and> h \<le> cur'"
    and lo: "getNextHeightToFinalize s \<le> lo" "cur \<le> cur'"
    and gap: "lim \<le> lo \<or> (\<exists>a. GetBTCStakingActivatedHeight s = Inr a \<and> a \<le> lo)"
    and caches: "caches_ok t"
    and same: "fs_votes t = fs_votes s" "fs_blocks t = fs_blocks s" "fs_next_finalize t = fs_next_finalize s"
      "fs_params t = fs_params s" "fs_pub_rand_commits t = fs_pub_rand_commits s"
  shows "chain_ok cur' lim t"
proof -
  note c = ok [unfolded chain_ok_def]
  have pw: "power_at t h P = power_at s h P" "HasVotingPowerTable t h = HasVotingPowerTable s h" if "h < lo" for h P
    using power_at_below [OF p _ refl, of s h] c below [OF that] by blast+
  have fin: "finalized_heights t = finalized_heights s" "getNextHeightToFinalize t = getNextHeightToFinalize s"
    "HasBlock t = HasBlock s" "active_at t = active_at s"
    by (simp_all add: finalized_heights_def getNextHeightToFinalize_def HasBlock_def fun_eq_iff active_at_def fin_GetParams_def same)
  have done': "h < lo" if "h \<in> finalized_heights s" for h
    using that c lo(1) by (auto simp: tally_ok_def)
  have quorum: "quorum_ok t"
    using c by (auto simp: quorum_ok_def fin same pw [OF done'])
  note act = activated_iff [OF p] activated_iff [of s]
  have old: "GetBTCStakingActivatedHeight s = Inr a" if "GetBTCStakingActivatedHeight t = Inr a" "a < lo" for a
  proof -
    have "kv_has (fs_power t) (a, pk) = kv_has (fs_power s) (a, pk)" for pk by (simp add: kv_has_def below [OF that(2)])
    then show ?thesis using that(1) c keep unfolding act(1) by (subst activated_iff) blast+
  qed
  have old_or: "GetBTCStakingActivatedHeight s = Inr a \<or> lo \<le> a \<and> lim \<le> lo" if "GetBTCStakingActivatedHeight t = Inr a" for a
  proof (cases "a < lo")
    case False
    show ?thesis
    proof (rule disjCI)
      assume n: "\<not> (lo \<le> a \<and> lim \<le> lo)"
      with False gap obtain b where b: "GetBTCStakingActivatedHeight s = Inr b" "b \<le> lo" by auto
      then obtain pk where "kv_has (fs_power t) (b, pk)" using c keep by (subst (asm) activated_iff) auto
      with that have "a \<le> b" unfolding act(1) by blast
      with b False have "a = b" by simp
      with b show "GetBTCStakingActivatedHeight s = Inr a" by simp
    qed
  qed (use old that in blast)
  have len: "length (snd (fst e)) = BIP340PubKeyLen" if "e \<in> set (fs_power t)" for e
  proof (cases "lo \<le> fst (fst e)")
    case True
    then show ?thesis using above [of "fst (fst e)" "snd (fst e)"] that by (simp add: kv_has_keys [OF p])
  next
    case False
    have "kv_has (fs_power t) (fst (fst e), snd (fst e))" using that by (simp add: kv_has_keys [OF p])
    then have "kv_has (fs_power s) (fst (fst e), snd (fst e))" 
      using below [of "fst (fst e)" "snd (fst e)"] False unfolding kv_has_def by simp
    then show ?thesis using c by (auto simp: kv_has_keys tally_ok_def)
  qed
  have cover: "h \<in> finalized_heights s \<or> \<not> HasVotingPowerTable t h"
    if "GetBTCStakingActivatedHeight t = Inr a" "a \<le> h" "h < getNextHeightToFinalize s" for a h
  proof -
    have h: "h < lo" using that(3) lo(1) by simp
    then have "GetBTCStakingActivatedHeight s = Inr a" using old_or [OF that(1)] that(2) by auto
    then show ?thesis using c that(2,3) by (auto simp: tally_ok_def pw(2) [OF h])
  qed
  have tally: "tally_ok t"
    unfolding tally_ok_def fin same
  proof (intro conjI)
    show "\<forall>h b. kv_get (fs_blocks s) h = Some b \<longrightarrow> ib_height b = h" "\<forall>e \<in> set (fs_votes s). length (snd (fst e)) = BIP340PubKeyLen"
      using c by (auto simp: tally_ok_def)
    show "\<forall>e \<in> set (fs_power t). length (snd (fst e)) = BIP340PubKeyLen" using len by blast
    show "\<forall>h \<in> finalized_heights s. h < getNextHeightToFinalize s \<and> HasVotingPowerTable t h"
      using c pw(2) [OF done'] by (auto simp: tally_ok_def)
    show "\<forall>a h. GetBTCStakingActivatedHeight t = Inr a \<longrightarrow> a \<le> h \<longrightarrow> h < getNextHeightToFinalize s \<longrightarrow>
        h \<in> finalized_heights s \<or> \<not> HasVotingPowerTable t h" using cover by blast
  qed
  have "active_at s \<le> h \<and> h \<le> cur'" if "kv_has (fs_power t) (h, pk)" for h pk
  proof (cases "lo \<le> h")
    case True
    then show ?thesis using above that by blast
  next
    case False
    then have "kv_has (fs_power s) (h, pk)" using that below [of h pk] by (simp add: kv_has_def)
    then show ?thesis using c lo(2) by (force simp: heights_ok_def)
  qed
  moreover have "HasBlock s h" if "GetBTCStakingActivatedHeight t = Inr a" "a \<le> h" "h < lim" for a h
  proof -
    have "\<not> (lo \<le> a \<and> lim \<le> lo)" using that(2,3) by auto
    then have "GetBTCStakingActivatedHeight s = Inr a" using old_or [OF that(1)] by blast
    then show ?thesis using c that(2,3) by (auto simp: heights_ok_def)
  qed
  ultimately have "heights_ok cur' lim t" using c by (simp add: heights_ok_def fin same)
  then show ?thesis using c p tally caches quorum by (simp add: chain_ok_def same)
qed

lemma chain_ok_entry:
  assumes ok: "chain_ok cur lim s" and h: "kv_has (fs_power s) (h, pk)"
  shows "length pk = BIP340PubKeyLen \<and> active_at s \<le> h \<and> h \<le> cur"
proof -
  from h ok have "(h, pk) \<in> fst ` set (fs_power s)" by (simp add: kv_has_keys chain_ok_def)
  then have "length pk = BIP340PubKeyLen" using ok by (auto simp: chain_ok_def tally_ok_def)
  moreover have "active_at s \<le> h \<and> h \<le> cur" using ok h unfolding chain_ok_def heights_ok_def by blast
  ultimately show ?thesis by blast
qed

section \<open>Messages\<close>

text \<open>A message of the module touches the votes, the randomness, the evidence and the state of BTC staking;
  \<open>vote_frame\<close> says which vote it may add.\<close>

definition vote_frame :: "u64 \<Rightarrow> BIP340PubKey \<Rightarrow> 'c fin_state \<Rightarrow> 'c fin_state \<Rightarrow> bool" where
  "vote_frame h pk s t \<longleftrightarrow> fs_params t = fs_params s \<and> fs_blocks t = fs_blocks s \<and> fs_power t = fs_power s \<and>
     fs_dist_cache t = fs_dist_cache s \<and> fs_next_finalize t = fs_next_finalize s \<and>
     fs_pub_rand_commits t = fs_pub_rand_commits s \<and> fs_pub_rand_idx t = fs_pub_rand_idx s \<and>
     (fs_votes t = fs_votes s \<or> (\<exists>sig. fs_votes t = kv_set (h, pk) sig (fs_votes s))) \<and>
     (fps_ok (fs_bs s) \<longrightarrow> fps_ok (fs_bs t))"

lemma slash_frame: "slashFinalityProvider cx pk s = Inr t \<Longrightarrow> \<exists>b. t = s\<lparr>fs_bs := b\<rparr> \<and> (fps_ok (fs_bs s) \<longrightarrow> fps_ok b)"
  by (elim slashFinalityProvider_Inr) (auto intro: fp_step_ok fp_step.slash)

lemma vote_for_fork_frame:
  "vote_for_fork cx req b s = Inr t \<Longrightarrow> vote_frame (fsg_block_height req) (fsg_fp_btc_pk req) s t"
  by (erule vote_for_fork_cases) (auto simp: vote_frame_def SetEvidence_def dest!: slash_frame)

lemma vote_for_canonical_frame:
  assumes "vote_for_canonical F enc cx req fp s = Inr t"
  shows "vote_frame (fsg_block_height req) (fsg_fp_btc_pk req) s t"
proof -
  from assms obtain sig where sig: "fsg_finality_sig req = Some sig" by (auto simp: vote_for_canonical_def split: option.splits)
  let ?s = "SetSig (fsg_block_height req) (fsg_fp_btc_pk req) sig s"
  from assms obtain u where
    u: "(if fp_highest_voted_height fp < ucast (fsg_block_height req)
         then (case UpdateFinalityProvider (fp\<lparr>fp_highest_voted_height := ucast (fsg_block_height req)\<rparr>) (fs_bs ?s) of
                 Inl _ \<Rightarrow> Inl (Errorf ''failed to update the finality provider'') | Inr b \<Rightarrow> Inr (?s\<lparr>fs_bs := b\<rparr>))
         else Inr ?s) = Inr u"
    and t: "t = IndexRefundableMsg F enc req u \<or> (\<exists>e. slashFinalityProvider cx (fsg_fp_btc_pk req) (SetEvidence e u) = Inr t)"
    unfolding vote_for_canonical_def sig option.case Let_def rbind_eq_Inr by (auto split: if_splits sum.splits)
  have "u = ?s \<or> (\<exists>b. u = ?s\<lparr>fs_bs := b\<rparr> \<and> (fps_ok (fs_bs s) \<longrightarrow> fps_ok b))"
    using u by (auto simp: UpdateFinalityProvider_def SetSig_def split: if_splits sum.splits)
  then show ?thesis using t
    by (auto simp: vote_frame_def IndexRefundableMsg_def SetEvidence_def SetSig_def dest!: slash_frame)
qed

lemma AddFinalitySig_frame:
  assumes "AddFinalitySig X F enc cx ep req s = Inr t"
  shows "vote_frame (fsg_block_height req) (fsg_fp_btc_pk req) s t" "GetVotingPower s (fsg_fp_btc_pk req) (fsg_block_height req) \<noteq> 0"
proof -
  show "GetVotingPower s (fsg_fp_btc_pk req) (fsg_block_height req) \<noteq> 0"
    using assms unfolding AddFinalitySig_def rbind_eq_Inr by (auto simp: rbind_eq_Inr split: if_splits)
  have pr: "vote_frame h pk (SetPubRand k h' r s) t \<Longrightarrow> vote_frame h pk s t" for h pk k h' r
    by (simp add: vote_frame_def SetPubRand_def)
  from assms show "vote_frame (fsg_block_height req) (fsg_fp_btc_pk req) s t"
    by (rule AddFinalitySig_Inr) (auto intro!: pr dest: vote_for_fork_frame vote_for_canonical_frame split: if_splits)
qed

lemma power_at_more:
  "(\<And>pk. P pk \<Longrightarrow> Q pk) \<Longrightarrow> fs_power t = fs_power s \<Longrightarrow> power_at s h P \<le> power_at t h Q"
  using power_at_mono [of P Q s h] by (simp add: power_at_def)

lemma vote_chain_ok:
  assumes ok: "chain_ok cur lim s" and f: "vote_frame h pk s t" and power: "GetVotingPower s pk h \<noteq> 0"
  shows "chain_ok cur lim t"
proof (cases "fs_votes t = fs_votes s")
  case True
  then have "same_core s (t\<lparr>fs_pub_rands := fs_pub_rands s, fs_evidences := fs_evidences s\<rparr>)" using f by (simp add: vote_frame_def same_core_def)
  from chain_ok_same [OF this] ok
  have "chain_ok cur lim (t\<lparr>fs_pub_rands := fs_pub_rands s, fs_evidences := fs_evidences s\<rparr>)" by blast
  then show ?thesis
    by (simp add: chain_ok_def tally_ok_def caches_ok_def quorum_ok_def heights_ok_def active_at_def fin_GetParams_def
        GetVotingPowerDistCache_def finalized_heights_def getNextHeightToFinalize_def HasVotingPowerTable_def
        GetBTCStakingActivatedHeight_def HasBlock_def power_at_def)
next
  case False
  then obtain sig where v: "fs_votes t = kv_set (h, pk) sig (fs_votes s)" using f by (auto simp: vote_frame_def)
  note c = ok [unfolded chain_ok_def] and g = f [unfolded vote_frame_def]
  have eq: "finalized_heights t = finalized_heights s" "getNextHeightToFinalize t = getNextHeightToFinalize s"
    "GetBTCStakingActivatedHeight t = GetBTCStakingActivatedHeight s" "HasBlock t = HasBlock s"
    "HasVotingPowerTable t = HasVotingPowerTable s" "active_at t = active_at s" "GetVotingPowerDistCache t = GetVotingPowerDistCache s"
    by (simp_all add: finalized_heights_def getNextHeightToFinalize_def GetBTCStakingActivatedHeight_def HasBlock_def fun_eq_iff
        HasVotingPowerTable_def active_at_def fin_GetParams_def GetVotingPowerDistCache_def g)
  have "kv_has (fs_power s) (h, pk)" using power by (auto simp: GetVotingPower_def kv_has_def split: option.splits)
  then have len: "length pk = BIP340PubKeyLen" using c by (auto simp: kv_has_keys tally_ok_def)
  have vk: "length (snd (fst e)) = BIP340PubKeyLen" if "e \<in> set (fs_votes t)" for e
  proof -
    have "kv_ok (fs_votes t)" using c by (simp add: v)
    with that have "kv_has (fs_votes t) (fst e)" by (simp add: kv_has_keys)
    then have "fst e = (h, pk) \<or> fst e \<in> fst ` set (fs_votes s)" using c by (simp add: v kv_has_keys)
    then show ?thesis using len c by (auto simp: tally_ok_def)
  qed
  have "fs_blocks t = fs_blocks s" "fs_power t = fs_power s" using g by simp_all
  then have "tally_ok t" using c vk by (simp add: tally_ok_def eq)
  moreover have "quorum_ok t"
    unfolding quorum_ok_def eq
  proof (intro ballI impI)
    fix h' assume h': "h' \<in> finalized_heights s" "3 * power_at t h' (\<lambda>_. True) < 2 ^ 64"
    have "power_at t h' (\<lambda>_. True) = power_at s h' (\<lambda>_. True)" using g by (simp add: power_at_def)
    moreover have "power_at s h' (\<lambda>pk. kv_has (fs_votes s) (h', pk)) \<le> power_at t h' (\<lambda>pk. kv_has (fs_votes t) (h', pk))"
      using g by (intro power_at_more) (simp_all add: v)
    ultimately show "2 * power_at t h' (\<lambda>_. True) < 3 * power_at t h' (\<lambda>pk. kv_has (fs_votes t) (h', pk))"
      using h' c by (fastforce simp: quorum_ok_def)
  qed
  ultimately show ?thesis using c by (simp add: chain_ok_def caches_ok_def heights_ok_def eq g v)
qed

lemma CommitPubRandList_Inr:
  assumes "CommitPubRandList X F cx req s = Inr t"
  obtains c where "SetPubRandCommit (cpr_fp_btc_pk req) c s = Inr t" "commit_ok (pc_start_height c, c)"
    "\<forall>l. GetLastPubRandCommit s (cpr_fp_btc_pk req) = Some l \<longrightarrow> EndHeight l < pc_start_height c"
    "pm_activation_height (fin_GetParams s) \<le> pc_start_height c"
proof -
  let ?c = "\<lparr>pc_start_height = cpr_start_height req, pc_num_pub_rand = cpr_num_pub_rand req,
             pc_commitment = cpr_commitment req, pc_epoch_num = ctx_epoch cx\<rparr>"
  have basic: "cpr_start_height req < cpr_start_height req + cpr_num_pub_rand req"
    and run: "SetPubRandCommit (cpr_fp_btc_pk req) ?c s = Inr t"
    and last: "\<And>l. GetLastPubRandCommit s (cpr_fp_btc_pk req) = Some l \<Longrightarrow> EndHeight l < cpr_start_height req"
    and act: "pm_activation_height (fin_GetParams s) \<le> cpr_start_height req"
    using assms
    by (auto simp: CommitPubRandList_def MsgCommitPubRandList_ValidateBasic_def validateActivationHeight_def rbind_eq_Inr not_le
        not_less Let_def split: sum.splits if_splits error.splits option.splits)
  have "cpr_num_pub_rand req \<noteq> 0" using basic by auto
  then have "0 < cpr_num_pub_rand req" by (simp add: word_gt_0)
  then have "commit_ok (pc_start_height ?c, ?c)" using no_wrap_u64 [OF basic] by (simp add: commit_ok_def)
  then show ?thesis using that [of ?c] run last act by simp
qed

lemma SetPubRandCommit_keeps:
  assumes ok: "pub_rand_ok s" and run: "SetPubRandCommit pk c s = Inr t" and t: "pub_rand_ok t"
  shows "\<exists>i. t = s\<lparr>fs_pub_rand_commits := kv_set (pk, pc_start_height c) c (fs_pub_rand_commits s), fs_pub_rand_idx := i\<rparr>"
    "GetPubRandCommitForHeight s pk' h = Inr c' \<Longrightarrow> GetPubRandCommitForHeight t pk' h = Inr c'"
proof -
  from run show shape: "\<exists>i. t = s\<lparr>fs_pub_rand_commits := kv_set (pk, pc_start_height c) c (fs_pub_rand_commits s), fs_pub_rand_idx := i\<rparr>"
    by (auto simp: SetPubRandCommit_def upsertPubRandCommitIdx_def Let_def split: if_splits)
  have new: "kv_get (fs_pub_rand_commits s) (pk, pc_start_height c) = None"
  proof (rule ccontr)
    assume "kv_get (fs_pub_rand_commits s) (pk, pc_start_height c) \<noteq> None"
    let ?es = "kv_prefix pk (fs_pub_rand_commits s)"
    have es: "kv_ok ?es" using ok by (auto simp: pub_rand_ok_def)
    from \<open>kv_get (fs_pub_rand_commits s) (pk, pc_start_height c) \<noteq> None\<close>
    have mem: "pc_start_height c \<in> fst ` set ?es" by (simp add: kv_has_keys [OF es, symmetric] kv_has_def kv_get_prefix)
    then have idx: "kv_get (fs_pub_rand_idx s) pk = Some (map fst ?es)"
      using ok by (auto simp: pub_rand_ok_def Let_def dest: spec [of _ pk] split: option.splits)
    have "\<not> pc_start_height c \<le> last (map fst ?es)"
      using run idx mem by (auto simp: SetPubRandCommit_def upsertPubRandCommitIdx_def Let_def split: if_splits)
    moreover have "sorted (map fst ?es)" using es by (simp add: kv_ok_def strict_sorted_imp_sorted)
    then have "\<forall>x \<in> set (map fst ?es). x \<le> last (map fst ?es)"
      by (cases "map fst ?es" rule: rev_cases) (auto simp: sorted_append)
    ultimately show False using mem by auto
  qed
  assume "GetPubRandCommitForHeight s pk' h = Inr c'"
  then obtain st where "kv_get (fs_pub_rand_commits s) (pk', st) = Some c'" "IsInRange c' h" using pub_rand_lookup [OF ok] by blast
  moreover from this(1) new have "(pk', st) \<noteq> (pk, pc_start_height c)" by auto
  ultimately show "GetPubRandCommitForHeight t pk' h = Inr c'"
    using shape pub_rand_lookup [OF t] by auto
qed

lemma CommitPubRandList_keeps:
  assumes ok: "fin_ok F cur lim s" and run: "CommitPubRandList X F' cx req s = Inr t"
  shows "fin_ok F cur lim t"
proof -
  let ?pk = "cpr_fp_btc_pk req"
  obtain c where c: "SetPubRandCommit ?pk c s = Inr t" "commit_ok (pc_start_height c, c)"
    "\<forall>l. GetLastPubRandCommit s ?pk = Some l \<longrightarrow> EndHeight l < pc_start_height c"
    "pm_activation_height (fin_GetParams s) \<le> pc_start_height c"
    using run by (rule CommitPubRandList_Inr)
  have s: "pub_rand_ok s" "votes_ok F s" "fps_ok (fs_bs s)" "chain_ok cur lim s" using ok by (simp_all add: fin_ok_def)
  have t: "pub_rand_ok t" using SetPubRandCommit_ok [OF s(1) c(2), of ?pk] c(1,3) by auto
  from SetPubRandCommit_keeps(1) [OF s(1) c(1) t] obtain i where
    eq: "t = s\<lparr>fs_pub_rand_commits := kv_set (?pk, pc_start_height c) c (fs_pub_rand_commits s), fs_pub_rand_idx := i\<rparr>" by blast
  have rev: "revealed_ok F t pk h pr" if "revealed_ok F s pk h pr" for pk h pr
    using that SetPubRandCommit_keeps(2) [OF s(1) c(1) t] unfolding revealed_ok_def by blast
  have "votes_ok F t"
  proof (rule votes_okI)
    show "revealed_ok F t pk h pr" if "kv_get (fs_pub_rands t) (pk, h) = Some pr" for pk h pr
      using that votes_okD(1) [OF s(2)] rev by (simp add: eq)
  qed (use votes_okD(2,3) [OF s(2)] in \<open>simp_all add: eq\<close>)
  moreover have "chain_ok cur lim t"
  proof -
    have "heights_ok cur lim s" using s(4) by (simp add: chain_ok_def)
    then have "heights_ok cur lim t" using c(4) unfolding heights_ok_def
      by (simp add: eq active_at_def fin_GetParams_def getNextHeightToFinalize_def GetBTCStakingActivatedHeight_def HasBlock_def)
    moreover have "tally_ok t = tally_ok s" "quorum_ok t = quorum_ok s" using tally_ok_same [of t s] by (simp_all add: eq)
    ultimately show ?thesis using s(4) by (simp add: chain_ok_def caches_ok_def GetVotingPowerDistCache_def eq)
  qed
  ultimately show ?thesis using s(3) t by (simp add: fin_ok_def eq)
qed

lemma bs_frame: "fin_ok F cur lim s \<Longrightarrow> fps_ok b \<Longrightarrow> fin_ok F cur lim (s\<lparr>fs_bs := b\<rparr>)"
  by (rule fin_ok_same [of s]) (simp_all add: same_core_def)

lemma cos_frame: "fin_ok F cur lim s \<Longrightarrow> fin_ok F cur lim (s\<lparr>fs_cos := c\<rparr>)"
  by (rule fin_ok_same [of s]) (simp_all add: same_core_def fin_ok_def)

lemma fps_ok_same: "bs_fps b = bs_fps b' \<Longrightarrow> fps_ok b = fps_ok b'"
  by (simp add: fps_ok_def)

lemma delegation_fps:
  "AddBTCDelegation X del s = Inr t \<Longrightarrow> bs_fps t = bs_fps s"
  "addCovenantSigsToBTCDelegation X info pk sl ub us ex tip s = Inr t \<Longrightarrow> bs_fps t = bs_fps s"
  "btcUndelegate X cx del u s = Inr t \<Longrightarrow> bs_fps t = bs_fps s"
proof -
  have idx: "bs_fps u = bs_fps s" if "rfold (indexDelegation h k) pks s = Inr u" for h k pks u
    by (rule rfold_invariant [OF that, where P = "\<lambda>x. bs_fps x = bs_fps s"])
      (auto simp: indexDelegation_def setBTCDelegatorDelegationIndex_def Let_def split: sum.splits)
  show "AddBTCDelegation X del s = Inr t \<Longrightarrow> bs_fps t = bs_fps s"
    by (auto simp: AddBTCDelegation_def rbind_eq_Inr dest!: setBTCDelegation_frame(3) idx split: if_splits)
  show "addCovenantSigsToBTCDelegation X info pk sl ub us ex tip s = Inr t \<Longrightarrow> bs_fps t = bs_fps s"
    by (auto simp: addCovenantSigsToBTCDelegation_def Let_def rbind_eq_Inr dest!: setBTCDelegation_frame(3) split: if_splits)
  show "btcUndelegate X cx del u s = Inr t \<Longrightarrow> bs_fps t = bs_fps s"
    by (auto simp: btcUndelegate_def Let_def rbind_eq_Inr dest!: setBTCDelegation_frame(3) split: if_splits option.splits)
qed

lemma resume_keeps:
  assumes ok: "fin_ok F cur cur s" and run: "ResumeFinalityProposal X C cx auth a hexes hh s = Inr t"
    and halted: "halted_at s (ucast hh)" and cx: "ctx_at cx cur"
  shows "fin_ok F cur cur t"
proof -
  have cur: "to_u64 (ctx_height cx) = cur" using cx by (simp add: ctx_at_def to_u64_def)
  have s: "fps_ok (fs_bs s)" "pub_rand_ok s" "votes_ok F s" "chain_ok cur cur s" using ok by (simp_all add: fin_ok_def)
  have run': "HandleResumeFinalityProposal X C cx hexes hh s = Inr t"
    using run by (auto simp: ResumeFinalityProposal_def split: if_splits sum.splits error.splits)
  then have act: "active_at s \<le> ucast hh" by (auto simp: HandleResumeFinalityProposal_def active_at_def split: if_splits)
  let ?H = "{h. (ucast hh :: u64) \<le> h \<and> h \<le> to_u64 (ctx_height cx)}"
  obtain voters :: "(string, unit) store" where
    d: "\<forall>h \<in> ?H. \<exists>dc. GetVotingPowerDistCache s h = Some dc \<and>
       GetVotingPowerDistCache t h = Some (resumed_cache (fold (\<lambda>h. kv_set h ()) hexes []) dc)"
    "\<forall>h. h \<notin> ?H \<longrightarrow> GetVotingPowerDistCache t h = GetVotingPowerDistCache s h"
    and p: "\<forall>h pk. kv_get (fs_power t) (h, pk) = (if h \<in> ?H \<and> MarshalHex pk \<in> set hexes \<and>
         (\<exists>dc. GetVotingPowerDistCache s h = Some dc \<and> pk \<in> di_btc_pk ` set (dc_finality_providers dc))
       then Some 0 else kv_get (fs_power s) (h, pk))"
    "kv_ok (fs_power s) \<longrightarrow> kv_ok (fs_power t)"
    and same: "fs_votes t = fs_votes s \<and> fs_blocks t = fs_blocks s \<and> fs_next_finalize t = fs_next_finalize s \<and> fs_params t = fs_params s"
    "fs_pub_rand_commits t = fs_pub_rand_commits s \<and> fs_pub_rand_idx t = fs_pub_rand_idx s \<and> fs_pub_rands t = fs_pub_rands s \<and>
      fs_evidences t = fs_evidences s \<and> fps_ok (fs_bs t)"
    by (rule resume_run [OF run' s(1)]) (rule that; assumption)
  have caches: "caches_ok t"
    unfolding caches_ok_def
  proof (intro allI impI)
    fix h dc assume dc: "GetVotingPowerDistCache t h = Some dc"
    show "dc_keys_ok dc"
    proof (cases "h \<in> ?H")
      case True
      then obtain dc0 where dc0: "GetVotingPowerDistCache s h = Some dc0" "dc = resumed_cache (fold (\<lambda>h. kv_set h ()) hexes []) dc0"
        using d(1) dc by auto
      have "mset (dc_finality_providers dc) = mset (map (jail_entry (fold (\<lambda>h. kv_set h ()) hexes [])) (dc_finality_providers dc0))"
        unfolding dc0(2) resumed_cache_def ApplyActive_facts(1) by (simp add: NewVotingPowerDistCache_def)
      from mset_eq_setD [OF this] show ?thesis
        using s(4) dc0(1) by (fastforce simp: dc_keys_ok_def jail_entry_def chain_ok_def caches_ok_def)
    next
      case False
      then show ?thesis using d(2) dc s(4) by (simp add: chain_ok_def caches_ok_def)
    qed
  qed
  have "chain_ok cur cur t"
  proof (rule power_change [OF s(4), where lo = "ucast hh"])
    show "kv_ok (fs_power t)" using p(2) s(4) by (simp add: chain_ok_def)
    show "kv_get (fs_power t) (h, pk) = kv_get (fs_power s) (h, pk)" if "h < ucast hh" for h pk
      using p(1) that by auto
    show "kv_has (fs_power t) k" if "kv_has (fs_power s) k" for k
      using p(1) that by (cases k) (simp add: kv_has_def)
    show "length pk = BIP340PubKeyLen \<and> active_at s \<le> h \<and> h \<le> cur" if h: "ucast hh \<le> h" "kv_has (fs_power t) (h, pk)" for h pk
    proof (cases "h \<in> ?H \<and> (\<exists>dc. GetVotingPowerDistCache s h = Some dc \<and> pk \<in> di_btc_pk ` set (dc_finality_providers dc))")
      case True
      then have "length pk = BIP340PubKeyLen" using s(4) by (auto simp: chain_ok_def caches_ok_def dc_keys_ok_def)
      then show ?thesis using True order_trans [OF act h(1)] by (simp add: cur)
    next
      case False
      then have "kv_get (fs_power t) (h, pk) = kv_get (fs_power s) (h, pk)" using p(1) by auto
      then have "kv_has (fs_power s) (h, pk)" using h(2) by (simp add: kv_has_def)
      then show ?thesis by (rule chain_ok_entry [OF s(4)])
    qed
    show "cur \<le> ucast hh \<or> (\<exists>a. GetBTCStakingActivatedHeight s = Inr a \<and> a \<le> ucast hh)"
      using halted by (auto simp: halted_at_def split: sum.splits)
  qed (use halted same caches in \<open>auto simp: halted_at_def\<close>)
  then show ?thesis using same s votes_ok_same(1) [of t s F] votes_ok_same(2) [of t s] by (simp add: fin_ok_def)
qed

lemma fin_msg_ok:
  assumes "fin_msg X C F enc auth cx s t" and ok: "fin_ok F cur cur s" and bind: "merkle_binding F" and cx: "ctx_at cx cur"
  shows "fin_ok F cur cur t"
  using assms(1)
proof cases
  case (vote ep req)
  have s: "fps_ok (fs_bs s)" "pub_rand_ok s" "votes_ok F s" "chain_ok cur cur s" using ok by (simp_all add: fin_ok_def)
  note fr = AddFinalitySig_frame [OF vote]
  have "votes_ok F t" by (rule AddFinalitySig_keeps_votes_ok [OF s(3) bind vote])
  moreover have "chain_ok cur cur t" by (rule vote_chain_ok [OF s(4) fr])
  moreover have "fps_ok (fs_bs t)" "pub_rand_ok t" using fr(1) s(1,2) by (simp_all add: vote_frame_def pub_rand_ok_def)
  ultimately show ?thesis by (simp add: fin_ok_def)
next
  case (commit req)
  with ok show ?thesis by (rule CommitPubRandList_keeps)
next
  case (unjail signer pk)
  then obtain b where "t = s\<lparr>fs_bs := b\<rparr>" "UnjailFinalityProvider_bs cx pk (fs_bs s) = Inr b"
    by (auto simp: UnjailFinalityProvider_def rbind_eq_Inr split: if_splits sum.splits option.splits)
  then show ?thesis using ok bs_frame [OF ok] fp_step_ok [OF fp_step.unjail] by (auto simp: fin_ok_def)
next
  case (params a p)
  then have t: "t = s\<lparr>fs_params := Some p\<rparr>" by (auto simp: fin_UpdateParams_def fin_SetParams_def rbind_eq_Inr split: if_splits sum.splits)
  have act: "active_at t = active_at s" using params(2) by (simp add: active_at_def t fin_GetParams_def)
  have "heights_ok cur cur t = heights_ok cur cur s"
    unfolding heights_ok_def act by (simp add: t getNextHeightToFinalize_def GetBTCStakingActivatedHeight_def HasBlock_def)
  then show ?thesis using ok tally_ok_same [of t s] votes_ok_same(1) [of t s F] votes_ok_same(2) [of t s]
    by (simp add: fin_ok_def chain_ok_def caches_ok_def GetVotingPowerDistCache_def t)
next
  case (resume a hexes hh)
  with ok cx show ?thesis by (blast intro: resume_keeps)
next
  case (provider b)
  then show ?thesis using ok bs_frame [OF ok] fp_step_ok by (auto simp: fin_ok_def)
next
  case (delegate del b)
  then show ?thesis using ok bs_frame [OF ok] fps_ok_same [OF delegation_fps(1)] by (auto simp: fin_ok_def)
next
  case (covenant del pk sl ub us ex tip b)
  then show ?thesis using ok bs_frame [OF ok] fps_ok_same [OF delegation_fps(2)] by (auto simp: fin_ok_def)
next
  case (undelegate del u b)
  then show ?thesis using ok bs_frame [OF ok] fps_ok_same [OF delegation_fps(3)] by (auto simp: fin_ok_def)
next
  case (rollback from_header to_header)
  have "bs_fps (AfterBTCRollBack from_header to_header (fs_bs s)) = bs_fps (fs_bs s)"
    by (simp add: AfterBTCRollBack_def SetLargestBtcReorg_def split: option.splits)
  then show ?thesis using ok bs_frame [OF ok] rollback fps_ok_same [of "AfterBTCRollBack from_header to_header (fs_bs s)" "fs_bs s"]
    by (simp add: fin_ok_def)
next
  case (other_modules c)
  then show ?thesis using ok by (simp add: cos_frame)
qed

text \<open>Blocks stay indexed with their application hash, and finalised blocks stay finalised.\<close>

definition blocks_kept :: "'c fin_state \<Rightarrow> 'c fin_state \<Rightarrow> bool" where
  "blocks_kept s t \<longleftrightarrow> (\<forall>h b. kv_get (fs_blocks s) h = Some b \<longrightarrow>
     (\<exists>b'. kv_get (fs_blocks t) h = Some b' \<and> ib_app_hash b' = ib_app_hash b \<and> (ib_finalized b \<longrightarrow> ib_finalized b')))"

lemma blocks_kept_same: "fs_blocks t = fs_blocks s \<Longrightarrow> blocks_kept s t"
  by (simp add: blocks_kept_def)

lemma blocks_kept_trans: "blocks_kept s t \<Longrightarrow> blocks_kept t u \<Longrightarrow> blocks_kept s u"
  unfolding blocks_kept_def by metis

lemma CommitPubRandList_blocks: "CommitPubRandList X F cx req s = Inr t \<Longrightarrow> fs_blocks t = fs_blocks s"
  by (elim CommitPubRandList_Inr) (auto simp: SetPubRandCommit_def upsertPubRandCommitIdx_def Let_def split: if_splits)

lemma fin_msg_blocks:
  assumes "fin_msg X C F enc auth cx s t" and "fps_ok (fs_bs s)"
  shows "fs_blocks t = fs_blocks s"
  using assms(1)
proof cases
  case (vote ep req)
  from AddFinalitySig_frame(1) [OF this] show ?thesis by (simp add: vote_frame_def)
next
  case (commit req)
  then show ?thesis by (rule CommitPubRandList_blocks)
next
  case (unjail signer pk)
  then show ?thesis by (auto simp: UnjailFinalityProvider_def rbind_eq_Inr split: if_splits sum.splits option.splits)
next
  case (params a p)
  then show ?thesis by (auto simp: fin_UpdateParams_def fin_SetParams_def rbind_eq_Inr split: if_splits sum.splits)
next
  case (resume a hexes hh)
  then have "HandleResumeFinalityProposal X C cx hexes hh s = Inr t"
    by (auto simp: ResumeFinalityProposal_def split: if_splits sum.splits error.splits)
  then obtain voters :: "(string, unit) store" where "fs_votes t = fs_votes s \<and> fs_blocks t = fs_blocks s \<and>
      fs_next_finalize t = fs_next_finalize s \<and> fs_params t = fs_params s"
    by (rule resume_run [OF _ assms(2)]) (rule that; assumption)
  then show ?thesis by simp
qed simp_all

end
