(* ===== verification/Finality_Chain.thy ===== *)
theory Finality_Chain
  imports Finality_System
begin

text \<open>
  The blocks of the finality system: the end blocker and the begin blocker keep the invariant of
  \<open>Finality_System\<close>, so that every reachable state satisfies it; what that means for the tally and
  for finalised blocks.
\<close>

section \<open>The end blocker\<close>

lemma unat_u63: "uint (w :: u64) < 2 ^ 63 \<Longrightarrow> unat w < 2 ^ 63"
proof -
  assume "uint w < 2 ^ 63"
  then have "int (unat w) < int (2 ^ 63)" by (simp only: uint_nat of_nat_power of_nat_numeral)
  then show "unat w < 2 ^ 63" by (simp only: of_nat_less_iff)
qed

lemma finalization_loop_frame:
  "finalization_loop hs s = Inr t \<Longrightarrow> t = s\<lparr>fs_blocks := fs_blocks t, fs_next_finalize := fs_next_finalize t\<rparr>"
proof (induction hs arbitrary: s)
  case (Cons i hs)
  then obtain ib where "finalization_loop hs (finalizeBlock ib s) = Inr t \<or>
      finalization_loop hs (setNextHeightToFinalize (ib_height ib + 1) s) = Inr t \<or> t = s"
    by (auto simp: rbind_eq_Inr split: sum.splits option.splits if_splits)
  then show ?case
  proof (elim disjE)
    assume "finalization_loop hs (finalizeBlock ib s) = Inr t"
    from Cons.IH [OF this] show ?thesis by (simp add: finalizeBlock_def setNextHeightToFinalize_def SetBlock_def)
  next
    assume "finalization_loop hs (setNextHeightToFinalize (ib_height ib + 1) s) = Inr t"
    from Cons.IH [OF this] show ?thesis by (simp add: setNextHeightToFinalize_def)
  qed simp
qed simp

lemma TallyBlocks_frame:
  assumes "TallyBlocks cx m s = Inr t"
  shows "t = s\<lparr>fs_blocks := fs_blocks t, fs_next_finalize := fs_next_finalize t\<rparr>"
proof -
  from assms obtain hs where "finalization_loop hs (if \<not> HasBlock s (to_u64 (ctx_height cx)) then IndexBlock cx s else s) = Inr t"
    by (auto simp: TallyBlocks_def Let_def split: sum.splits)
  from finalization_loop_frame [OF this] show ?thesis by (simp add: IndexBlock_def SetBlock_def split: if_splits)
qed

text \<open>In a state that satisfies the invariant the tally returns and keeps it, with the current block indexed.\<close>

lemma tally_keeps:
  assumes ok: "fin_ok F cur cur s" and cx: "ctx_at cx cur" and act: "GetBTCStakingActivatedHeight s = Inr a"
  shows "\<exists>t. TallyBlocks cx m s = Inr t \<and> fin_ok F cur (cur + 1) t \<and> blocks_kept s t \<and> HasBlock t cur"
proof -
  have s: "fps_ok (fs_bs s)" "pub_rand_ok s" "votes_ok F s" "chain_ok cur cur s" using ok by (simp_all add: fin_ok_def)
  note c = s(4) [unfolded chain_ok_def heights_ok_def]
  have cur: "to_u64 (ctx_height cx) = cur" "0 \<le> ctx_height cx" "ctx_height cx < 2 ^ 63" using cx by (simp_all add: ctx_at_def to_u64_def)
  have lt: "x < cur + 1 \<longleftrightarrow> x \<le> cur" for x
    using cx by (intro less_Suc_u64 unat_u63) (simp add: ctx_at_def)
  have blocks: "HasBlock s h" if "a \<le> h" "getNextHeightToFinalize s \<le> h" "h < to_u64 (ctx_height cx)" for h
    using c act that by (simp add: cur)
  have tok: "tally_ok s" using c by blast
  obtain t where t: "TallyBlocks cx m s = Inr t"
    "fin_abs t = spec_finalize (HasVotingPowerTable s) (takeWhile (tallied s) (tally_range cx m a s)) (fin_abs s)"
    "\<forall>h. map_option ib_app_hash (kv_get (fs_blocks t) h) = map_option ib_app_hash (kv_get (fs_blocks (indexed cx s)) h)"
    "\<forall>h. map_option ib_height (kv_get (fs_blocks t) h) = map_option ib_height (kv_get (fs_blocks (indexed cx s)) h)"
    "fs_power t = fs_power s" "fs_votes t = fs_votes s"
    using TallyBlocks_run [OF tok act blocks, where m = m] by blast
  obtain b n where fr: "t = s\<lparr>fs_blocks := b, fs_next_finalize := n\<rparr>" using TallyBlocks_frame [OF t(1)] by metis
  let ?p = "takeWhile (tallied s) (tally_range cx m a s)"
  have tal: "tally_ok t" by (rule TallyBlocks_keeps_ok [OF tok act cur(2,3) t(2,4,5,6)])
  have fin: "finalized_heights t = finalized_heights s \<union> {h \<in> set ?p. HasVotingPowerTable s h}"
    and nxt: "getNextHeightToFinalize t = (if ?p = [] then getNextHeightToFinalize s else last ?p + 1)"
    using t(2) by (auto simp: fin_abs_def spec_finalize_def)
  have has: "HasBlock t h \<longleftrightarrow> HasBlock s h \<or> h = cur" for h
  proof -
    have "HasBlock t h \<longleftrightarrow> HasBlock (indexed cx s) h"
      using t(4) [rule_format, of h] unfolding HasBlock_def kv_has_def
      by (cases "kv_get (fs_blocks t) h"; cases "kv_get (fs_blocks (indexed cx s)) h") simp_all
    then show ?thesis by (auto simp: indexed_def IndexBlock_def SetBlock_def HasBlock_def cur)
  qed
  have old: "\<exists>b'. kv_get (fs_blocks t) h = Some b' \<and> ib_app_hash b' = ib_app_hash b0" if "kv_get (fs_blocks s) h = Some b0" for h b0
  proof -
    have "kv_get (fs_blocks (indexed cx s)) h = Some b0"
      using that by (auto simp: indexed_def IndexBlock_def SetBlock_def HasBlock_def kv_has_def)
    then show ?thesis using t(3) [rule_format, of h] by (cases "kv_get (fs_blocks t) h") auto
  qed
  have votes: "votes_ok F t"
  proof (rule votes_okI)
    show "revealed_ok F t pk h pr" if "kv_get (fs_pub_rands t) (pk, h) = Some pr" for pk h pr
    proof -
      have "fs_pub_rand_idx t = fs_pub_rand_idx s" "fs_pub_rand_commits t = fs_pub_rand_commits s" by (simp_all add: fr)
      then have "GetPubRandCommitForHeight t = GetPubRandCommitForHeight s" by (intro ext) (simp only: GetPubRandCommitForHeight_def)
      then show ?thesis using that votes_okD(1) [OF s(3)] by (simp add: fr revealed_ok_def)
    qed
    show "\<exists>pr b. kv_get (fs_pub_rands t) (pk, h) = Some pr \<and> kv_get (fs_blocks t) h = Some b \<and> vote_verifies F pk h pr (ib_app_hash b) sig"
      if "kv_get (fs_votes t) (h, pk) = Some sig" for h pk sig
      using votes_okD(2) [OF s(3), of h pk sig] that old [of h] by (fastforce simp: fr)
    show "\<exists>pr b. kv_get (fs_pub_rands t) (pk, h) = Some pr \<and> kv_get (fs_blocks t) h = Some b \<and> evidence_ok F pk h pr b e"
      if "kv_get (fs_evidences t) (pk, h) = Some e" for pk h e
      using votes_okD(3) [OF s(3), of pk h e] that old [of h] by (fastforce simp: fr evidence_ok_def)
  qed
  have quorum: "quorum_ok t"
    unfolding quorum_ok_def fin
  proof (intro ballI impI)
    fix h assume h: "h \<in> finalized_heights s \<union> {h \<in> set ?p. HasVotingPowerTable s h}" "3 * power_at t h (\<lambda>_. True) < 2 ^ 64"
    have pw: "power_at t h P = power_at s h P" for P using t(5) by (rule power_at_same)
    from h(1) consider "h \<in> finalized_heights s" | "tallied s h" "HasVotingPowerTable s h" by (auto dest: set_takeWhileD)
    then show "2 * power_at t h (\<lambda>_. True) < 3 * power_at t h (\<lambda>pk. kv_has (fs_votes t) (h, pk))"
    proof cases
      case 1
      then show ?thesis using c h(2) unfolding quorum_ok_def pw t(6) by blast
    next
      case 2
      then show ?thesis using tallied_power [OF tok, of h] c h(2) unfolding pw t(6) by blast
    qed
  qed
  have "getNextHeightToFinalize t \<le> cur + 1"
  proof (cases "?p = []")
    case True
    then show ?thesis using c lt [of "getNextHeightToFinalize s"] by (simp add: nxt less_imp_le)
  next
    case False
    then have "last ?p \<in> set (tally_range cx m a s)" by (meson last_in_set set_takeWhileD)
    then have "last ?p \<le> cur" by (simp add: tally_range_def set_range_u64 cur)
    moreover have "uint cur < 2 ^ 63" using cx by (simp add: ctx_at_def)
    ultimately have "last ?p + 1 \<le> cur + 1" by (simp add: word_le_def uint_word_ariths)
    then show ?thesis using False by (simp add: nxt)
  qed
  moreover have "HasBlock t h" if "a' \<le> h" "h < cur + 1" "GetBTCStakingActivatedHeight s = Inr a'" for a' h
    using that c lt [of h] has [of h] by (cases "h = cur") auto
  ultimately have "heights_ok cur (cur + 1) t"
    using c by (simp add: heights_ok_def fr active_at_def fin_GetParams_def GetBTCStakingActivatedHeight_def)
  then have "chain_ok cur (cur + 1) t" using c tal quorum by (simp add: chain_ok_def fr caches_ok_def GetVotingPowerDistCache_def)
  then have "fin_ok F cur (cur + 1) t" using s votes by (simp add: fin_ok_def fr pub_rand_ok_def)
  moreover have "blocks_kept s t"
    unfolding blocks_kept_def
  proof (intro allI impI)
    fix h b0 assume b0: "kv_get (fs_blocks s) h = Some b0"
    from old [OF b0] obtain b' where b': "kv_get (fs_blocks t) h = Some b'" "ib_app_hash b' = ib_app_hash b0" by blast
    have "ib_finalized b'" if "ib_finalized b0"
    proof -
      have "h \<in> finalized_heights t" unfolding fin using b0 that by (simp add: finalized_heights_def)
      then show ?thesis using b'(1) by (simp add: finalized_heights_def)
    qed
    with b' show "\<exists>b'. kv_get (fs_blocks t) h = Some b' \<and> ib_app_hash b' = ib_app_hash b0 \<and> (ib_finalized b0 \<longrightarrow> ib_finalized b')" by blast
  qed
  ultimately show ?thesis using t(1) has by blast
qed


text \<open>Liveness only touches the signing information, the bitmap and the state of BTC staking.\<close>

lemma SetMissedBlockBitmapValue_frame:
  assumes "SetMissedBlockBitmapValue B pk i missed s = Inr t"
  shows "\<exists>m. t = s\<lparr>fs_bitmap := m\<rparr>"
proof -
  from assms obtain x where "(case bst_MarshalBinary B x of Inl _ \<Rightarrow> Inl (Errorf ''failed to encode bitmap chunk'')
      | Inr c \<Rightarrow> Inr (SetMissedBlockBitmapChunk pk (i sdiv MissedBlockBitmapChunkSize) c s)) = Inr t"
    unfolding SetMissedBlockBitmapValue_def Let_def rbind_eq_Inr by blast
  then show ?thesis by (cases "bst_MarshalBinary B x") (auto simp: SetMissedBlockBitmapChunk_def)
qed

lemma UpdateSigningInfo_frame:
  assumes "UpdateSigningInfo B pk missed h s = Inr (u, info, t)"
  shows "\<exists>m. t = s\<lparr>fs_bitmap := m\<rparr>"
proof -
  from assms consider i v where "SetMissedBlockBitmapValue B pk i v s = Inr t" | "t = s\<lparr>fs_bitmap := fs_bitmap s\<rparr>"
    by (auto simp: UpdateSigningInfo_def Let_def rbind_eq_Inr split: option.splits if_splits sum.splits)
  then show ?thesis by cases (blast dest: SetMissedBlockBitmapValue_frame)+
qed

lemma provider_liveness_frame:
  assumes "HandleFinalityProviderLiveness B F cx pk missed h s = Inr t"
  shows "same_core s t \<and> (fps_ok (fs_bs s) \<longrightarrow> fps_ok (fs_bs t))"
proof -
  from assms consider "t = s" | u info s1 where "UpdateSigningInfo B pk missed h s = Inr (u, info, s1)"
      "(\<exists>s2 i. jailSluggishFinalityProvider cx pk s1 = Inr s2 \<and> t = set_signing_info pk i (DeleteMissedBlockBitmap pk s2)) \<or>
       t = set_signing_info pk info s1 \<or> t = s1"
    unfolding HandleFinalityProviderLiveness_def Let_def rbind_eq_Inr
    by (fastforce simp: rbind_eq_Inr split: if_splits sum.splits prod.splits)
  then show ?thesis
  proof cases
    case 2
    from UpdateSigningInfo_frame [OF 2(1)] obtain m where s1: "s1 = s\<lparr>fs_bitmap := m\<rparr>" ..
    have "fps_ok b" if "JailFinalityProvider cx pk (fs_bs s) = Inr b" "fps_ok (fs_bs s)" for b
      using that by (meson fp_step.jail fp_step_ok)
    then show ?thesis using 2(2)
      by (auto simp: s1 same_core_def set_signing_info_def DeleteMissedBlockBitmap_def jailSluggishFinalityProvider_def rbind_eq_Inr)
  qed simp
qed

lemma HandleLiveness_frame:
  assumes "HandleLiveness B F cx h s = Inr t"
  shows "same_core s t \<and> (fps_ok (fs_bs s) \<longrightarrow> fps_ok (fs_bs t))"
proof -
  from assms obtain vs :: "(string, unit) store" and es :: "(BIP340PubKey \<times> u64) list" where "rfold (\<lambda>(fpPk, _) t.
      case HandleFinalityProviderLiveness B F cx fpPk (\<not> kv_has vs (MarshalHex fpPk)) h t of
        Inl _ \<Rightarrow> Inl (Panic ''failed to handle liveness of finality provider'') | Inr t' \<Rightarrow> Inr t') es s = Inr t"
    unfolding HandleLiveness_def rbind_eq_Inr by blast
  then show ?thesis
    by (rule rfold_invariant [where P = "\<lambda>t. same_core s t \<and> (fps_ok (fs_bs s) \<longrightarrow> fps_ok (fs_bs t))"])
      (auto split: sum.splits prod.splits dest!: provider_liveness_frame intro: same_core_trans)
qed

text \<open>Rewarding pays through the incentive module and drops the caches of rewarded heights.\<close>

definition drops_caches :: "'c fin_state \<Rightarrow> 'c fin_state \<Rightarrow> bool" where
  "drops_caches s t \<longleftrightarrow> same_core s (t\<lparr>fs_dist_cache := fs_dist_cache s\<rparr>) \<and> fs_bs t = fs_bs s \<and>
     (\<forall>h dc. GetVotingPowerDistCache t h = Some dc \<longrightarrow> GetVotingPowerDistCache s h = Some dc)"

lemma rewarding_loop_frame:
  "rewarding_loop X C hs n s = Inr (n', t) \<Longrightarrow> drops_caches s t"
proof (induction hs arbitrary: n s)
  case (Cons h hs)
  then consider b where "rewarding_loop X C hs n s = Inr (n', t)"
    | i where "rewarding_loop X C hs (h + 1) (RemoveVotingPowerDistCache h (s\<lparr>fs_cos := (fs_cos s)\<lparr>cs_inc := i\<rparr>\<rparr>)) = Inr (n', t)"
    by (auto simp: rewardBTCStaking_def rbind_eq_Inr split: sum.splits option.splits if_splits)
  then show ?case
  proof cases
    case 2
    from Cons.IH [OF this] show ?thesis
      by (simp add: drops_caches_def same_core_def RemoveVotingPowerDistCache_def GetVotingPowerDistCache_def) (metis option.distinct(1))
  qed (rule Cons.IH)
qed (simp add: drops_caches_def same_core_def)

lemma HandleRewarding_frame: "HandleRewarding X C h m s = Inr t \<Longrightarrow> drops_caches s t"
proof -
  assume "HandleRewarding X C h m s = Inr t"
  then obtain hs n n' u where "rewarding_loop X C hs n s = Inr (n', u)" "t = SetNextHeightToReward n' u \<or> t = u"
    unfolding HandleRewarding_def rbind_eq_Inr Let_def by (auto split: if_splits)
  then show ?thesis using rewarding_loop_frame [of X C hs n s n' u]
    by (auto simp: drops_caches_def same_core_def SetNextHeightToReward_def GetVotingPowerDistCache_def)
qed

lemma drops_caches_ok:
  assumes d: "drops_caches s t" and ok: "fin_ok F cur lim s"
  shows "fin_ok F cur lim t"
proof -
  define u where "u = t\<lparr>fs_dist_cache := fs_dist_cache s\<rparr>"
  have eq: "fs_pub_rand_commits t = fs_pub_rand_commits u" "fs_pub_rand_idx t = fs_pub_rand_idx u" "fs_pub_rands t = fs_pub_rands u"
    "fs_evidences t = fs_evidences u" "fs_votes t = fs_votes u" "fs_blocks t = fs_blocks u" "fs_power t = fs_power u"
    "fs_next_finalize t = fs_next_finalize u" "fs_params t = fs_params u" "fs_bs t = fs_bs u" by (simp_all add: u_def)
  have same: "same_core s u" "fs_bs t = fs_bs s" using d unfolding drops_caches_def u_def by blast+
  have "fps_ok (fs_bs s)" using ok by (simp add: fin_ok_def)
  with same have "fps_ok (fs_bs u)" by (simp add: eq)
  with same ok have u: "fin_ok F cur lim u" by (blast intro: fin_ok_same)
  have "caches_ok s" using ok by (simp add: fin_ok_def chain_ok_def)
  then have caches: "caches_ok t" using d unfolding drops_caches_def caches_ok_def by blast
  have "active_at t = active_at u" by (simp add: active_at_def fin_GetParams_def eq)
  then have heights: "heights_ok cur lim t = heights_ok cur lim u"
    by (simp add: heights_ok_def eq tally_ok_same(3-5) [OF eq(5-8)])
  show ?thesis
    using u caches unfolding fin_ok_def chain_ok_def heights tally_ok_same(1,6) [OF eq(5-8)] votes_ok_same [OF eq(1-6)] eq by blast
qed

lemma activated_bounds:
  assumes "chain_ok cur lim s" and "GetBTCStakingActivatedHeight s = Inr a"
  shows "active_at s \<le> a \<and> a \<le> cur"
proof -
  have "kv_ok (fs_power s)" using assms(1) by (simp add: chain_ok_def)
  then obtain pk where "kv_has (fs_power s) (a, pk)" using assms(2) by (subst (asm) activated_iff) auto
  then show ?thesis using chain_ok_entry [OF assms(1)] by blast
qed

lemma EndBlocker_keeps:
  assumes ok: "fin_ok F cur cur s" and cx: "ctx_at cx cur" and run: "EndBlocker X C B F' cx s = Inr t"
  shows "fin_ok F cur (cur + 1) t \<and> blocks_kept s t"
proof (cases "IsFinalityActive cx s")
  case False
  have cur: "to_u64 (ctx_height cx) = cur" using cx by (simp add: ctx_at_def to_u64_def)
  have c: "chain_ok cur cur s" using ok by (simp add: fin_ok_def)
  have no: "GetBTCStakingActivatedHeight s \<noteq> Inr a" for a
  proof
    assume a: "GetBTCStakingActivatedHeight s = Inr a"
    from activated_bounds [OF c a] have "active_at s \<le> cur" by (blast intro: order_trans)
    with a False show False by (simp add: IsFinalityActive_def cur active_at_def not_less split: if_splits)
  qed
  have "cur \<le> cur + 1"
    using less_Suc_u64 [OF unat_u63, of cur cur] cx by (simp add: ctx_at_def)
  with c no have "chain_ok cur (cur + 1) s" by (auto simp: chain_ok_def heights_ok_def intro: order_trans)
  moreover have "t = s" using run False by (simp add: EndBlocker_def)
  ultimately show ?thesis using ok by (simp add: fin_ok_def blocks_kept_same)
next
  case True
  then obtain a where "GetBTCStakingActivatedHeight s = Inr a" by (auto simp: IsFinalityActive_def split: if_splits sum.splits)
  from tally_keeps [OF ok cx this] obtain s1 where
    s1: "TallyBlocks cx MaxFinalizedRewardedBlocksPerEndBlock s = Inr s1" "fin_ok F cur (cur + 1) s1" "blocks_kept s s1" by blast
  let ?h = "wrap64 (ctx_height cx - pm_sig_timeout (fin_GetParams s1))"
  from run True s1(1) consider "t = s1"
    | s2 where "HandleLiveness B F' cx ?h s1 = Inr s2" "HandleRewarding X C ?h MaxFinalizedRewardedBlocksPerEndBlock s2 = Inr t"
    by (auto simp: EndBlocker_def Let_def rbind_eq_Inr split: if_splits)
  then show ?thesis
  proof cases
    case 2
    have "fps_ok (fs_bs s1)" using s1(2) by (simp add: fin_ok_def)
    with HandleLiveness_frame [OF 2(1)] s1(2) have "fin_ok F cur (cur + 1) s2" by (blast intro: fin_ok_same)
    then have "fin_ok F cur (cur + 1) t" by (rule drops_caches_ok [OF HandleRewarding_frame [OF 2(2)]])
    moreover have "same_core s1 s2" "drops_caches s2 t" using HandleLiveness_frame [OF 2(1)] HandleRewarding_frame [OF 2(2)] by blast+
    then have "fs_blocks t = fs_blocks s1" unfolding drops_caches_def same_core_def by simp
    then have "blocks_kept s t" using s1(3) blocks_kept_same blocks_kept_trans by blast
    ultimately show ?thesis by blast
  qed (use s1 in simp)
qed

section \<open>The begin blocker\<close>

text \<open>Processing the events does not load finality providers before the new ones are applied.\<close>

lemma delegation_events_fps:
  "processPowerDistUpdateEventUnbond X d ps = Inr ps' \<Longrightarrow> ps_fps ps' = ps_fps ps"
  "processPowerDistUpdateEventActive X d ps = Inr ps' \<Longrightarrow> ps_fps ps' = ps_fps ps"
proof -
  assume run: "processPowerDistUpdateEventUnbond X d ps = Inr ps'"
  show "ps_fps ps' = ps_fps ps"
    by (rule rfold_invariant [OF run [unfolded processPowerDistUpdateEventUnbond_def], where P = "\<lambda>p. ps_fps p = ps_fps ps"])
      (auto simp: AddUnbondingDelegation_def add_delta_def rbind_eq_Inr)
next
  assume run: "processPowerDistUpdateEventActive X d ps = Inr ps'"
  show "ps_fps ps' = ps_fps ps"
    by (rule rfold_invariant [OF run [unfolded processPowerDistUpdateEventActive_def], where P = "\<lambda>p. ps_fps p = ps_fps ps"])
      (auto simp: AddActiveDelegation_def add_delta_def rbind_eq_Inr)
qed

lemma unbond_if_quorum_fps: "unbond_if_quorum X s d ps = Inr ps' \<Longrightarrow> ps_fps ps' = ps_fps ps"
  by (auto simp: unbond_if_quorum_def delegation_events_fps split: option.splits sum.splits if_splits)

lemma process_power_event_fps: "process_power_event X s ev ps = Inr ps' \<Longrightarrow> ps_fps ps' = ps_fps ps"
  by (cases ev) (auto simp: process_power_event_def processBtcDelUpdate_def set_fp_state_def delegation_events_fps unbond_if_quorum_fps
      split: if_splits sum.splits BTCDelegationStatus.splits)

lemma processed_fps:
  assumes ps1: "rfold (processEventsAtHeight X s) hs (FillByPrevVpDstCache dc NewProcessingState) = Inr ps1"
    and ps2: "processExpiredEvents X s ps1 = Inr ps2"
  shows "ps_fps (processSlashedEvents ps2) = []"
proof -
  have st: "ps_fps (set_fp_state h st ps) = ps_fps ps" for h st ps by (simp add: set_fp_state_def)
  have "ps_fps (fold f xs ps) = ps_fps ps" if "\<And>x p. ps_fps (f x p) = ps_fps p" for f and xs :: "'x list" and ps
    using that by (induction xs arbitrary: ps) simp_all
  note fold = this
  have "ps_fps (FillByPrevVpDstCache dc NewProcessingState) = []"
    unfolding FillByPrevVpDstCache_def by (subst fold) (auto simp: AddStateForFp_def Let_def st NewProcessingState_def)
  then have "ps_fps ps1 = []"
    using ps1 by (elim rfold_invariant [where P = "\<lambda>p. ps_fps p = []"])
      (auto simp: processEventsAtHeight_def elim!: rfold_invariant [where P = "\<lambda>p. ps_fps p = []"] dest!: process_power_event_fps)
  then have "ps_fps ps2 = []"
    using ps2 unfolding processExpiredEvents_def
    by (elim rfold_invariant [where P = "\<lambda>p. ps_fps p = []"]) (auto dest!: unbond_if_quorum_fps split: sum.splits if_splits)
  then show ?thesis unfolding processSlashedEvents_def by (subst fold) (simp_all add: st)
qed

text \<open>The finality providers of the new cache have well-formed keys.\<close>

lemma ChangeDeltaSats_pk: "ChangeDeltaSats d fp = Inr fp' \<Longrightarrow> di_btc_pk fp' = di_btc_pk fp"
  by (auto simp: ChangeDeltaSats_def AddBondedSats_def RemoveBondedSats_def split: if_splits)

lemma from_hex_length: "NewBIP340PubKeyFromHex h = Inr pk \<Longrightarrow> length pk = BIP340PubKeyLen"
  by (auto simp: NewBIP340PubKeyFromHex_def UnmarshalHex_def BIP340PubKey_Unmarshal_def rbind_eq_Inr split: if_splits)

lemma dc_keys_add: "dc_keys_ok (AddFinalityProviderDistInfo fp dc) \<longleftrightarrow> length (di_btc_pk fp) = BIP340PubKeyLen \<and> dc_keys_ok dc"
  by (auto simp: dc_keys_ok_def AddFinalityProviderDistInfo_def)

lemma apply_to_new_keys:
  assumes run: "apply_to_new X s h (dc, ps) = Inr (dc', ps')" and ok: "fps_ok s" "cache_ok s ps" "dc_keys_ok dc"
  shows "dc_keys_ok dc' \<and> cache_ok s ps'"
proof -
  from run obtain fp ps1 where load: "loadFP s h ps = Inr (fp, ps1)" by (auto simp: apply_to_new_def split: sum.splits)
  from loadFP_Inr(3) [OF load ok(2)] obtain pk where pk: "NewBIP340PubKeyFromHex h = Inr pk" "kv_get (bs_fps s) pk = Some fp" by blast
  have len: "length (fp_btc_pk fp) = BIP340PubKeyLen" using fps_ok_get [OF ok(1) pk(2)] from_hex_length [OF pk(1)] by simp
  have "ps' = ps1 \<and> (dc' = dc \<or> (\<exists>fp'. dc' = AddFinalityProviderDistInfo fp' dc \<and> length (di_btc_pk fp') = BIP340PubKeyLen))"
    using run len by (auto simp: apply_to_new_def load rbind_eq_Inr NewFinalityProviderDistInfo_def dest!: ChangeDeltaSats_pk
        split: if_splits sum.splits)
  then show ?thesis using loadFP_Inr(1) [OF load ok(2)] ok(3) by (auto simp: dc_keys_add)
qed

lemma processed_keys:
  assumes run: "ProcessAllPowerDistUpdateEvents X s dc l c = Inr (newDc, ps)" and ok: "fps_ok s" "dc_keys_ok dc"
  shows "dc_keys_ok newDc"
proof -
  from run obtain ps1 ps2 dc1 ps3 where
    ps: "rfold (processEventsAtHeight X s) (range_u32 l c) (FillByPrevVpDstCache dc NewProcessingState) = Inr ps1"
      "processExpiredEvents X s ps1 = Inr ps2"
    and known: "rfold apply_to_known (dc_finality_providers dc) (NewVotingPowerDistCache, processSlashedEvents ps2) = Inr (dc1, ps3)"
    and new: "rfold (apply_to_new X s) (new_fp_hexes ps3) (dc1, ps3) = Inr (newDc, ps)"
    by (auto simp: ProcessAllPowerDistUpdateEvents_def rbind_eq_Inr)
  have "dc_keys_ok (fst (dc1, ps3)) \<and> ps_fps (snd (dc1, ps3)) = []"
  proof (rule rfold_invariant [OF known, where P = "\<lambda>a. dc_keys_ok (fst a) \<and> ps_fps (snd a) = []"])
    show "dc_keys_ok (fst (NewVotingPowerDistCache, processSlashedEvents ps2)) \<and> ps_fps (snd (NewVotingPowerDistCache, processSlashedEvents ps2)) = []"
      using processed_fps [OF ps] by (simp add: dc_keys_ok_def NewVotingPowerDistCache_def)
  next
    fix fp a b assume fp: "fp \<in> set (dc_finality_providers dc)" and a: "dc_keys_ok (fst a) \<and> ps_fps (snd a) = []" "apply_to_known fp a = Inr b"
    have "length (di_btc_pk fp) = BIP340PubKeyLen" using fp ok(2) by (simp add: dc_keys_ok_def)
    then show "dc_keys_ok (fst b) \<and> ps_fps (snd b) = []"
      using a by (cases a) (auto simp: apply_to_known_def Let_def dc_keys_add dest!: ChangeDeltaSats_pk split: if_splits sum.splits)
  qed
  then have "dc_keys_ok dc1" "cache_ok s ps3" by (simp_all add: cache_ok_def kv_get_def)
  then have "dc_keys_ok (fst (dc1, ps3)) \<and> cache_ok s (snd (dc1, ps3))" by simp
  with new have "dc_keys_ok (fst (newDc, ps)) \<and> cache_ok s (snd (newDc, ps))"
    by (rule rfold_invariant [where P = "\<lambda>a. dc_keys_ok (fst a) \<and> cache_ok s (snd a)"]) (use apply_to_new_keys [OF _ ok(1)] in force)
  then show ?thesis by simp
qed

text \<open>The power of the new block: what the active finality providers get, nothing else changes.\<close>

lemma kv_set_fold:
  fixes p :: "('k :: linorder, 'v) store"
  shows "kv_get (fold (\<lambda>x. kv_set (k x) (v x)) xs p) k' = None \<longleftrightarrow> k' \<notin> k ` set xs \<and> kv_get p k' = None"
    "k' \<notin> k ` set xs \<Longrightarrow> kv_get (fold (\<lambda>x. kv_set (k x) (v x)) xs p) k' = kv_get p k'"
    "kv_ok p \<Longrightarrow> kv_ok (fold (\<lambda>x. kv_set (k x) (v x)) xs p)"
  by (induction xs arbitrary: p) (auto split: if_splits)

lemma SetVotingPower_fold:
  "fold (\<lambda>fp. SetVotingPower (k fp) h (v fp)) fps s = s\<lparr>fs_power := fold (\<lambda>fp. kv_set (h, k fp) (v fp)) fps (fs_power s)\<rparr>"
  by (induction fps arbitrary: s) (simp_all add: SetVotingPower_def)

lemma RecordVotingPowerAndCache_shape:
  assumes run: "RecordVotingPowerAndCache cx newDc s = Inr (dc, t)" and keys: "dc_keys_ok newDc"
  obtains active :: "FinalityProviderDistInfo list" where
    "t = s\<lparr>fs_power := fold (\<lambda>fp. kv_set (to_u64 (ctx_height cx), di_btc_pk fp) (di_total_bonded_sat fp)) active (fs_power s),
           fs_dist_cache := kv_set (to_u64 (ctx_height cx)) dc (fs_dist_cache s)\<rparr>"
    "dc_keys_ok dc" "\<forall>fp \<in> set active. length (di_btc_pk fp) = BIP340PubKeyLen \<and> HasTimestampedPubRand cx s (di_btc_pk fp) (to_u64 (ctx_height cx))"
proof -
  let ?h = "to_u64 (ctx_height cx)"
  define lab where "lab = newDc\<lparr>dc_finality_providers :=
    map (\<lambda>fp. fp\<lparr>di_is_timestamped := HasTimestampedPubRand cx s (di_btc_pk fp) ?h\<rparr>) (dc_finality_providers newDc)\<rparr>"
  define m where "m = pm_max_active_fps (fin_GetParams s)"
  have dc: "dc = ApplyActiveFinalityProviders m lab"
    and t: "t = SetVotingPowerDistCache ?h dc (fold (\<lambda>fp. SetVotingPower (di_btc_pk fp) ?h (di_total_bonded_sat fp))
      (take (unat (dc_num_active_fps dc)) (dc_finality_providers dc)) s)"
    using run by (auto simp: RecordVotingPowerAndCache_def fps_upto_def rbind_eq_Inr Let_def lab_def m_def split: if_splits)
  have set: "set (dc_finality_providers dc) = set (dc_finality_providers lab)"
    unfolding dc by (rule mset_eq_setD) (rule ApplyActive_facts(1))
  have lab: "length (di_btc_pk fp) = BIP340PubKeyLen \<and> di_is_timestamped fp = HasTimestampedPubRand cx s (di_btc_pk fp) ?h"
    if "fp \<in> set (dc_finality_providers dc)" for fp
    using that keys unfolding set by (auto simp: lab_def dc_keys_ok_def)
  have "fp \<in> set (dc_finality_providers dc) \<and> di_is_timestamped fp"
    if "fp \<in> set (take (unat (dc_num_active_fps dc)) (dc_finality_providers dc))" for fp
  proof -
    from that have "fp \<in> set (take (unat m) (filter eligible (dc_finality_providers dc)))"
      unfolding dc ApplyActive_facts(3) .
    then have "fp \<in> set (filter eligible (dc_finality_providers dc))" by (rule in_set_takeD)
    then show ?thesis by (auto simp: eligible_def should_be_zeroed_def)
  qed
  then show ?thesis using lab by (intro that [of "take (unat (dc_num_active_fps dc)) (dc_finality_providers dc)"])
      (auto simp: t SetVotingPower_fold SetVotingPowerDistCache_def dc_keys_ok_def)
qed

lemma BTCDelegation_hooks:
  fixes s t :: "'c fin_state"
  assumes "processHooksBTCDelegation X C cx dc (ps, s) = Inr (ps', t)"
  shows "hooks_only s t"
proof -
  have loop: "hooks_only (snd a) (snd b)" if run: "processBtcDelHook X f m ds a = Inr b" and f: "\<And>x y u v w s t. f x y u v w s = Inr t \<Longrightarrow> hooks_only s t"
    for f m ds and a b :: "ProcessingState \<times> 'c fin_state"
    by (rule rfold_invariant [OF run [unfolded processBtcDelHook_def], where P = "\<lambda>b. hooks_only (snd a) (snd b)"])
      (auto simp: rbind_eq_Inr case_Inl_eq_Inr dest!: f intro: hooks_only_trans)
  have inc: "hooks_only s (with_inc g s)" for g and s :: "'c fin_state" by (simp add: with_inc_def hooks_only_cos)
  have act: "hooks_only s t" if "AfterBtcDelegationActivated X C cx x y u v w s = Inr t" for x y u v w and s t :: "'c fin_state"
    using that inc hooks_only_trans with_cos_hooks unfolding AfterBtcDelegationActivated_def by blast
  have unb: "hooks_only s t" if "AfterBtcDelegationUnbonded X C cx x y u v w s = Inr t" for x y u v w and s t :: "'c fin_state"
    using that inc hooks_only_trans with_cos_hooks unfolding AfterBtcDelegationUnbonded_def by blast
  from assms obtain m acc where
    "processBtcDelHook X (AfterBtcDelegationActivated X C cx) m (ps_active_delegations ps) (ps, s) = Inr acc"
    "processBtcDelHook X (AfterBtcDelegationUnbonded X C cx) m (ps_unbonding_delegations (fst acc)) acc = Inr (ps', t)"
    by (auto simp: processHooksBTCDelegation_def rbind_eq_Inr)
  note runs = this
  have "hooks_only s (snd acc)" using loop [OF runs(1)] act by simp
  moreover have "hooks_only (snd acc) t" using loop [OF runs(2)] unb by simp
  ultimately show ?thesis by (rule hooks_only_trans)
qed

lemma ClearPowerDistUpdateEvents_fps: "bs_fps (fold ClearPowerDistUpdateEvents hs b) = bs_fps b"
  by (induction hs arbitrary: b) (simp_all add: ClearPowerDistUpdateEvents_def)

lemma BeginBlocker_shape:
  assumes run: "BeginBlocker X C cx s = Inr t" and ok: "fps_ok (fs_bs s)" "caches_ok s"
  obtains active :: "FinalityProviderDistInfo list" and dc where
    "fs_power t = fold (\<lambda>fp. kv_set (to_u64 (ctx_height cx), di_btc_pk fp) (di_total_bonded_sat fp)) active (fs_power s)"
    "fs_dist_cache t = kv_set (to_u64 (ctx_height cx)) dc (fs_dist_cache s)" "dc_keys_ok dc"
    "\<forall>fp \<in> set active. length (di_btc_pk fp) = BIP340PubKeyLen \<and> HasTimestampedPubRand cx s (di_btc_pk fp) (to_u64 (ctx_height cx))"
    "same_core s (t\<lparr>fs_power := fs_power s, fs_dist_cache := fs_dist_cache s\<rparr>)" "fps_ok (fs_bs t)"
proof -
  define dc0 where "dc0 = (case GetVotingPowerDistCache s (to_u64 (ctx_height cx) - 1) of None \<Rightarrow> NewVotingPowerDistCache | Some dc \<Rightarrow> dc)"
  from run obtain l c newDc0 ps0 newDc s1 ps s2 s3 where
    ev: "ProcessAllPowerDistUpdateEvents X (fs_bs s) dc0 l c = Inr (newDc0, ps0)"
    and rec: "RecordVotingPowerAndCache cx newDc0 s = Inr (newDc, s1)"
    and hooks: "processHooksBTCDelegation X C cx newDc (ps0, s1) = Inr (ps, s2)"
    and states: "HandleFPStateUpdates X C cx (Some ps) dc0 newDc True s2 = Inr s3"
    and t: "t = s3\<lparr>fs_bs := fold ClearPowerDistUpdateEvents (range_u32 l c) (fs_bs s3)\<rparr>"
    unfolding BeginBlocker_def BeginBlocker_fin_def UpdatePowerDist_def rbind_eq_Inr Let_def dc0_def [symmetric]
    by (auto simp: rbind_eq_Inr case_Inl_eq_Inr)
  have "dc_keys_ok dc0" using ok(2) by (auto simp: dc0_def caches_ok_def dc_keys_ok_def NewVotingPowerDistCache_def split: option.splits)
  with ev ok(1) have "dc_keys_ok newDc0" by (blast intro: processed_keys)
  with rec obtain active :: "FinalityProviderDistInfo list" where
    s1: "s1 = s\<lparr>fs_power := fold (\<lambda>fp. kv_set (to_u64 (ctx_height cx), di_btc_pk fp) (di_total_bonded_sat fp)) active (fs_power s),
           fs_dist_cache := kv_set (to_u64 (ctx_height cx)) newDc (fs_dist_cache s)\<rparr>"
    and dc: "dc_keys_ok newDc"
      "\<forall>fp \<in> set active. length (di_btc_pk fp) = BIP340PubKeyLen \<and> HasTimestampedPubRand cx s (di_btc_pk fp) (to_u64 (ctx_height cx))"
    by (rule RecordVotingPowerAndCache_shape)
  have h: "hooks_only s1 s3"
    using BTCDelegation_hooks [OF hooks] HandleFPStateUpdates_hooks [OF states] by (rule hooks_only_trans)
  note f = hooks_only_fields [OF h]
  have "fps_ok (fs_bs t) = fps_ok (fs_bs s)"
    using f by (intro fps_ok_same) (simp add: t ClearPowerDistUpdateEvents_fps s1)
  then show ?thesis using f dc ok(1) by (intro that [of active newDc]) (simp_all add: t s1 same_core_def)
qed

lemma BeginBlocker_keeps:
  assumes ok: "fin_ok F cur (cur + 1) s" and cx: "ctx_at cx (cur + 1)" and cur: "uint cur < 2 ^ 63" and run: "BeginBlocker X C cx s = Inr t"
  shows "fin_ok F (cur + 1) (cur + 1) t \<and> fs_blocks t = fs_blocks s"
proof -
  have h: "to_u64 (ctx_height cx) = cur + 1" using cx by (simp add: ctx_at_def to_u64_def)
  have lt: "x < cur + 1 \<longleftrightarrow> x \<le> cur" for x using cur by (intro less_Suc_u64 unat_u63)
  have s: "fps_ok (fs_bs s)" "pub_rand_ok s" "votes_ok F s" "chain_ok cur (cur + 1) s" "caches_ok s" using ok by (simp_all add: fin_ok_def chain_ok_def)
  obtain active :: "FinalityProviderDistInfo list" and dc where
    p: "fs_power t = fold (\<lambda>fp. kv_set (cur + 1, di_btc_pk fp) (di_total_bonded_sat fp)) active (fs_power s)"
    and d: "fs_dist_cache t = kv_set (cur + 1) dc (fs_dist_cache s)" "dc_keys_ok dc"
    and a: "\<forall>fp \<in> set active. length (di_btc_pk fp) = BIP340PubKeyLen \<and> HasTimestampedPubRand cx s (di_btc_pk fp) (cur + 1)"
    and same: "same_core s (t\<lparr>fs_power := fs_power s, fs_dist_cache := fs_dist_cache s\<rparr>)" and fps: "fps_ok (fs_bs t)"
    using BeginBlocker_shape [OF run s(1,5), unfolded h] by blast
  have start: "active_at s \<le> cur + 1" if "HasTimestampedPubRand cx s pk (cur + 1)" for pk
  proof -
    from that obtain c where "GetPubRandCommitForHeight s pk (cur + 1) = Inr c"
      by (auto simp: HasTimestampedPubRand_def GetTimestampedPubRandCommitForHeight_def rbind_eq_Inr split: sum.splits)
    then obtain st where st: "kv_get (fs_pub_rand_commits s) (pk, st) = Some c" "IsInRange c (cur + 1)" using pub_rand_lookup [OF s(2)] by blast
    then have "active_at s \<le> pc_start_height c" using s(4) unfolding chain_ok_def heights_ok_def by blast
    then show ?thesis using st(2) by (auto simp: IsInRange_def Range_def Let_def intro: order_trans split: prod.splits)
  qed
  have "chain_ok (cur + 1) (cur + 1) t"
  proof (rule power_change [OF s(4), where lo = "cur + 1"])
    show "kv_ok (fs_power t)" using s(4) unfolding p by (intro kv_set_fold(3)) (simp add: chain_ok_def)
    show "kv_get (fs_power t) (h, pk) = kv_get (fs_power s) (h, pk)" if "h < cur + 1" for h pk
      using that unfolding p by (intro kv_set_fold(2)) auto
    show "kv_has (fs_power t) k" if "kv_has (fs_power s) k" for k using that unfolding p by (auto simp: kv_has_def kv_set_fold(1))
    show "length pk = BIP340PubKeyLen \<and> active_at s \<le> h \<and> h \<le> cur + 1" if "cur + 1 \<le> h" "kv_has (fs_power t) (h, pk)" for h pk
    proof (cases "kv_has (fs_power s) (h, pk)")
      case True
      from chain_ok_entry [OF s(4) this] have "h < cur + 1" by (simp add: lt)
      with that(1) show ?thesis by simp
    next
      case False
      with that(2) obtain fp where "fp \<in> set active" "h = cur + 1" "pk = di_btc_pk fp" unfolding p by (auto simp: kv_has_def kv_set_fold(1))
      then show ?thesis using a start by blast
    qed
    show "getNextHeightToFinalize s \<le> cur + 1" using s(4) by (simp add: chain_ok_def heights_ok_def)
    show "cur \<le> cur + 1" using lt [of cur] by simp
    show "cur + 1 \<le> cur + 1 \<or> (\<exists>a. GetBTCStakingActivatedHeight s = Inr a \<and> a \<le> cur + 1)" by simp
    show "caches_ok t" using s(5) d(2) by (auto simp: caches_ok_def GetVotingPowerDistCache_def d(1))
  qed (use same in \<open>simp_all add: same_core_def\<close>)
  then show ?thesis using same s fps votes_ok_same(1) [of t s F] votes_ok_same(2) [of t s] by (simp add: fin_ok_def same_core_def)
qed

section \<open>Steps of the system\<close>

lemma sys_step_ok:
  assumes "sys_step X C B F enc auth S T" and ok: "sys_ok F S" and bind: "merkle_binding F"
  shows "sys_ok F T \<and> blocks_kept (sy_fin S) (sy_fin T)"
  using assms(1)
proof cases
  case (open_block cx t)
  let ?s = "(sy_fin S)\<lparr>fs_bs := BeginBlocker_bs cx (fs_bs (sy_fin S))\<rparr>"
  have f: "fin_ok F (sy_cur S) (sy_cur S + 1) (sy_fin S)" "uint (sy_cur S) < 2 ^ 63"
    using ok open_block by (simp_all add: sys_ok_def)
  have "bs_fps (BeginBlocker_bs cx (fs_bs (sy_fin S))) = bs_fps (fs_bs (sy_fin S))"
    by (simp add: BeginBlocker_bs_def IndexBTCHeight_def split: option.splits)
  then have "fin_ok F (sy_cur S) (sy_cur S + 1) ?s"
    using f(1) by (intro bs_frame) (simp_all add: fin_ok_def fps_ok_def)
  from BeginBlocker_keeps [OF this open_block(3) f(2) open_block(4) [unfolded begin_blockers_def]] show ?thesis
    using open_block(1,3) by (simp add: sys_ok_def ctx_at_def blocks_kept_same)
next
  case (deliver cx t)
  have f: "fin_ok F (sy_cur S) (sy_cur S) (sy_fin S)" using ok deliver by (simp add: sys_ok_def)
  have "fps_ok (fs_bs (sy_fin S))" using f by (simp add: fin_ok_def)
  from fin_msg_ok [OF deliver(4) f bind deliver(3)] fin_msg_blocks [OF deliver(4) this] show ?thesis
    using ok deliver(1,2) by (simp add: sys_ok_def blocks_kept_same)
next
  case (close_block cx t)
  have f: "fin_ok F (sy_cur S) (sy_cur S) (sy_fin S)" using ok close_block by (simp add: sys_ok_def)
  obtain u where u: "EndBlocker X C B F cx (sy_fin S) = Inr u" "t = u\<lparr>fs_cos := cos_EndBlock (fs_cos u)\<rparr>"
    using close_block(4) by (auto simp: end_blockers_def rbind_eq_Inr)
  from EndBlocker_keeps [OF f close_block(3) u(1)] show ?thesis
    using ok close_block(1) cos_frame [of F "sy_cur S" "sy_cur S + 1" u] by (auto simp: sys_ok_def u(2) blocks_kept_def)
qed

lemma sys_init_ok: "sys_init S \<Longrightarrow> sys_ok F S"
  by (auto simp: sys_init_def sys_ok_def fin_ok_def pub_rand_ok_def votes_ok_def chain_ok_def tally_ok_def caches_ok_def quorum_ok_def
      heights_ok_def fin_empty_def finalized_heights_def GetVotingPowerDistCache_def GetBTCStakingActivatedHeight_def kv_first_def
      getNextHeightToFinalize_def kv_has_def kv_prefix_def)

lemma sys_steps_ok:
  assumes "(sys_step X C B F enc auth)\<^sup>*\<^sup>* S T" and "sys_ok F S" and "merkle_binding F"
  shows "sys_ok F T \<and> blocks_kept (sy_fin S) (sy_fin T)"
  using assms(1)
proof induction
  case base
  show ?case using assms(2) by (simp add: blocks_kept_same)
next
  case (step T U)
  then show ?case using sys_step_ok [OF step.hyps(2) _ assms(3)] blocks_kept_trans by blast
qed

end
