(* ===== verification/Finality_Run.thy ===== *)
theory Finality_Run
  imports Finality_Chain
begin

text \<open>
  A run of the finality system on concrete data, from genesis to a finalised block: the states that the
  properties of the whole system are applied to.
\<close>

section \<open>An example run\<close>

text \<open>The finality provider with the secret key 3 holds the only delegation.  It commits its randomness for
  height 2 in the first block, has power in the second, and votes in the third.\<close>

definition ex_genesis :: "int fin_state" where
  "ex_genesis = fin_empty\<lparr>
     fs_bs := bs_empty\<lparr>bs_fps := [(ending_in 3, example_fp (ending_in 3))], bs_dels := [([0xab], power_del)],
       bs_events := [((10, 0), BtcDelStateUpdate ''ab'' ACTIVE)]\<rparr>,
     fs_cos := cos_empty\<lparr>cs_params := Some \<lparr>cp_costaking_portion = Some 0, cp_score_ratio = Some 1, cp_validators_portion = Some 0\<rparr>\<rparr>,
     fs_params := Some \<lparr>pm_max_active_fps = 5, pm_sig_timeout = 3, pm_signed_blocks_window = 100,
       pm_min_signed_per_window = Some (5 * 10 ^ 17), pm_min_pub_rand = 1, pm_jail_duration = 86400, pm_activation_height = 2\<rparr>\<rparr>"

definition ex_cx :: "i64 \<Rightarrow> ctx" where
  "ex_cx h = example_ctx\<lparr>ctx_height := h, ctx_app_hash := ending_in 0, ctx_btc_tip := Some \<lparr>bhi_hash = [], bhi_height = 10\<rparr>,
     ctx_btc_base := \<lparr>bhi_hash = [], bhi_height = 9\<rparr>, ctx_epoch := 1\<rparr>"

definition ex_commit :: MsgCommitPubRandList where
  "ex_commit = \<lparr>cpr_signer = ''a'', cpr_fp_btc_pk = ending_in 3, cpr_start_height = 2,
     cpr_num_pub_rand = 1, cpr_commitment = ending_in 2, cpr_sig = Some []\<rparr>"

definition ex_vote :: MsgAddFinalitySig where
  "ex_vote = fork_vote\<lparr>fsg_block_height := 2, fsg_block_app_hash := ending_in 0, fsg_finality_sig := Some (ending_in 2)\<rparr>"

definition ex_begin :: "i64 \<Rightarrow> int fin_state \<Rightarrow> int fin_state res" where
  "ex_begin h = begin_blockers ext_accepting int_coins (ex_cx h)"

definition ex_end :: "i64 \<Rightarrow> int fin_state \<Rightarrow> int fin_state res" where
  "ex_end h = end_blockers ext_accepting int_coins list_bitset voting_ext (ex_cx h)"

definition ex_run :: "int fin_state res" where
  "ex_run =
     rbind (ex_begin 1 ex_genesis) (\<lambda>s1.
     rbind (CommitPubRandList ext_accepting voting_ext (ex_cx 1) ex_commit s1) (\<lambda>s2.
     rbind (ex_end 1 s2) (\<lambda>s3.
     rbind (ex_begin 2 s3) (\<lambda>s4.
     rbind (ex_end 2 s4) (\<lambda>s5.
     rbind (ex_begin 3 s5) (\<lambda>s6.
     rbind (AddFinalitySig ext_accepting voting_ext (\<lambda>_. []) (ex_cx 3) voting_epochs ex_vote s6) (\<lambda>s7.
       ex_end 3 s7)))))))"

definition ex_final :: "int fin_state \<Rightarrow> bool" where
  "ex_final t \<longleftrightarrow> kv_get (fs_blocks t) 2 = Some \<lparr>ib_height = 2, ib_app_hash = ending_in 0, ib_finalized = True\<rparr> \<and>
     fs_power t = [((2, ending_in 3), 70)] \<and> fs_votes t = [((2, ending_in 3), ending_in 2)] \<and>
     fs_pub_rands t = [((ending_in 3, 2), ending_in 2)] \<and> \<not> isl (ex_begin 4 t) \<and> getNextHeightToFinalize t = 4 \<and> \<not> HasBlock t 4 \<and>
     IsFinalityActive (ex_cx 3) t \<and> GetBTCStakingActivatedHeight t = Inr 2"

lemma ex_runs: "case ex_run of Inl _ \<Rightarrow> False | Inr t \<Rightarrow> ex_final t"
  by code_simp

text \<open>The run as steps of the system.\<close>

definition ex_sys :: "u64 \<Rightarrow> bool \<Rightarrow> int fin_state \<Rightarrow> int sys" where
  "ex_sys h b s = \<lparr>sy_cur = h, sy_open = b, sy_fin = s\<rparr>"

abbreviation ex_step :: "int sys \<Rightarrow> int sys \<Rightarrow> bool" where
  "ex_step \<equiv> sys_step ext_accepting int_coins list_bitset voting_ext (\<lambda>_. []) ''gov''"

lemma ex_init: "sys_init (ex_sys 0 False ex_genesis)"
proof -
  have "fps_ok (fs_bs ex_genesis)" by (simp add: ex_genesis_def fps_ok_def kv_ok_def example_fp_def)
  moreover have "\<exists>b c p si bm rf. ex_genesis = fin_empty\<lparr>fs_bs := b, fs_cos := c, fs_params := p, fs_signing_infos := si,
        fs_bitmap := bm, fs_refundable := rf\<rparr>"
    unfolding ex_genesis_def
    by (intro exI [of _ "fs_bs ex_genesis"] exI [of _ "fs_cos ex_genesis"] exI [of _ "fs_params ex_genesis"] exI [of _ "[]"])
      (simp add: ex_genesis_def fin_empty_def)
  ultimately show ?thesis by (simp add: sys_init_def ex_sys_def)
qed

lemma ex_at: "0 \<le> h \<Longrightarrow> h < 2 ^ 63 \<Longrightarrow> ctx_at (ex_cx h) (of_int h)"
  by (simp add: ctx_at_def ex_cx_def uint_word_of_int)

lemma ex_open: "ex_begin (uint h + 1) s = Inr t \<Longrightarrow> uint h + 1 < 2 ^ 63 \<Longrightarrow> ex_step (ex_sys h False s) (ex_sys (h + 1) True t)"
  using sys_step.open_block [where S = "ex_sys h False s" and cx = "ex_cx (uint h + 1)" and t = t] ex_at [of "uint h + 1"]
  by (simp add: ex_sys_def ex_begin_def)

lemma ex_close: "ex_end (uint h) s = Inr t \<Longrightarrow> uint h < 2 ^ 63 \<Longrightarrow> ex_step (ex_sys h True s) (ex_sys h False t)"
  using sys_step.close_block [where S = "ex_sys h True s" and cx = "ex_cx (uint h)" and t = t] ex_at [of "uint h"]
  by (simp add: ex_sys_def ex_end_def)

lemma ex_deliver:
  "fin_msg ext_accepting int_coins voting_ext (\<lambda>_. []) ''gov'' (ex_cx (uint h)) s t \<Longrightarrow> uint h < 2 ^ 63 \<Longrightarrow>
    ex_step (ex_sys h True s) (ex_sys h True t)"
  using sys_step.deliver [where S = "ex_sys h True s" and cx = "ex_cx (uint h)" and t = t] ex_at [of "uint h"]
  by (simp add: ex_sys_def)

lemma ex_reach:
  obtains s7 s8 s9 where "ex_step\<^sup>*\<^sup>* (ex_sys 0 False ex_genesis) (ex_sys 3 True s7)" "ex_step (ex_sys 3 True s7) (ex_sys 3 False s8)"
    "ex_step (ex_sys 3 False s8) (ex_sys 4 True s9)" "ex_final s8" "ex_end 3 s7 = Inr s8" "ex_begin 4 s8 = Inr s9"
proof -
  obtain s8 where "ex_run = Inr s8" and fin: "ex_final s8" using ex_runs by (auto split: sum.splits)
  then obtain s1 s2 s3 s4 s5 s6 s7 where
    run: "ex_begin 1 ex_genesis = Inr s1" "CommitPubRandList ext_accepting voting_ext (ex_cx 1) ex_commit s1 = Inr s2"
      "ex_end 1 s2 = Inr s3" "ex_begin 2 s3 = Inr s4" "ex_end 2 s4 = Inr s5" "ex_begin 3 s5 = Inr s6"
      "AddFinalitySig ext_accepting voting_ext (\<lambda>_. []) (ex_cx 3) voting_epochs ex_vote s6 = Inr s7" "ex_end 3 s7 = Inr s8"
    unfolding ex_run_def rbind_eq_Inr by blast
  obtain s9 where s9: "ex_begin 4 s8 = Inr s9" using fin by (cases "ex_begin 4 s8") (auto simp: ex_final_def)
  have "ex_step (ex_sys 0 False ex_genesis) (ex_sys 1 True s1)" using ex_open [of 0 ex_genesis s1] run(1) by simp
  moreover have "ex_step (ex_sys 1 True s1) (ex_sys 1 True s2)" using ex_deliver [of 1 s1 s2] fin_msg.commit [OF run(2)] by simp
  moreover have "ex_step (ex_sys 1 True s2) (ex_sys 1 False s3)" using ex_close [of 1 s2 s3] run(3) by simp
  moreover have "ex_step (ex_sys 1 False s3) (ex_sys 2 True s4)" using ex_open [of 1 s3 s4] run(4) by simp
  moreover have "ex_step (ex_sys 2 True s4) (ex_sys 2 False s5)" using ex_close [of 2 s4 s5] run(5) by simp
  moreover have "ex_step (ex_sys 2 False s5) (ex_sys 3 True s6)" using ex_open [of 2 s5 s6] run(6) by simp
  moreover have "ex_step (ex_sys 3 True s6) (ex_sys 3 True s7)" using ex_deliver [of 3 s6 s7] fin_msg.vote [OF run(7)] by simp
  ultimately have "ex_step\<^sup>*\<^sup>* (ex_sys 0 False ex_genesis) (ex_sys 3 True s7)" by (meson converse_rtranclp_into_rtranclp rtranclp.rtrancl_refl)
  moreover have "ex_step (ex_sys 3 True s7) (ex_sys 3 False s8)" using ex_close [of 3 s7 s8] run(8) by simp
  moreover have "ex_step (ex_sys 3 False s8) (ex_sys 4 True s9)" using ex_open [of 3 s8 s9] s9 by simp
  ultimately show ?thesis using fin run(8) s9 by (rule that)
qed

lemma ex_active: "ex_final s8 \<Longrightarrow> ex_end 3 s7 = Inr s8 \<Longrightarrow> IsFinalityActive (ex_cx 3) s7"
  by (rule ccontr) (auto simp: ex_final_def ex_end_def end_blockers_def EndBlocker_def rbind_eq_Inr IsFinalityActive_def fin_GetParams_def
      GetBTCStakingActivatedHeight_def split: if_splits)

end
