(* ===== verification/Adaptor.thy ===== *)
theory Adaptor
  imports Eots
begin

text \<open>
  Schnorr adaptor signatures (\<open>crypto/schnorr-adaptor-signature\<close>), with which covenant members
  sign slashing transactions: a signature encrypted under the point of a finality provider's key,
  which becomes a valid BIP-340 signature once that key is known.  BIP-340 verification is the
  function \<open>verifyHash\<close> of \<open>Eots\<close>, applied to the message hash.

  Points of the model are affine.  The key constructors negate the scalar they are given in place;
  the model returns that scalar as well.
\<close>

record 'p AdaptorSignature =
  as_R0 :: 'p
  as_s :: int

section \<open>Keys\<close>

definition NewDecryptionKeyFromModNScalar :: "'p curve \<Rightarrow> int res \<Rightarrow> int \<Rightarrow> int res \<times> int" where
  "NewDecryptionKeyFromModNScalar E blind scalar =
     (if scalar = 0 then (Inl (Errorf ''the given scalar is zero''), scalar)
      else case ScalarBaseMultWithBlinding E blind scalar of
             Inl err \<Rightarrow> (Inl err, scalar)
           | Inr ekPoint \<Rightarrow>
               let scalar' = (if pt_YOdd E ekPoint then sc_Negate E scalar else scalar)
               in (Inr scalar', scalar'))"

definition NewDecryptionKeyFromBTCSK :: "'p curve \<Rightarrow> int res \<Rightarrow> int \<Rightarrow> int res \<times> int" where
  "NewDecryptionKeyFromBTCSK E blind btcSK = NewDecryptionKeyFromModNScalar E blind btcSK"

definition NewDecryptionKeyFromBytes :: "'p curve \<Rightarrow> int res \<Rightarrow> bytes \<Rightarrow> int res" where
  "NewDecryptionKeyFromBytes E blind decKeyBytes =
     (if length decKeyBytes \<noteq> 32
      then Inl (Errorf ''the length of the given bytes for decryption key is incorrect'')
      else fst (NewDecryptionKeyFromModNScalar E blind (fst (sc_SetBytes E decKeyBytes))))"

definition GetEncKey :: "'p curve \<Rightarrow> int res \<Rightarrow> int \<Rightarrow> 'p res" where
  "GetEncKey E blind dk = ScalarBaseMultWithBlinding E blind dk"

definition NewEncryptionKeyFromJacobianPoint :: "'p curve \<Rightarrow> 'p \<Rightarrow> 'p res" where
  "NewEncryptionKeyFromJacobianPoint E point =
     (if pt_IsInfinity E point then Inl (Errorf ''the given Jacobian point is at infinity'')
      else Inr (if pt_YOdd E point then pt_Negate E point else point))"

definition NewEncryptionKeyFromBTCPK :: "'p curve \<Rightarrow> 'p \<Rightarrow> 'p res" where
  "NewEncryptionKeyFromBTCPK E btcPK = NewEncryptionKeyFromJacobianPoint E btcPK"

definition NewEncryptionKeyFromBytes :: "'p curve \<Rightarrow> bytes \<Rightarrow> 'p res" where
  "NewEncryptionKeyFromBytes E encKeyBytes =
     (if length encKeyBytes \<noteq> 33
      then Inl (Errorf ''the length of the given bytes for encryption key is incorrect'')
      else case pt_ParseJacobian E encKeyBytes of
             Inl _ \<Rightarrow> Inl (Errorf ''failed to parse encryption key bytes'')
           | Inr p \<Rightarrow> NewEncryptionKeyFromJacobianPoint E p)"

section \<open>Signing, verifying, decrypting, extracting\<close>

definition adaptor_challenge :: "'p curve \<Rightarrow> bytes \<Rightarrow> bytes \<Rightarrow> bytes \<Rightarrow> int" where
  "adaptor_challenge E r0Bytes pBytes m =
     fst (sc_SetBytes E (tagged_hash E ''BIP0340/challenge'' (r0Bytes @ pBytes @ m)))"

definition encVerify :: "'p curve \<Rightarrow> 'p AdaptorSignature \<Rightarrow> bytes \<Rightarrow> bytes \<Rightarrow> 'p \<Rightarrow> unit res" where
  "encVerify E adaptorSig m pubKeyBytes t =
     (if length m \<noteq> 32 then Inl (Errorf ''wrong size for message'')
      else if length pubKeyBytes \<noteq> 32 then Inl (Errorf ''wrong size for public key'')
      else
        rbind (pt_Parse E pubKeyBytes) (\<lambda>P.
        let s = as_s adaptorSig; R0 = as_R0 adaptorSig
        in if s = 0 then Inl (Errorf ''s value is zero'')
           else if pt_IsInfinity E R0 then Inl (Errorf ''R0 point is at infinity'')
           else
             let e = adaptor_challenge E (pt_X E R0) pubKeyBytes m;
                 R = pt_Add E (pt_BaseMult E s) (pt_Mult E (sc_Negate E e) P)
             in if pt_IsInfinity E R then Inl (Errorf ''R point is at infinity'')
                else
                  let T = (if \<not> pt_YOdd E R0 then pt_Add E R0 (pt_Negate E R) else pt_Add E R0 R)
                  in if pt_IsInfinity E T then Inl (Errorf ''T point is at infinity'')
                     else if T \<noteq> t then Inl (Errorf ''extracted encryption key does not match'')
                     else Inr ()))"

definition EncVerify :: "'p curve \<Rightarrow> 'p AdaptorSignature \<Rightarrow> 'p \<Rightarrow> 'p \<Rightarrow> bytes \<Rightarrow> unit res" where
  "EncVerify E sig pk encKey msgHash = encVerify E sig msgHash (pt_X E pk) encKey"

definition encSign ::
  "'p curve \<Rightarrow> int res \<Rightarrow> int \<Rightarrow> int \<Rightarrow> 'p \<Rightarrow> bytes \<Rightarrow> 'p \<Rightarrow> 'p AdaptorSignature res" where
  "encSign E blind privKey nonce pubKey m t =
     (case ScalarBaseMultWithBlinding E blind nonce of
        Inl _ \<Rightarrow> Inl (Errorf ''failed to compute kG'')
      | Inr R \<Rightarrow>
          let R0 = pt_Add E R t
          in if pt_IsInfinity E R0 then Inl (Errorf ''R0 point is at infinity'')
             else
               let k = (if pt_YOdd E R0 then sc_Negate E nonce else nonce);
                   pBytes = pt_X E pubKey;
                   e = adaptor_challenge E (pt_X E R0) pBytes m;
                   s = sc_Add E (sc_Mul E e privKey) k;
                   adaptorSig = \<lparr>as_R0 = R0, as_s = s\<rparr>
               in (case encVerify E adaptorSig m pBytes t of
                     Inl _ \<Rightarrow> Inl (Errorf ''verification of generated signature failed'')
                   | Inr _ \<Rightarrow> Inr adaptorSig))"

text \<open>The random bytes of the nonce: \<open>auxRand\<close> is fresh randomness of the caller.\<close>

definition genRandForNonce :: "'p curve \<Rightarrow> bytes \<Rightarrow> bytes \<Rightarrow> bytes \<Rightarrow> bytes \<Rightarrow> bytes \<Rightarrow> bytes" where
  "genRandForNonce E skBytes auxRand encKeyBytes pkBytes msgHash =
     (let auxHash = tagged_hash E ''SchnorrAdaptor/aux'' auxRand;
          t = map2 xor skBytes auxHash
      in tagged_hash E ''SchnorrAdaptor/nonce'' (t @ encKeyBytes @ pkBytes @ msgHash))"

definition compressed :: "'p curve \<Rightarrow> 'p \<Rightarrow> bytes" where
  "compressed E p = (if pt_YOdd E p then 3 else 2) # pt_X E p"

definition EncSignWithAuxData ::
  "'p curve \<Rightarrow> int res \<Rightarrow> int res \<Rightarrow> int \<Rightarrow> 'p \<Rightarrow> bytes \<Rightarrow> bytes \<Rightarrow> 'p AdaptorSignature res" where
  "EncSignWithAuxData E blind1 blind2 sk encKey msgHash auxData =
     (if length msgHash \<noteq> 32 then Inl (Errorf ''wrong size for message hash'')
      else if length auxData \<noteq> 32 then Inl (Errorf ''wrong size for auxiliary data'')
      else if sk = 0 then Inl (Errorf ''private key is zero'')
      else
        rbind (ScalarBaseMultWithBlinding E blind1 sk) (\<lambda>Pp.
        let skScalar = (if pt_YOdd E Pp then sc_Negate E sk else sk);
            randForNonce = genRandForNonce E (sc_Bytes E skScalar) auxData (compressed E encKey)
                             (compressed E Pp) msgHash;
            nonce = fst (sc_SetBytes E randForNonce)
        in if nonce = 0 then Inl (Errorf ''nonce is zero'')
           else encSign E blind2 skScalar nonce Pp msgHash encKey))"

definition decrypt :: "'p curve \<Rightarrow> 'p AdaptorSignature \<Rightarrow> int \<Rightarrow> (bytes \<times> int) res" where
  "decrypt E psig dk =
     (if as_s psig = 0 \<or> dk = 0 then Inl (Errorf ''s0 or decryption key is zero'')
      else Inr (pt_X E (as_R0 psig),
                if \<not> pt_YOdd E (as_R0 psig) then sc_Add E (as_s psig) dk
                else sc_Add E (as_s psig) (sc_Negate E dk)))"

definition adaptor_extract :: "'p curve \<Rightarrow> 'p AdaptorSignature \<Rightarrow> bytes \<times> int \<Rightarrow> int res" where
  "adaptor_extract E psig sig =
     (let (s, overflow) = sc_SetBytes E (sc_Bytes E (snd sig))
      in if overflow then Inl (Errorf ''s value in signature is invalid'')
         else if as_s psig = 0 \<or> s = 0 then Inl (Errorf ''s values must be non-zero'')
         else Inr (if \<not> pt_YOdd E (as_R0 psig) then sc_Add E s (sc_Negate E (as_s psig))
                   else sc_Add E (as_s psig) (sc_Negate E s)))"

section \<open>Bytes\<close>

definition AdaptorSignature_Marshal :: "'p curve \<Rightarrow> 'p AdaptorSignature \<Rightarrow> bytes" where
  "AdaptorSignature_Marshal E a = compressed E (as_R0 a) @ sc_Bytes E (as_s a)"

definition convertOldFormatToNewFormat :: "bytes \<Rightarrow> bytes res" where
  "convertOldFormatToNewFormat oldSigBytes =
     (if oldSigBytes ! 0 \<noteq> 2 then Inl (Errorf ''invalid point (must be even)'')
      else if oldSigBytes ! 65 = 0 then Inr (2 # take 64 (drop 1 oldSigBytes))
      else if oldSigBytes ! 65 = 1 then Inr (3 # take 64 (drop 1 oldSigBytes))
      else Inl (Errorf ''invalid needsNegation byte''))"

definition NewAdaptorSignatureFromBytes :: "'p curve \<Rightarrow> bytes \<Rightarrow> 'p AdaptorSignature res" where
  "NewAdaptorSignatureFromBytes E rawBytes =
     rbind (if length rawBytes = 66
            then (case convertOldFormatToNewFormat rawBytes of
                    Inl _ \<Rightarrow> Inl (Errorf ''failed to convert old format to new format'')
                  | Inr b \<Rightarrow> Inr b)
            else if length rawBytes = 65 then Inr rawBytes
            else Inl (Errorf ''the length of the given bytes for adaptor signature is incorrect'')) (\<lambda>asigBytes.
     (case pt_ParseJacobian E (take 33 asigBytes) of
        Inl _ \<Rightarrow> Inl (Errorf ''failed to parse R0'')
      | Inr r0 \<Rightarrow>
          let (s, overflow) = sc_SetBytes E (take 32 (drop 33 asigBytes))
          in if overflow then Inl (Errorf ''s value is invalid'')
             else Inr \<lparr>as_R0 = r0, as_s = s\<rparr>))"

section \<open>Correctness\<close>

text \<open>A verified adaptor signature in terms of scalars.  \<open>q\<close> is the scalar of its point.\<close>

lemma encVerify_Inr:
  assumes laws: "curve_laws E n" and d: "d mod n \<noteq> 0"
    and R0: "as_R0 sig = pt_BaseMult E q" and t: "T = pt_BaseMult E t"
    and v: "encVerify E sig m (pt_X E (pt_BaseMult E d)) T = Inr u"
  shows "q mod n \<noteq> 0" and "as_s sig \<noteq> 0"
    and "t mod n = (if pt_YOdd E (pt_BaseMult E q)
           then q + (as_s sig - adaptor_challenge E (pt_X E (pt_BaseMult E q)) (pt_X E (pt_BaseMult E d)) m * even_scalar E d)
           else q - (as_s sig - adaptor_challenge E (pt_X E (pt_BaseMult E q)) (pt_X E (pt_BaseMult E d)) m * even_scalar E d)) mod n"
proof -
  let ?e = "adaptor_challenge E (pt_X E (pt_BaseMult E q)) (pt_X E (pt_BaseMult E d)) m"
  let ?x = "even_scalar E d"
  note f = even_scalar_facts [OF laws d]
  have "((- ?e) mod n * ?x + as_s sig) mod n = (as_s sig - ?e * ?x) mod n"
    by (rule neg_mul_mod)
  then have R: "pt_Add E (pt_BaseMult E (as_s sig)) (pt_Mult E (sc_Negate E ?e) (pt_BaseMult E ?x)) =
      pt_BaseMult E (as_s sig - ?e * ?x)"
    by (simp add: curve_lawsD(6,13,14) [OF laws] curve_lawsD(12) [OF laws] add.commute)
  note V = v [unfolded encVerify_def f(2) Let_def R0 R rbind_simps]
  from V show "q mod n \<noteq> 0" and "as_s sig \<noteq> 0"
    by (auto simp: curve_lawsD(16) [OF laws] split: if_splits)
  from V have "(if \<not> pt_YOdd E (pt_BaseMult E q)
      then pt_Add E (pt_BaseMult E q) (pt_Negate E (pt_BaseMult E (as_s sig - ?e * ?x)))
      else pt_Add E (pt_BaseMult E q) (pt_BaseMult E (as_s sig - ?e * ?x))) = T"
    by (simp split: if_splits)
  then show "t mod n = (if pt_YOdd E (pt_BaseMult E q) then q + (as_s sig - ?e * ?x)
      else q - (as_s sig - ?e * ?x)) mod n"
    by (auto simp: t curve_lawsD(13,15) [OF laws] curve_lawsD(12) [OF laws] algebra_simps split: if_splits)
qed

lemma adaptor_challenge_eq:
  "challenge E r p m = Inr e \<Longrightarrow> adaptor_challenge E r p m = e"
  by (auto simp: challenge_def adaptor_challenge_def Let_def split: prod.splits if_splits)

text \<open>C33: decryption.  A verified adaptor signature, decrypted with the scalar of its encryption key,
  is a BIP-340 signature that verifies under the signer's key (the challenge being a scalar).\<close>

theorem decrypt_valid:
  assumes laws: "curve_laws E n"
    and pk: "pk = pt_BaseMult E d" and d: "d mod n \<noteq> 0"
    and R0: "as_R0 sig = pt_BaseMult E q"
    and v: "EncVerify E sig pk (pt_BaseMult E t) m = Inr ()"
    and e: "challenge E (pt_X E (as_R0 sig)) (pt_X E pk) m = Inr e"
    and dec: "decrypt E sig t = Inr (r, s)"
  shows "verifyHash E (pt_X E pk) r m s = Inr ()"
proof -
  let ?x = "even_scalar E d"
  note V = v [unfolded EncVerify_def pk]
  note E = encVerify_Inr [OF laws d R0 refl V]
  have ae: "adaptor_challenge E (pt_X E (pt_BaseMult E q)) (pt_X E (pt_BaseMult E d)) m = e"
    using e by (simp add: R0 pk adaptor_challenge_eq)
  note T = E(3) [unfolded ae]
  from dec have r: "r = pt_X E (pt_BaseMult E q)"
    and s: "s = (if pt_YOdd E (pt_BaseMult E q) then (as_s sig + (- t) mod n) mod n else (as_s sig + t) mod n)"
    by (auto simp: decrypt_def R0 curve_lawsD(4,6) [OF laws] split: if_splits)
  have "verifyHash E (pt_X E (pt_BaseMult E d)) r m s = Inr ()"
  proof (rule verifyHash_InrI [OF laws d])
    show "challenge E r (pt_X E (pt_BaseMult E d)) m = Inr e" using e by (simp add: r R0 pk)
  next
    have same: "(s - e * ?x) mod n = even_scalar E q mod n"
    proof (cases "pt_YOdd E (pt_BaseMult E q)")
      case True
      have "(s - e * ?x) mod n = ((as_s sig - e * ?x) - t) mod n"
        using True by (simp add: s mod_simps algebra_simps)
      also have "\<dots> = ((as_s sig - e * ?x) - t mod n) mod n" by (simp add: mod_simps)
      also have "\<dots> = (- q) mod n" using True by (simp add: T mod_simps)
      finally show ?thesis using True by (simp add: even_scalar_def)
    next
      case False
      have "(s - e * ?x) mod n = ((as_s sig - e * ?x) + t) mod n"
        using False by (simp add: s mod_simps algebra_simps)
      also have "\<dots> = ((as_s sig - e * ?x) + t mod n) mod n" by (simp add: mod_simps)
      also have "\<dots> = q mod n" using False by (simp add: T mod_simps)
      finally show ?thesis using False by (simp add: even_scalar_def)
    qed
    then have P: "pt_BaseMult E (s - e * ?x) = pt_BaseMult E (even_scalar E q)"
      by (rule BaseMult_cong [OF laws])
    note f = even_scalar_facts [OF laws E(1)]
    show "(s - e * ?x) mod n \<noteq> 0" using f(1) same by simp
    show "\<not> pt_YOdd E (pt_BaseMult E (s - e * ?x))" using f(4) by (simp add: P)
    show "r = pt_X E (pt_BaseMult E (s - e * ?x))" using f(3) by (simp add: P r)
  qed
  then show ?thesis by (simp add: pk)
qed

text \<open>C34: extraction.  From an adaptor signature and its decryption, \<open>adaptor_extract\<close> recovers exactly the
  decryption key; the published signature thus reveals it to whoever holds the adaptor signature.\<close>

theorem extract_decrypt:
  assumes laws: "curve_laws E n" and t: "0 < t" "t < n"
    and dec: "decrypt E sig t = Inr (r, s)" and s: "s \<noteq> 0"
  shows "adaptor_extract E sig (r, s) = Inr t"
proof -
  have S: "s = (if pt_YOdd E (as_R0 sig) then (as_s sig + (- t) mod n) mod n else (as_s sig + t) mod n)"
    and nz: "as_s sig \<noteq> 0"
    using dec by (auto simp: decrypt_def curve_lawsD(4,6) [OF laws] split: if_splits)
  have mods: "s mod n = s" by (simp add: S)
  have "(if pt_YOdd E (as_R0 sig) then (as_s sig + (- s) mod n) mod n else (s + (- as_s sig) mod n) mod n) = t"
    using t by (simp add: S mod_simps)
  then show ?thesis
    using nz s by (auto simp: adaptor_extract_def curve_lawsD(4,6,10) [OF laws] mods split: if_splits)
qed

text \<open>C35: bytes.  The 65-byte form of an adaptor signature reads back as the same signature.\<close>

theorem Marshal_roundtrip:
  assumes laws: "curve_laws E n" and q: "as_R0 sig = pt_BaseMult E q" "q mod n \<noteq> 0"
    and s: "0 \<le> as_s sig" "as_s sig < n"
  shows "NewAdaptorSignatureFromBytes E (AdaptorSignature_Marshal E sig) = Inr sig"
proof -
  have "length (compressed E (pt_BaseMult E q)) = 33" "length (sc_Bytes E (as_s sig)) = 32"
    by (simp_all add: compressed_def curve_lawsD(11,19) [OF laws])
  moreover have "pt_ParseJacobian E (compressed E (pt_BaseMult E q)) = Inr (pt_BaseMult E q)"
    using curve_lawsD(22) [OF laws q(2)] by (simp add: compressed_def)
  ultimately show ?thesis
    using s by (simp add: NewAdaptorSignatureFromBytes_def AdaptorSignature_Marshal_def q(1)
        curve_lawsD(10) [OF laws] flip: q(1))
qed

text \<open>Keys.  The decryption key made from a scalar belongs to the encryption key made from the
  scalar's point, and the caller's scalar is left negated when that point has an odd ordinate.\<close>

theorem decryption_key_matches:
  assumes laws: "curve_laws E n" and sc: "0 < sk" "sk < n"
  shows "\<exists>dk. NewDecryptionKeyFromBTCSK E (Inr b) sk = (Inr dk, dk) \<and>
           NewEncryptionKeyFromBTCPK E (pt_BaseMult E sk) = Inr (pt_BaseMult E dk) \<and>
           (pt_YOdd E (pt_BaseMult E sk) \<longleftrightarrow> dk = n - sk)"
proof -
  have nz: "sk mod n \<noteq> 0" using sc by simp
  have neg: "(- sk) mod n = n - sk" using sc by (simp add: zmod_zminus1_eq_if)
  have "pt_BaseMult E (n - sk) = pt_BaseMult E (- sk)"
    by (rule BaseMult_cong [OF laws]) simp
  moreover have "n \<noteq> 2 * sk" using curve_lawsD(2) [OF laws] by auto
  ultimately show ?thesis
    using sc nz neg
    by (simp add: NewDecryptionKeyFromBTCSK_def NewDecryptionKeyFromModNScalar_def
        blinding_correct [OF laws] NewEncryptionKeyFromBTCPK_def NewEncryptionKeyFromJacobianPoint_def
        curve_lawsD(6,15,16) [OF laws] Let_def)
qed

section \<open>Examples\<close>

definition small_adaptor :: "int AdaptorSignature" where
  "small_adaptor = \<lparr>as_R0 = 3, as_s = 3\<rparr>"

lemma small_encSign: "encSign small_curve (Inr 5) 3 1 3 (replicate 32 1) 2 = Inr small_adaptor"
  by code_simp

lemma small_decrypt: "decrypt small_curve small_adaptor 2 = Inr (pt_X small_curve 3, 5)"
  by code_simp

theorem decrypt_valid_witness:
  "verifyHash small_curve (pt_X small_curve 3) (pt_X small_curve 3) (replicate 32 1) 5 = Inr ()"
proof (rule decrypt_valid [OF small_curve_laws, of 3 3 small_adaptor 3 2])
  show "(3 :: int) = pt_BaseMult small_curve 3" "(3 :: int) mod 7 \<noteq> 0"
    "as_R0 small_adaptor = pt_BaseMult small_curve 3"
    by (simp_all add: small_curve_def small_adaptor_def)
  show "EncVerify small_curve small_adaptor 3 (pt_BaseMult small_curve 2) (replicate 32 1) = Inr ()"
    by code_simp
  show "challenge small_curve (pt_X small_curve (as_R0 small_adaptor)) (pt_X small_curve 3) (replicate 32 1) = Inr 3"
    by code_simp
qed (rule small_decrypt)

theorem extract_decrypt_witness:
  "adaptor_extract small_curve small_adaptor (pt_X small_curve 3, 5) = Inr 2"
  using extract_decrypt [OF small_curve_laws _ _ small_decrypt] by simp

theorem Marshal_roundtrip_witness:
  "NewAdaptorSignatureFromBytes small_curve (AdaptorSignature_Marshal small_curve small_adaptor) = Inr small_adaptor"
  using Marshal_roundtrip [OF small_curve_laws, of small_adaptor 3]
  by (simp add: small_adaptor_def small_curve_def)

theorem decryption_key_matches_witness:
  "\<exists>dk. NewDecryptionKeyFromBTCSK small_curve (Inr 1) 5 = (Inr dk, dk) \<and>
        NewEncryptionKeyFromBTCPK small_curve (pt_BaseMult small_curve 5) = Inr (pt_BaseMult small_curve dk) \<and>
        (pt_YOdd small_curve (pt_BaseMult small_curve 5) \<longleftrightarrow> dk = 7 - 5)"
  using decryption_key_matches [OF small_curve_laws, of 5 1] by simp

end
