(* ===== verification/Reward_Pool.thy ===== *)
theory Reward_Pool
  imports Stores
begin

text \<open>
  The period-based distribution that the incentive module uses for every finality provider and the
  costaking module for its one pool, for one denomination.  Rewards arrive in the current period; closing a
  period adds the rewards per share to a running sum; settling a member pays what the sum has grown by since
  its last settlement, times its share, without the decimals.  \<open>claims\<close> is what the pool still owes: no
  operation makes it grow by more than what came in.
\<close>

record 'k pool =
  po_hist :: "u64 \<Rightarrow> int"
  po_period :: u64
  po_cur :: int
  po_total :: int
  po_shares :: "('k, int \<times> u64) store"

definition due_of :: "'k pool \<Rightarrow> int \<times> u64 \<Rightarrow> int" where
  "due_of p m = fst m * (po_hist p (po_period p - 1) - po_hist p (snd m))"

definition due :: "'k pool \<Rightarrow> 'k \<Rightarrow> int" where
  "due p k = (case kv_get (po_shares p) k of None \<Rightarrow> 0 | Some m \<Rightarrow> due_of p m)"

definition share :: "'k pool \<Rightarrow> 'k \<Rightarrow> int" where
  "share p k = (case kv_get (po_shares p) k of None \<Rightarrow> 0 | Some m \<Rightarrow> fst m)"

definition claims :: "'k pool \<Rightarrow> int" where
  "claims p = po_cur p + (\<Sum>e\<leftarrow>po_shares p. due_of p (snd e))"

definition pool_pre :: "'k::linorder pool \<Rightarrow> bool" where
  "pool_pre p \<longleftrightarrow> kv_ok (po_shares p) \<and> 0 \<le> po_cur p \<and> 0 < po_period p \<and>
     (\<forall>e \<in> set (po_shares p). 0 \<le> fst (snd e) \<and> (fst (snd e) = 0 \<or> snd (snd e) < po_period p)) \<and>
     (\<forall>i j. i \<le> j \<longrightarrow> j < po_period p \<longrightarrow> po_hist p i \<le> po_hist p j)"

definition shares_sum :: "'k pool \<Rightarrow> int" where
  "shares_sum p = (\<Sum>e\<leftarrow>po_shares p. fst (snd e))"

definition pool_ok :: "'k::linorder pool \<Rightarrow> bool" where
  "pool_ok p \<longleftrightarrow> pool_pre p \<and> po_total p = shares_sum p"

section \<open>Operations\<close>

definition pool_new :: "'k pool" where
  "pool_new = \<lparr>po_hist = \<lambda>_. 0, po_period = 1, po_cur = 0, po_total = 0, po_shares = []\<rparr>"

definition pool_add :: "int \<Rightarrow> 'k pool \<Rightarrow> 'k pool" where
  "pool_add r p = p\<lparr>po_cur := po_cur p + r\<rparr>"

definition pool_close :: "'k pool \<Rightarrow> 'k pool" where
  "pool_close p = p\<lparr>po_hist := (po_hist p)(po_period p := po_hist p (po_period p - 1) +
       (if po_total p \<noteq> 0 then po_cur p div po_total p else 0)),
     po_period := po_period p + 1, po_cur := 0\<rparr>"

definition pool_set :: "'k::linorder \<Rightarrow> int \<times> u64 \<Rightarrow> 'k pool \<Rightarrow> 'k pool" where
  "pool_set k m p = p\<lparr>po_shares := kv_set k m (po_shares p)\<rparr>"

definition pool_settle :: "'k::linorder \<Rightarrow> int \<Rightarrow> 'k pool \<Rightarrow> 'k pool" where
  "pool_settle k w p = (pool_set k (w, po_period p - 1) p)\<lparr>po_total := po_total p + w - share p k\<rparr>"

section \<open>Claims\<close>

lemma sum_kv_set:
  fixes f :: "'k::linorder \<times> 'v \<Rightarrow> int"
  assumes "kv_ok st"
  shows "(\<Sum>e\<leftarrow>kv_set k v st. f e) = (\<Sum>e\<leftarrow>st. f e) + f (k, v) - (case kv_get st k of None \<Rightarrow> 0 | Some v' \<Rightarrow> f (k, v'))"
  using assms
proof (induction st)
  case (Cons e st)
  have "kv_get st k = None" if "\<not> fst e < k" "fst e \<noteq> k"
  proof -
    have "k \<notin> fst ` set st" using Cons.prems that by (force simp: kv_ok_Cons)
    then show ?thesis using Cons.prems by (auto simp: kv_ok_Cons kv_has_keys [symmetric] kv_has_def)
  qed
  then show ?case using Cons by (cases e) (auto simp: kv_ok_Cons split: option.splits)
qed simp

lemma sum_kv_del:
  fixes f :: "'k::linorder \<times> 'v \<Rightarrow> int"
  assumes "kv_ok st"
  shows "(\<Sum>e\<leftarrow>kv_del k st. f e) = (\<Sum>e\<leftarrow>st. f e) - (case kv_get st k of None \<Rightarrow> 0 | Some v' \<Rightarrow> f (k, v'))"
  using assms
proof (induction st)
  case (Cons e st)
  have "kv_get st k = None" if "fst e = k"
  proof -
    have "k \<notin> fst ` set st" using Cons.prems that by (force simp: kv_ok_Cons)
    then show ?thesis using Cons.prems by (auto simp: kv_ok_Cons kv_has_keys [symmetric] kv_has_def)
  qed
  then show ?case using Cons by (cases e) (auto simp: kv_ok_Cons kv_del_def split: option.splits)
qed (simp add: kv_del_def)

lemma sum_kv_update:
  fixes f g :: "'k::linorder \<times> 'v \<Rightarrow> int"
  assumes "kv_ok st" and "\<And>k' v'. k' \<noteq> k \<Longrightarrow> g (k', v') = f (k', v')"
  shows "(\<Sum>e\<leftarrow>kv_set k v st. g e) = (\<Sum>e\<leftarrow>st. f e) + g (k, v) - (case kv_get st k of None \<Rightarrow> 0 | Some v' \<Rightarrow> f (k, v'))"
proof -
  have "(\<Sum>e\<leftarrow>kv_del k st. g e) = (\<Sum>e\<leftarrow>kv_del k st. f e)"
    using assms(2) by (intro arg_cong [where f = sum_list] map_cong) (auto simp: kv_del_def)
  then show ?thesis using sum_kv_set [OF assms(1), of g k v] sum_kv_del [OF assms(1), of g k] sum_kv_del [OF assms(1), of f k]
    by linarith
qed

lemma sum_div_le:
  assumes "0 < (m :: int)"
  shows "(\<Sum>x\<leftarrow>xs. f x div m) \<le> (\<Sum>x\<leftarrow>xs. f x) div m"
proof (induction xs)
  case (Cons x xs)
  have "0 \<le> (f x mod m + (\<Sum>x\<leftarrow>xs. f x) mod m) div m" using assms by (simp add: pos_imp_zdiv_nonneg_iff)
  then show ?case using Cons div_add1_eq [of "f x" "\<Sum>x\<leftarrow>xs. f x" m] by simp
qed simp

lemma portions_le:
  assumes "(\<Sum>x\<leftarrow>xs. f x) \<le> m" and "0 < m" and "0 \<le> a"
  shows "(\<Sum>x\<leftarrow>xs. a * f x div m) \<le> (a :: int)"
proof -
  have "(\<Sum>x\<leftarrow>xs. a * f x div m) \<le> a * (\<Sum>x\<leftarrow>xs. f x) div m"
    using sum_div_le [OF assms(2), of "\<lambda>x. a * f x" xs] by (simp add: sum_list_const_mult)
  also have "\<dots> \<le> a * m div m" using assms by (intro zdiv_mono1 mult_left_mono) simp_all
  finally show ?thesis using assms(2) by simp
qed

lemma period_pred: "0 < (n :: u64) \<Longrightarrow> n - 1 < n"
  by (simp add: word_gt_0 word_less_nat_alt unat_sub_if')

lemma period_succ: "(n :: u64) + 1 \<noteq> 0 \<Longrightarrow> i < n + 1 \<longleftrightarrow> i \<le> n"
  using unatSuc [of n] by (simp add: word_less_nat_alt word_le_nat_alt add.commute [of 1 n] less_Suc_eq_le)

lemma period_le: "0 < (n :: u64) \<Longrightarrow> i \<le> n - 1 \<longleftrightarrow> i < n"
  using period_succ [of "n - 1" i] by (simp add: word_gt_0)

lemma pool_preD:
  assumes "pool_pre p"
  shows "kv_ok (po_shares p)" "0 \<le> po_cur p" "0 < po_period p"
    "e \<in> set (po_shares p) \<Longrightarrow> 0 \<le> fst (snd e)" "e \<in> set (po_shares p) \<Longrightarrow> fst (snd e) = 0 \<or> snd (snd e) < po_period p"
    "i \<le> j \<Longrightarrow> j < po_period p \<Longrightarrow> po_hist p i \<le> po_hist p j"
  using assms by (auto simp: pool_pre_def)

lemma pool_okD: "pool_ok p \<Longrightarrow> pool_pre p" "pool_ok p \<Longrightarrow> po_total p = shares_sum p"
  by (simp_all add: pool_ok_def)

lemma shares_sum_nonneg: "pool_pre p \<Longrightarrow> 0 \<le> shares_sum p"
  unfolding shares_sum_def using pool_preD(4) by (intro sum_list_nonneg) auto

lemma due_nonneg:
  assumes "pool_pre p"
  shows "0 \<le> due p k"
proof (cases "kv_get (po_shares p) k")
  case (Some m)
  then have e: "(k, m) \<in> set (po_shares p)" using kv_get_iff [OF pool_preD(1) [OF assms]] by blast
  have w: "0 \<le> fst m" "fst m = 0 \<or> snd m < po_period p" using pool_preD(4,5) [OF assms e] by simp_all
  have lt: "po_period p - 1 < po_period p" using pool_preD(3) [OF assms] by (rule period_pred)
  have "po_hist p (snd m) \<le> po_hist p (po_period p - 1)" if "snd m < po_period p"
    using that lt pool_preD(3) [OF assms] by (intro pool_preD(6) [OF assms]) (simp_all add: period_le)
  then show ?thesis using Some w by (auto simp: due_def due_of_def)
qed (simp add: due_def)

lemma claims_nonneg:
  assumes "pool_pre p"
  shows "0 \<le> claims p"
proof -
  have "0 \<le> due_of p (snd e)" if "e \<in> set (po_shares p)" for e
    using due_nonneg [OF assms, of "fst e"] kv_get_iff [OF pool_preD(1) [OF assms], of "fst e" "snd e"] that by (simp add: due_def)
  then have "0 \<le> (\<Sum>e\<leftarrow>po_shares p. due_of p (snd e))" by (intro sum_list_nonneg) auto
  then show ?thesis using pool_preD(2) [OF assms] by (simp add: claims_def)
qed

lemma pool_new_ok [simp]: "pool_ok pool_new" "claims pool_new = 0"
  by (simp_all add: pool_ok_def pool_pre_def shares_sum_def pool_new_def claims_def)

lemma pool_add_ok:
  assumes "pool_ok p" and "0 \<le> r"
  shows "pool_ok (pool_add r p)" "claims (pool_add r p) = claims p + r"
  using assms by (simp_all add: pool_ok_def pool_pre_def shares_sum_def pool_add_def claims_def due_of_def)

text \<open>Closing a period gives out at most the rewards of the period when the total is at least the sum of the
  shares; without rewards it changes no claim.\<close>

lemma pool_close_pre:
  assumes ok: "pool_pre p" and tot: "po_cur p = 0 \<or> po_total p = shares_sum p" and room: "po_period p + 1 \<noteq> 0"
  shows "pool_pre (pool_close p)" "claims (pool_close p) \<le> claims p"
proof -
  let ?r = "if po_total p \<noteq> 0 then po_cur p div po_total p else 0"
  have r: "0 \<le> ?r" "?r * shares_sum p \<le> po_cur p"
    using tot shares_sum_nonneg [OF ok] pool_preD(2) [OF ok]
    by (auto simp: pos_imp_zdiv_nonneg_iff minus_mod_eq_div_mult [symmetric])
  have lt: "i < po_period (pool_close p) \<longleftrightarrow> i \<le> po_period p" for i using period_succ [OF room] by (simp add: pool_close_def)
  have last: "po_period p - 1 < po_period p" using pool_preD(3) [OF ok] by (rule period_pred)
  have mono: "po_hist (pool_close p) i \<le> po_hist (pool_close p) j" if "i \<le> j" "j \<le> po_period p" for i j
  proof (cases "j = po_period p")
    case True
    have "po_hist p i \<le> po_hist p (po_period p - 1)" if "i < po_period p"
      using that last pool_preD(3) [OF ok] by (intro pool_preD(6) [OF ok]) (simp_all add: period_le)
    then have "po_hist p i \<le> po_hist p (po_period p - 1) + ?r" if "i < po_period p" using that r(1) by (rule_tac add_increasing2) simp_all
    with True that(1) show ?thesis by (cases "i = po_period p") (simp_all add: pool_close_def)
  next
    case False
    with that have "i \<le> j" "j < po_period p" "i \<noteq> po_period p" by auto
    then show ?thesis using pool_preD(6) [OF ok, of i j] False by (simp add: pool_close_def)
  qed
  have start: "fst (snd e) = 0 \<or> snd (snd e) \<le> po_period p" if "e \<in> set (po_shares p)" for e
    using pool_preD(5) [OF ok that] by auto
  have shares: "po_shares (pool_close p) = po_shares p" "po_cur (pool_close p) = 0"
    "po_period (pool_close p) - 1 = po_period p" by (simp_all add: pool_close_def)
  have pos: "0 < po_period (pool_close p)" using room by (simp add: pool_close_def word_gt_0)
  show "pool_pre (pool_close p)"
    unfolding pool_pre_def shares lt using pos pool_preD(1) [OF ok] pool_preD(4) [OF ok] start mono by auto
  have d: "due_of (pool_close p) (snd e) = due_of p (snd e) + ?r * fst (snd e)" if "e \<in> set (po_shares p)" for e
    using pool_preD(5) [OF ok that] by (auto simp: due_of_def pool_close_def algebra_simps)
  have "(\<Sum>e\<leftarrow>po_shares p. due_of (pool_close p) (snd e)) = (\<Sum>e\<leftarrow>po_shares p. due_of p (snd e) + ?r * fst (snd e))"
    using d by (intro arg_cong [where f = sum_list] map_cong) simp_all
  also have "\<dots> = (\<Sum>e\<leftarrow>po_shares p. due_of p (snd e)) + ?r * shares_sum p"
    by (simp add: shares_sum_def sum_list_addf sum_list_const_mult)
  finally show "claims (pool_close p) \<le> claims p" using r(2) by (simp add: claims_def shares)
qed

lemma pool_close_ok:
  assumes "pool_ok p" and "po_period p + 1 \<noteq> 0"
  shows "pool_ok (pool_close p)" "claims (pool_close p) \<le> claims p"
proof -
  have "shares_sum (pool_close p) = shares_sum p" "po_total (pool_close p) = po_total p"
    by (simp_all add: shares_sum_def pool_close_def)
  then show "pool_ok (pool_close p)" "claims (pool_close p) \<le> claims p"
    using pool_close_pre [of p] assms by (simp_all add: pool_ok_def)
qed

lemma pool_set_pre:
  assumes ok: "pool_pre p" and m: "0 \<le> fst m" "fst m = 0 \<or> snd m < po_period p"
  shows "pool_pre (pool_set k m p)" "claims (pool_set k m p) = claims p - due p k + due_of p m"
    "shares_sum (pool_set k m p) = shares_sum p + fst m - share p k"
proof -
  let ?st = "kv_set k m (po_shares p)"
  have mem: "e \<in> set (po_shares p) \<or> e = (k, m)" if "e \<in> set ?st" for e
    using that kv.entries_set [OF pool_preD(1) [OF ok], of k m] by auto
  have "0 \<le> fst (snd e) \<and> (fst (snd e) = 0 \<or> snd (snd e) < po_period p)" if "e \<in> set ?st" for e
    using mem [OF that] pool_preD(4,5) [OF ok, of e] m by auto
  then have "\<forall>e \<in> set ?st. 0 \<le> fst (snd e) \<and> (fst (snd e) = 0 \<or> snd (snd e) < po_period p)" by blast
  then show "pool_pre (pool_set k m p)" using ok unfolding pool_pre_def by (simp add: pool_set_def)
  have "due_of (pool_set k m p) m' = due_of p m'" for m' by (simp add: due_of_def pool_set_def)
  then show "claims (pool_set k m p) = claims p - due p k + due_of p m"
    using sum_kv_set [OF pool_preD(1) [OF ok], of "\<lambda>e. due_of p (snd e)" k m]
    by (simp add: claims_def pool_set_def due_def split: option.splits)
  show "shares_sum (pool_set k m p) = shares_sum p + fst m - share p k"
    using sum_kv_set [OF pool_preD(1) [OF ok], of "\<lambda>e. fst (snd e)" k m]
    by (simp add: shares_sum_def pool_set_def share_def split: option.splits)
qed

lemma pool_total_irrelevant [simp]:
  "pool_pre (p\<lparr>po_total := x\<rparr>) = pool_pre p" "claims (p\<lparr>po_total := x\<rparr>) = claims p" "shares_sum (p\<lparr>po_total := x\<rparr>) = shares_sum p"
  "due (p\<lparr>po_total := x\<rparr>) k = due p k" "share (p\<lparr>po_total := x\<rparr>) k = share p k"
  by (simp_all add: pool_pre_def claims_def due_def due_of_def shares_sum_def share_def split: option.split)

lemma due_of_last [simp]: "due_of p (w, po_period p - 1) = 0" "due_of p (0, n) = 0"
  by (simp_all add: due_of_def)

lemma pool_settle_ok:
  assumes ok: "pool_ok p" and w: "0 \<le> w"
  shows "pool_ok (pool_settle k w p)" "claims (pool_settle k w p) = claims p - due p k"
proof -
  have "po_period p - 1 < po_period p" using pool_preD(3) [OF pool_okD(1) [OF ok]] by (rule period_pred)
  note s = pool_set_pre [OF pool_okD(1) [OF ok], of "(w, po_period p - 1)" k]
  show "pool_ok (pool_settle k w p)" "claims (pool_settle k w p) = claims p - due p k"
    using s w \<open>po_period p - 1 < po_period p\<close> pool_okD(2) [OF ok] by (simp_all add: pool_ok_def pool_settle_def)
qed

section \<open>Counting periods\<close>

text \<open>Periods are counted with 64 bits.  A counter can only wrap once the rewards of all periods are stored.\<close>

lemma full_keys:
  fixes g :: "u64 \<Rightarrow> 'k::linorder"
  assumes "inj g" and "\<And>n. kv_has st (g n)"
  shows "2 ^ 64 \<le> length st"
proof -
  have "range g \<subseteq> fst ` set st"
  proof
    fix x assume "x \<in> range g"
    then obtain n where "x = g n" by blast
    then have "kv_get st x \<noteq> None" using assms(2) [of n] by (simp add: kv_has_def)
    then obtain v where "map_of st x = Some v" by (auto simp: kv_get_def)
    then show "x \<in> fst ` set st" by (metis map_of_SomeD fst_conv image_eqI)
  qed
  then have "card (range g) \<le> card (fst ` set st)" by (intro card_mono) auto
  also have "\<dots> \<le> length st" by (metis card_image_le card_length finite_set le_trans)
  finally show ?thesis using card_image [OF assms(1)] by (simp add: card_word)
qed

lemma counter_room:
  fixes g :: "u64 \<Rightarrow> 'k::linorder"
  assumes "inj g" and "\<And>n. kv_has st (g n) \<longleftrightarrow> n < period" and "length (kv_set (g period) v st) < 2 ^ 64"
  shows "period + 1 \<noteq> 0" "kv_has (kv_set (g period) v st) (g n) \<longleftrightarrow> n < period + 1"
proof -
  show nz: "period + 1 \<noteq> 0"
  proof
    assume "period + 1 = 0"
    then have "n \<le> period" for n by (simp add: eq_neg_iff_add_eq_0 [symmetric])
    then have "kv_has (kv_set (g period) v st) (g n)" for n using assms(2) by (auto simp: order.order_iff_strict)
    from full_keys [OF assms(1) this] assms(3) show False by simp
  qed
  show "kv_has (kv_set (g period) v st) (g n) \<longleftrightarrow> n < period + 1"
    unfolding period_succ [OF nz] using assms(2) injD [OF assms(1)] by (auto simp: order.order_iff_strict)
qed

end
