(* ===== verification/Spec2Isabelle.thy ===== *)
theory Spec2Isabelle
  imports Finality_Run Adaptor Reward_Pool
begin

text \<open>
  A verification library for the finality and staking modules of the chain.
\<close>

section \<open>Properties of the whole system\<close>



text \<open>C2: Finality is irrevocable: a block that is finalised in a reachable state is finalised with the same
  application hash in every state reached from there.\<close>

theorem finalized_forever:
  assumes "sys_init S0" and "(sys_step X C B F enc auth)\<^sup>*\<^sup>* S0 S" and "(sys_step X C B F enc auth)\<^sup>*\<^sup>* S T" and "merkle_binding F"
    and "kv_get (fs_blocks (sy_fin S)) h = Some b" and "ib_finalized b"
  shows "\<exists>b'. kv_get (fs_blocks (sy_fin T)) h = Some b' \<and> ib_finalized b' \<and> ib_app_hash b' = ib_app_hash b"
  using sys_steps_ok [OF assms(3) _ assms(4)] sys_steps_ok [OF assms(2) sys_init_ok [OF assms(1)] assms(4)] assms(5,6)
  unfolding blocks_kept_def by blast

theorem finalized_forever_witness:
  "\<exists>S T b b'. ex_step\<^sup>*\<^sup>* (ex_sys 0 False ex_genesis) S \<and> ex_step S T \<and> sy_cur T = 4 \<and>
     kv_get (fs_blocks (sy_fin S)) 2 = Some b \<and> kv_get (fs_blocks (sy_fin T)) 2 = Some b' \<and> ib_finalized b' \<and> ib_app_hash b' = ending_in 0"
proof -
  obtain s7 s8 s9 where r: "ex_step\<^sup>*\<^sup>* (ex_sys 0 False ex_genesis) (ex_sys 3 True s7)" "ex_step (ex_sys 3 True s7) (ex_sys 3 False s8)"
    "ex_step (ex_sys 3 False s8) (ex_sys 4 True s9)" "ex_final s8" by (rule ex_reach)
  have b: "kv_get (fs_blocks (sy_fin (ex_sys 3 False s8))) 2 = Some \<lparr>ib_height = 2, ib_app_hash = ending_in 0, ib_finalized = True\<rparr>"
    using r(4) by (simp add: ex_sys_def ex_final_def)
  have S: "ex_step\<^sup>*\<^sup>* (ex_sys 0 False ex_genesis) (ex_sys 3 False s8)" using r(1,2) by (rule rtranclp.rtrancl_into_rtrancl)
  have T: "ex_step\<^sup>*\<^sup>* (ex_sys 3 False s8) (ex_sys 4 True s9)" using r(3) by (rule r_into_rtranclp)
  obtain b' where "kv_get (fs_blocks (sy_fin (ex_sys 4 True s9))) 2 = Some b'" "ib_finalized b'" "ib_app_hash b' = ending_in 0"
    using finalized_forever [OF ex_init S T voting_laws(2) b] by auto
  moreover have "sy_cur (ex_sys 4 True s9) = 4" by (simp add: ex_sys_def)
  ultimately show ?thesis using S r(3) b by blast
qed



section \<open>Accountable safety\<close>

text \<open>The keys of the finality providers that voted for two blocks at a height are exposed: the stored vote
  and the other one make an evidence from which \<open>ExtractBTCSK\<close> computes the secret key.\<close>

definition key_exposed :: "'p fin_ext \<Rightarrow> 'c fin_state \<Rightarrow> u64 \<Rightarrow> bytes \<Rightarrow> BIP340PubKey \<Rightarrow> bool" where
  "key_exposed F s h w pk \<longleftrightarrow> (\<exists>e b sk. kv_get (fs_votes s) (h, pk) = ev_canonical_sig e \<and> kv_get (fs_blocks s) h = Some b \<and>
     ev_fp_btc_pk e = pk \<and> ev_block_height e = h \<and> ev_canonical_app_hash e = ib_app_hash b \<and> ev_fork_app_hash e = w \<and>
     IsSlashable F e \<and> ExtractBTCSK F e = Inr sk \<and> pt_Parse (fx_curve F) pk = Inr (PubGen (fx_curve F) sk))"

definition challenges_differ :: "'p fin_ext \<Rightarrow> int \<Rightarrow> bytes \<Rightarrow> u64 \<Rightarrow> bytes \<Rightarrow> bytes \<Rightarrow> bool" where
  "challenges_differ F d pr h v w \<longleftrightarrow>
     challenge (fx_curve F) (ToFieldValNormalized F pr) (pt_X (fx_curve F) (pt_BaseMult (fx_curve F) d)) (eots_hash (fx_curve F) (msgToSignForVote h v)) \<noteq>
     challenge (fx_curve F) (ToFieldValNormalized F pr) (pt_X (fx_curve F) (pt_BaseMult (fx_curve F) d)) (eots_hash (fx_curve F) (msgToSignForVote h w))"

lemma double_vote_exposes:
  assumes laws: "curve_laws (fx_curve F) n" and bind: "merkle_binding F" and ok: "votes_ok F s"
    and vote: "kv_has (fs_votes s) (h, pk)" and b: "kv_get (fs_blocks s) h = Some b"
    and other: "revealed_ok F s pk h pr" "vote_verifies F pk h pr w sig"
    and key: "pt_Parse (fx_curve F) pk = Inr (pt_BaseMult (fx_curve F) d)" "d mod n \<noteq> 0" "challenges_differ F d pr h (ib_app_hash b) w"
  shows "key_exposed F s h w pk"
proof -
  obtain c where c: "kv_get (fs_votes s) (h, pk) = Some c" using vote by (auto simp: kv_has_def)
  obtain pr' where pr': "kv_get (fs_pub_rands s) (pk, h) = Some pr'" "vote_verifies F pk h pr' (ib_app_hash b) c"
    using votes_okD(2) [OF ok c] b by auto
  then have [simp]: "pr' = pr" using revealed_unique [OF bind votes_okD(1) [OF ok] other(1)] by blast
  define e where "e = \<lparr>ev_fp_btc_pk = pk, ev_block_height = h, ev_pub_rand = Some pr, ev_canonical_app_hash = ib_app_hash b,
    ev_fork_app_hash = w, ev_canonical_sig = Some c, ev_fork_sig = Some sig\<rparr>"
  have ev: "evidence_ok F pk h pr b e" using other(2) by (simp add: evidence_ok_def e_def)
  have differ: "challenge (fx_curve F) (ToFieldValNormalized F pr) (pt_X (fx_curve F) (pt_BaseMult (fx_curve F) d))
        (eots_hash (fx_curve F) (canonicalMsgToSign e)) \<noteq>
      challenge (fx_curve F) (ToFieldValNormalized F pr) (pt_X (fx_curve F) (pt_BaseMult (fx_curve F) d))
        (eots_hash (fx_curve F) (forkMsgToSign e))"
    using key(3) by (simp add: challenges_differ_def canonicalMsgToSign_def forkMsgToSign_def e_def)
  have sig: "ev_canonical_sig e = Some c" "vote_verifies F pk h pr (ib_app_hash b) c" using pr'(2) by (simp_all add: e_def)
  obtain sk where sk: "ExtractBTCSK F e = Inr sk" "PubGen (fx_curve F) sk = pt_BaseMult (fx_curve F) d"
    using evidence_extract [OF laws key(1,2) ev sig differ] by blast
  then have "IsSlashable F e" by (auto simp: ExtractBTCSK_def split: if_splits)
  with sk b c key(1) show ?thesis unfolding key_exposed_def by (intro exI [of _ e] exI [of _ b] exI [of _ sk]) (simp add: e_def)
qed

lemma power_at_overlap: "power_at s h P + power_at s h Q \<le> power_at s h (\<lambda>_. True) + power_at s h (\<lambda>pk. P pk \<and> Q pk)"
proof -
  have "(\<Sum>e\<leftarrow>es. if P (fst e) then unat (snd e) else 0) + (\<Sum>e\<leftarrow>es. if Q (fst e) then unat (snd e) else 0) \<le>
      (\<Sum>e\<leftarrow>es. unat (snd e)) + (\<Sum>e\<leftarrow>es. if P (fst e) \<and> Q (fst e) then unat (snd e) else 0)" for es :: "(BIP340PubKey \<times> u64) list"
    by (induction es) auto
  then show ?thesis by (simp add: power_at_def)
qed


lemma ex_signatures:
  "eots_Verify small_curve 3 (ending_in 2) (msgToSignForVote 2 (ending_in 1)) (fst (sc_SetBytes small_curve (ending_in 5))) = Inr ()"
  "challenges_differ voting_ext 3 (ending_in 2) 2 (ending_in 0) (ending_in 1)"
  by code_simp+


section \<open>Raising the activation height\<close>

definition ex_raised :: "u64 \<Rightarrow> fin_params" where
  "ex_raised h = \<lparr>pm_max_active_fps = 5, pm_sig_timeout = 3, pm_signed_blocks_window = 100,
     pm_min_signed_per_window = Some (5 * 10 ^ 17), pm_min_pub_rand = 8192, pm_jail_duration = 86400, pm_activation_height = h\<rparr>"

definition ex_stalled :: "u64 \<Rightarrow> int fin_state" where
  "ex_stalled h = fin_empty\<lparr>fs_power := [((2, ending_in 3), 70)], fs_next_finalize := Some h\<rparr>"



end
